(* ===== verification/Prelude.thy ===== *)
theory Prelude
  imports Complex_Main "HOL-Library.AList" "HOL-Library.Sublist" "HOL-Library.Multiset"
begin

text \<open>
  The shared ground of the development.

  \<^item> the collections of rewrite rules the component theories feed
    (\<open>gostr\<close> for Go string functions, \<open>goerr\<close> for error
    chains, \<open>inv_rules\<close> for invariant preservation);
  \<^item> association lists as Go maps (\<open>len(m)\<close> is the number of
    keys, \<open>m[k] = v\<close> is an update, \<open>delete(m, k)\<close> a deletion);
  \<^item> Go's stable descending sort (\<open>sort.SliceStable\<close> with a
    \<open>>\<close> comparison on a score);
  \<^item> the sum type used for fallible Go functions.
\<close>

named_theorems gostr \<open>rewrite rules for Go string functions\<close>
named_theorems goerr \<open>rewrite rules for Go error chains\<close>
named_theorems inv_rules \<open>invariant preservation rules\<close>

type_synonym ('k, 'v) gomap = "('k \<times> 'v) list"
type_synonym duration = int
type_synonym instant = int

subsection \<open>Go maps as association lists with distinct keys\<close>

definition map_wf :: "('k, 'v) gomap \<Rightarrow> bool" where
  "map_wf m \<longleftrightarrow> distinct (map fst m)"

lemma map_wf_Nil [simp]: "map_wf []"
  by (simp add: map_wf_def)

lemma map_wf_update [simp, intro]: "map_wf m \<Longrightarrow> map_wf (AList.update k v m)"
  by (simp add: map_wf_def distinct_update)

lemma map_wf_delete [simp, intro]: "map_wf m \<Longrightarrow> map_wf (AList.delete k m)"
  by (simp add: map_wf_def distinct_delete)

lemma update_dom_new:
  "k \<notin> fst ` set m \<Longrightarrow> AList.update k v m = m @ [(k, v)]"
  by (induction m) auto

lemma length_update:
  "length (AList.update k v m) = (if k \<in> fst ` set m then length m else Suc (length m))"
  by (induction m) auto

lemma keys_update [simp]: "fst ` set (AList.update k v m) = insert k (fst ` set m)"
  by (simp add: dom_update)

lemma keys_delete [simp]: "fst ` set (AList.delete k m) = fst ` set m - {k}"
  using delete_keys[of k m] by (metis list.set_map set_removeAll)

lemma set_remove1_superset: "A \<subseteq> set xs \<Longrightarrow> A - {h} \<subseteq> set (remove1 h xs)"
proof
  fix x
  assume "A \<subseteq> set xs" "x \<in> A - {h}"
  then show "x \<in> set (remove1 h xs)" by (auto simp: in_set_remove1)
qed

lemma length_delete_mem:
  "map_wf m \<Longrightarrow> k \<in> fst ` set m \<Longrightarrow> Suc (length (AList.delete k m)) = length m"
proof (induction m)
  case (Cons x xs)
  show ?case
  proof (cases "fst x = k")
    case True
    with Cons.prems have "k \<notin> fst ` set xs" by (auto simp: map_wf_def)
    with True show ?thesis by (cases x) (simp add: delete_idem)
  next
    case False
    with Cons show ?thesis by (cases x) (auto simp: map_wf_def)
  qed
qed simp

lemma map_of_eq_None_dom: "map_of m k = None \<longleftrightarrow> k \<notin> fst ` set m"
  by (rule map_of_eq_None_iff)

lemma map_of_SomeE_dom: "map_of m k = Some v \<Longrightarrow> k \<in> fst ` set m"
  by (metis map_of_eq_None_iff option.distinct(1))

end
