(* ===== verification/Go_Strings.thy ===== *)
theory Go_Strings
  imports Prelude
begin

text \<open>
  Go strings and byte slices as lists of bytes (\<^typ>\<open>string\<close>), with the
  functions of the packages \<open>strings\<close>, \<open>bytes\<close>,
  \<open>unicode/utf8\<close> and \<open>strconv\<close> the engine calls.  A rune is a
  natural number.  Decoding follows \<open>utf8.DecodeRune\<close>: an invalid byte
  is the replacement rune \<open>0xFFFD\<close> of width one.  The tables of package
  \<open>unicode\<close> beyond ASCII are a parameter (\<open>unicode_tables\<close>).
\<close>

abbreviation byte :: "char \<Rightarrow> nat" where
  "byte c \<equiv> of_char c"

abbreviation mkbyte :: "nat \<Rightarrow> char" where
  "mkbyte n \<equiv> char_of n"

type_synonym rune = nat

record unicode_tables =
  ut_lower :: "rune \<Rightarrow> rune"
  ut_letter :: "rune \<Rightarrow> bool"
  ut_digit :: "rune \<Rightarrow> bool"

subsection \<open>Substrings\<close>

fun HasPrefix :: "string \<Rightarrow> string \<Rightarrow> bool" where
  "HasPrefix s [] = True"
| "HasPrefix [] (p # ps) = False"
| "HasPrefix (c # cs) (p # ps) = (c = p \<and> HasPrefix cs ps)"

definition HasSuffix :: "string \<Rightarrow> string \<Rightarrow> bool" where
  "HasSuffix s p = HasPrefix (rev s) (rev p)"

definition TrimPrefix :: "string \<Rightarrow> string \<Rightarrow> string" where
  "TrimPrefix s p = (if HasPrefix s p then drop (length p) s else s)"

definition TrimSuffix :: "string \<Rightarrow> string \<Rightarrow> string" where
  "TrimSuffix s p = (if HasSuffix s p then take (length s - length p) s else s)"

fun Index :: "string \<Rightarrow> string \<Rightarrow> nat option" where
  "Index [] sub = (if sub = [] then Some 0 else None)"
| "Index (c # cs) sub =
     (if HasPrefix (c # cs) sub then Some 0 else map_option Suc (Index cs sub))"

fun LastIndex :: "string \<Rightarrow> string \<Rightarrow> nat option" where
  "LastIndex [] sub = (if sub = [] then Some 0 else None)"
| "LastIndex (c # cs) sub =
     (case LastIndex cs sub of
        Some i \<Rightarrow> Some (Suc i)
      | None \<Rightarrow> if HasPrefix (c # cs) sub then Some 0 else None)"

definition Contains :: "string \<Rightarrow> string \<Rightarrow> bool" where
  "Contains s sub = (Index s sub \<noteq> None)"

definition IndexByte :: "string \<Rightarrow> char \<Rightarrow> nat option" where
  "IndexByte s c = Index s [c]"

lemma HasPrefix_iff [gostr]: "HasPrefix s p \<longleftrightarrow> prefix p s"
  by (induction s p rule: HasPrefix.induct) auto

lemma HasSuffix_iff [gostr]: "HasSuffix s p \<longleftrightarrow> suffix p s"
  by (simp add: HasSuffix_def HasPrefix_iff suffix_to_prefix)

lemma Index_Some:
  "Index s sub = Some i \<Longrightarrow> \<exists>t. s = take i s @ sub @ t \<and> i + length sub \<le> length s"
proof (induction s arbitrary: i)
  case (Cons c cs)
  show ?case
  proof (cases "HasPrefix (c # cs) sub")
    case True
    then have "length sub \<le> length (c # cs)"
      by (auto simp: HasPrefix_iff dest: prefix_length_le)
    with True Cons.prems show ?thesis by (auto simp: HasPrefix_iff prefix_def)
  next
    case False
    with Cons.prems obtain j where j: "Index cs sub = Some j" "i = Suc j" by auto
    from Cons.IH[OF j(1)] obtain t where "cs = take j cs @ sub @ t" "j + length sub \<le> length cs"
      by blast
    with j show ?thesis by auto
  qed
qed (auto split: if_splits)

lemma Index_Some_drop: "Index s sub = Some i \<Longrightarrow> prefix sub (drop i s)"
proof (induction s arbitrary: i)
  case (Cons c cs)
  then show ?case by (auto simp: HasPrefix_iff split: if_splits)
qed (auto split: if_splits)

lemma Index_Some_bound: "Index s sub = Some i \<Longrightarrow> i + length sub \<le> length s"
  using Index_Some by blast

lemma Index_None_iff: "Index s sub = None \<longleftrightarrow> \<not> sublist sub s"
proof (induction s)
  case (Cons c cs)
  then show ?case by (auto simp: HasPrefix_iff sublist_Cons_right)
qed auto

lemma Contains_iff [gostr]: "Contains s sub \<longleftrightarrow> sublist sub s"
  by (simp add: Contains_def Index_None_iff)

lemma Contains_self [simp]: "Contains s s"
  by (simp add: Contains_iff)

lemma Contains_append: "Contains (a @ s @ b) s"
  by (auto simp: Contains_iff sublist_def)

lemma IndexByte_None [simp]: "IndexByte s c = None \<longleftrightarrow> c \<notin> set s"
  by (auto simp: IndexByte_def Index_None_iff sublist_def in_set_conv_decomp)

lemma IndexByte_Some:
  "IndexByte s c = Some i \<Longrightarrow> i < length s \<and> s ! i = c \<and> c \<notin> set (take i s)"
proof (induction s arbitrary: i)
  case (Cons d ds)
  then show ?case
    by (cases i) (auto simp: IndexByte_def HasPrefix_iff split: if_splits)
qed (auto simp: IndexByte_def)

subsection \<open>Splitting, joining, replacing\<close>

text \<open>\<open>strings.Split(s, sep)\<close> for a non-empty separator.\<close>

function Split :: "string \<Rightarrow> string \<Rightarrow> string list" where
  "Split s sep =
     (if sep = [] then [s]
      else case Index s sep of
        None \<Rightarrow> [s]
      | Some i \<Rightarrow> take i s # Split (drop (i + length sep) s) sep)"
  by pat_completeness auto
termination
proof (relation "measure (length \<circ> fst)")
  fix s sep :: string and i
  assume "sep \<noteq> []" "Index s sep = Some i"
  then show "((drop (i + length sep) s, sep), (s, sep)) \<in> measure (length \<circ> fst)"
    using Index_Some_bound[of s sep i] by (cases sep; cases s) auto
qed simp

declare Split.simps [simp del]

fun Join :: "string list \<Rightarrow> string \<Rightarrow> string" where
  "Join [] sep = []"
| "Join [x] sep = x"
| "Join (x # y # zs) sep = x @ sep @ Join (y # zs) sep"

definition ReplaceAll :: "string \<Rightarrow> string \<Rightarrow> string \<Rightarrow> string" where
  "ReplaceAll s old new = Join (Split s old) new"

fun Repeat :: "string \<Rightarrow> nat \<Rightarrow> string" where
  "Repeat s 0 = []"
| "Repeat s (Suc n) = s @ Repeat s n"

lemma Split_not_Nil [simp]: "Split s sep \<noteq> []"
  by (subst Split.simps) (auto split: option.splits)

lemma Join_Cons: "xs \<noteq> [] \<Longrightarrow> Join (x # xs) sep = x @ sep @ Join xs sep"
  by (cases xs) auto

lemma Join_Split: "Join (Split s sep) sep = s"
proof (induction s sep rule: Split.induct)
  case (1 s sep)
  show ?case
  proof (cases "sep = [] \<or> Index s sep = None")
    case True
    then show ?thesis by (auto simp: Split.simps[of s])
  next
    case False
    then obtain i where i: "sep \<noteq> []" "Index s sep = Some i" by auto
    from Index_Some[OF i(2)] obtain t where t: "s = take i s @ sep @ t"
      and le: "i + length sep \<le> length s" by blast
    have "drop (i + length sep) (take i s @ sep @ t) = t" using le by simp
    with t have "drop (i + length sep) s = t" by simp
    with t 1[OF i] i show ?thesis
      by (subst Split.simps) (simp add: Join_Cons)
  qed
qed

lemma Split_no_sep:
  assumes "sep \<noteq> []" "x \<in> set (Split s sep)" "sep = [c]"
  shows "c \<notin> set x"
  using assms
proof (induction s sep rule: Split.induct)
  case (1 s sep)
  show ?case
  proof (cases "Index s sep")
    case None
    with 1 have "x = s" by (subst (asm) Split.simps) auto
    with None 1 IndexByte_None[of s c] show ?thesis by (simp add: IndexByte_def)
  next
    case (Some i)
    with 1 have "x = take i s \<or> x \<in> set (Split (drop (i + length sep) s) sep)"
      by (subst (asm) Split.simps) auto
    with 1 Some IndexByte_Some[of s c i] show ?thesis by (auto simp: IndexByte_def)
  qed
qed

end
