(* ===== verification/Go_Runes.thy ===== *)
theory Go_Runes
  imports Go_Strings
begin

text \<open>
  UTF-8 as the Go runtime reads and writes it, and the rune-level functions of
  packages \<open>strings\<close>, \<open>unicode\<close> and \<open>strconv\<close>:
  ranging over a string, \<open>[]rune(s)\<close>, \<open>string(runes)\<close>,
  \<open>ToLower\<close>, \<open>TrimSpace\<close>, \<open>Fields\<close>,
  \<open>FieldsFunc\<close>, \<open>Itoa\<close>.
\<close>

subsection \<open>Decoding and encoding\<close>

definition RuneError :: rune where
  "RuneError = 65533"

definition cont :: "nat \<Rightarrow> bool" where
  "cont b \<longleftrightarrow> 128 \<le> b \<and> b \<le> 191"

text \<open>The accept range of the second byte, by the first byte.\<close>

definition accept2 :: "nat \<Rightarrow> nat \<Rightarrow> bool" where
  "accept2 b0 b1 \<longleftrightarrow>
     (if b0 = 224 then 160 \<le> b1 \<and> b1 \<le> 191
      else if b0 = 237 then 128 \<le> b1 \<and> b1 \<le> 159
      else if b0 = 240 then 144 \<le> b1 \<and> b1 \<le> 191
      else if b0 = 244 then 128 \<le> b1 \<and> b1 \<le> 143
      else cont b1)"

definition decode2 :: "nat \<Rightarrow> nat list \<Rightarrow> rune \<times> nat" where
  "decode2 b0 t = (case t of
     b1 # _ \<Rightarrow> if cont b1 then ((b0 - 192) * 64 + (b1 - 128), 2) else (RuneError, 1)
   | [] \<Rightarrow> (RuneError, 1))"

definition decode3 :: "nat \<Rightarrow> nat list \<Rightarrow> rune \<times> nat" where
  "decode3 b0 t = (case t of
     b1 # b2 # _ \<Rightarrow>
       if accept2 b0 b1 \<and> cont b2
       then ((b0 - 224) * 4096 + (b1 - 128) * 64 + (b2 - 128), 3) else (RuneError, 1)
   | _ \<Rightarrow> (RuneError, 1))"

definition decode4 :: "nat \<Rightarrow> nat list \<Rightarrow> rune \<times> nat" where
  "decode4 b0 t = (case t of
     b1 # b2 # b3 # _ \<Rightarrow>
       if accept2 b0 b1 \<and> cont b2 \<and> cont b3
       then ((b0 - 240) * 262144 + (b1 - 128) * 4096 + (b2 - 128) * 64 + (b3 - 128), 4)
       else (RuneError, 1)
   | _ \<Rightarrow> (RuneError, 1))"

definition decode_bytes :: "nat \<Rightarrow> nat list \<Rightarrow> rune \<times> nat" where
  "decode_bytes b0 t =
     (if b0 < 128 then (b0, 1)
      else if 194 \<le> b0 \<and> b0 \<le> 223 then decode2 b0 t
      else if 224 \<le> b0 \<and> b0 \<le> 239 then decode3 b0 t
      else if 240 \<le> b0 \<and> b0 \<le> 244 then decode4 b0 t
      else (RuneError, 1))"

fun DecodeRune :: "string \<Rightarrow> rune \<times> nat" where
  "DecodeRune [] = (RuneError, 0)"
| "DecodeRune (c # cs) = decode_bytes (byte c) (map byte (take 3 cs))"

definition valid_rune :: "rune \<Rightarrow> bool" where
  "valid_rune r \<longleftrightarrow> r < 55296 \<or> 57344 \<le> r \<and> r < 1114112"

definition encode_bytes :: "rune \<Rightarrow> nat list" where
  "encode_bytes r =
     (if r < 128 then [r]
      else if r < 2048 then [192 + r div 64, 128 + r mod 64]
      else if r < 65536 then [224 + r div 4096, 128 + r div 64 mod 64, 128 + r mod 64]
      else [240 + r div 262144, 128 + r div 4096 mod 64, 128 + r div 64 mod 64, 128 + r mod 64])"

definition encode_rune :: "rune \<Rightarrow> string" where
  "encode_rune r = map mkbyte (encode_bytes (if valid_rune r then r else RuneError))"

lemmas decode_defs = decode_bytes_def decode2_def decode3_def decode4_def

lemma decode_width_pos: "0 < snd (decode_bytes b t)"
  by (auto simp: decode_defs split: list.splits)

lemma decode_width_le: "snd (decode_bytes b t) \<le> Suc (length t)"
  by (auto simp: decode_defs split: list.splits)

lemma DecodeRune_width: "s \<noteq> [] \<Longrightarrow> 0 < snd (DecodeRune s) \<and> snd (DecodeRune s) \<le> length s"
  using decode_width_pos decode_width_le
  by (cases s) (auto intro: order_trans[OF decode_width_le])

subsection \<open>Ranging over a string\<close>

text \<open>The byte segments of the runes of a string, in order.\<close>

function rune_segs :: "string \<Rightarrow> string list" where
  "rune_segs s = (if s = [] then []
     else let w = snd (DecodeRune s) in take w s # rune_segs (drop w s))"
  by pat_completeness auto
termination
  by (relation "measure length") (use DecodeRune_width in auto)

declare rune_segs.simps [simp del]

definition rune_of :: "string \<Rightarrow> rune" where
  "rune_of seg = fst (DecodeRune seg)"

function runes :: "string \<Rightarrow> rune list" where
  "runes s = (if s = [] then []
     else let d = DecodeRune s in fst d # runes (drop (snd d) s))"
  by pat_completeness auto
termination
  by (relation "measure length") (use DecodeRune_width in auto)

declare runes.simps [simp del]

definition of_runes :: "rune list \<Rightarrow> string" where
  "of_runes rs = concat (map encode_rune rs)"

definition RuneCount :: "string \<Rightarrow> nat" where
  "RuneCount s = length (runes s)"

lemma rune_segs_Nil [simp]: "rune_segs [] = []"
  by (simp add: rune_segs.simps)

lemma runes_Nil [simp]: "runes [] = []"
  by (simp add: runes.simps)

lemma concat_rune_segs [simp]: "concat (rune_segs s) = s"
proof (induction s rule: rune_segs.induct)
  case (1 s)
  then show ?case by (subst rune_segs.simps) (auto simp: Let_def)
qed

lemma rune_segs_nonempty: "x \<in> set (rune_segs s) \<Longrightarrow> x \<noteq> []"
proof (induction s rule: rune_segs.induct)
  case (1 s)
  from 1(2) have "s \<noteq> []" by auto
  with 1 DecodeRune_width[of s] show ?case
    by (subst (asm) (2) rune_segs.simps) (auto simp: Let_def)
qed

lemma length_rune_segs: "length (rune_segs s) = length (runes s)"
proof (induction s rule: rune_segs.induct)
  case (1 s)
  then show ?case by (subst rune_segs.simps, subst runes.simps) (auto simp: Let_def)
qed

lemma length_runes_le: "length (runes s) \<le> length s"
proof (induction s rule: runes.induct)
  case (1 s)
  show ?case
  proof (cases "s = []")
    case False
    with 1[OF False refl] DecodeRune_width[OF False] show ?thesis
      by (subst runes.simps) (auto simp: Let_def)
  qed simp
qed

lemma runes_eq_Nil [simp]: "runes s = [] \<longleftrightarrow> s = []"
  by (subst runes.simps) (simp add: Let_def)

subsection \<open>Round trip between runes and bytes\<close>

lemma byte_lt: "byte c < 256"
  by (cases c) (simp add: of_char_def horner_sum_simps)

lemma decode3_ok:
  "q \<le> 15 \<Longrightarrow> m < 64 \<Longrightarrow> l < 64 \<Longrightarrow> (q = 0 \<Longrightarrow> 32 \<le> m) \<Longrightarrow> (q = 13 \<Longrightarrow> m \<le> 31)
   \<Longrightarrow> decode_bytes (224 + q) ((128 + m) # (128 + l) # t) = (q * 4096 + m * 64 + l, 3)"
  by (cases "q = 0"; cases "q = 13")
    (simp_all add: decode_bytes_def decode3_def accept2_def cont_def)

lemma decode4_ok:
  "q \<le> 4 \<Longrightarrow> k < 64 \<Longrightarrow> m < 64 \<Longrightarrow> l < 64 \<Longrightarrow> (q = 0 \<Longrightarrow> 16 \<le> k) \<Longrightarrow> (q = 4 \<Longrightarrow> k \<le> 15)
   \<Longrightarrow> decode_bytes (240 + q) ((128 + k) # (128 + m) # (128 + l) # t)
     = (q * 262144 + k * 4096 + m * 64 + l, 4)"
  by (cases "q = 0"; cases "q = 4")
    (simp_all add: decode_bytes_def decode4_def accept2_def cont_def)

lemma base64_digits:
  "r = r div 64 * 64 + r mod 64"
  "(r::nat) div 64 = r div 4096 * 64 + r div 64 mod 64"
  "(r::nat) div 4096 = r div 262144 * 64 + r div 4096 mod 64"
  using div_mod_decomp[of r 64] div_mod_decomp[of "r div 64" 64] div_mult2_eq[of r 64 64]
    div_mod_decomp[of "r div 4096" 64] div_mult2_eq[of r 4096 64] by simp_all

lemma decode_encode_bytes:
  assumes "valid_rune r" "encode_bytes r = b # bs"
  shows "decode_bytes b (bs @ t) = (r, Suc (length bs))"
proof -
  have r: "r < 1114112" using assms(1) by (auto simp: valid_rune_def)
  consider "r < 128" | "128 \<le> r" "r < 2048" | "2048 \<le> r" "r < 65536" | "65536 \<le> r"
    by linarith
  then show ?thesis
  proof cases
    case 1
    with assms show ?thesis by (auto simp: encode_bytes_def decode_bytes_def)
  next
    case 2
    then have "2 \<le> r div 64" "r div 64 \<le> 31" by (auto simp: less_eq_div_iff_mult_less_eq)
    with 2 assms show ?thesis
      by (auto simp: encode_bytes_def decode_bytes_def decode2_def cont_def)
  next
    case 3
    have d: "r div 4096 * 4096 + r div 64 mod 64 * 64 + r mod 64 = r"
      using base64_digits[of r] by linarith
    have "b = 224 + r div 4096" "bs = [128 + r div 64 mod 64, 128 + r mod 64]"
      using 3 assms(2) by (simp_all add: encode_bytes_def)
    moreover have "r div 4096 \<le> 15" using 3 by simp
    moreover have "r div 4096 = 0 \<Longrightarrow> 32 \<le> r div 64 mod 64" using 3 base64_digits[of r] by linarith
    moreover have "r div 4096 = 13 \<Longrightarrow> r div 64 mod 64 \<le> 31"
      using 3 assms(1) base64_digits[of r] by (simp only: valid_rune_def) linarith
    ultimately show ?thesis
      using decode3_ok[of "r div 4096" "r div 64 mod 64" "r mod 64" t] d by simp
  next
    case 4
    have d: "r div 262144 * 262144 + r div 4096 mod 64 * 4096 + r div 64 mod 64 * 64 + r mod 64 = r"
      using base64_digits[of r] by linarith
    have "b = 240 + r div 262144"
      "bs = [128 + r div 4096 mod 64, 128 + r div 64 mod 64, 128 + r mod 64]"
      using 4 assms(2) by (simp_all add: encode_bytes_def)
    moreover have "r div 262144 \<le> 4" using r by simp
    moreover have "r div 262144 = 0 \<Longrightarrow> 16 \<le> r div 4096 mod 64" using 4 base64_digits[of r] by linarith
    moreover have "r div 262144 = 4 \<Longrightarrow> r div 4096 mod 64 \<le> 15" using r base64_digits[of r] by linarith
    ultimately show ?thesis
      using decode4_ok[of "r div 262144" "r div 4096 mod 64" "r div 64 mod 64" "r mod 64" t] d
      by simp
  qed
qed

lemma encode_bytes_lt: "valid_rune r \<Longrightarrow> b \<in> set (encode_bytes r) \<Longrightarrow> b < 256"
proof -
  assume "valid_rune r" "b \<in> set (encode_bytes r)"
  then have "r < 1114112" and "b \<in> set (encode_bytes r)" by (auto simp: valid_rune_def)
  then show ?thesis
    by (auto simp: encode_bytes_def split: if_splits)
qed

lemma encode_bytes_len: "encode_bytes r \<noteq> [] \<and> length (encode_bytes r) \<le> 4"
  by (auto simp: encode_bytes_def)

lemma byte_mkbyte_map:
  "(\<forall>b \<in> set bs. b < 256) \<Longrightarrow> map byte (map mkbyte bs) = bs"
  by (induction bs) auto

definition norm_rune :: "rune \<Rightarrow> rune" where
  "norm_rune r = (if valid_rune r then r else RuneError)"

lemma valid_norm_rune [simp]: "valid_rune (norm_rune r)"
  by (simp add: norm_rune_def valid_rune_def RuneError_def)

lemma norm_rune_valid [simp]: "valid_rune r \<Longrightarrow> norm_rune r = r"
  by (simp add: norm_rune_def)

lemma encode_rune_alt: "encode_rune r = map mkbyte (encode_bytes (norm_rune r))"
  by (simp add: encode_rune_def norm_rune_def)

lemma decode_bytes_take:
  "length bs \<le> 3 \<Longrightarrow> decode_bytes b (take 3 (bs @ t)) = decode_bytes b (bs @ take (3 - length bs) t)"
  by simp

lemma DecodeRune_encode:
  "DecodeRune (encode_rune r @ s) = (norm_rune r, length (encode_rune r))"
proof -
  obtain b bs where e: "encode_bytes (norm_rune r) = b # bs"
    using encode_bytes_len[of "norm_rune r"] by (cases "encode_bytes (norm_rune r)") auto
  have lt: "\<forall>x \<in> set (b # bs). x < 256"
    using encode_bytes_lt[OF valid_norm_rune, of _ r] e by auto
  have len: "length bs \<le> 3" using encode_bytes_len[of "norm_rune r"] e by auto
  have mb: "map byte (map mkbyte bs) = bs" using lt by (intro byte_mkbyte_map) auto
  have "map byte (take 3 (map mkbyte bs @ s)) = bs @ map byte (take (3 - length bs) s)"
    using len mb by (simp add: take_map)
  then show ?thesis
    using e lt decode_encode_bytes[OF valid_norm_rune e, of "map byte (take (3 - length bs) s)"]
    by (simp add: encode_rune_alt del: take_append)
qed

lemma encode_rune_nonempty [simp]: "encode_rune r \<noteq> []"
  using encode_bytes_len by (simp add: encode_rune_def)

lemma runes_encode: "runes (encode_rune r @ s) = norm_rune r # runes s"
  by (subst runes.simps) (simp add: DecodeRune_encode Let_def)

lemma rune_segs_encode: "rune_segs (encode_rune r @ s) = encode_rune r # rune_segs s"
  by (subst rune_segs.simps) (simp add: DecodeRune_encode Let_def)

lemma of_runes_simps [simp]:
  "of_runes [] = []"
  "of_runes (r # rs) = encode_rune r @ of_runes rs"
  "of_runes (rs @ ts) = of_runes rs @ of_runes ts"
  by (simp_all add: of_runes_def)

lemma runes_of_runes [simp]: "runes (of_runes rs) = map norm_rune rs"
  by (induction rs) (simp_all add: runes_encode)

lemma runes_of_runes_append: "runes (of_runes rs @ s) = map norm_rune rs @ runes s"
  by (induction rs) (simp_all add: runes_encode)

lemma valid_RuneError [simp]: "valid_rune RuneError"
  by (simp add: valid_rune_def RuneError_def)

lemma valid_decode2: "b \<le> 223 \<Longrightarrow> valid_rune (fst (decode2 b t))"
proof -
  assume b: "b \<le> 223"
  have "valid_rune ((b - 192) * 64 + (b1 - 128))" if "cont b1" for b1
    using that b unfolding cont_def valid_rune_def by linarith
  then show ?thesis by (auto simp: decode2_def split: list.split)
qed

lemma valid_rune3:
  fixes q m l :: nat
  assumes "q \<le> 15" "m < 64" "l < 64" "q = 13 \<longrightarrow> m \<le> 31"
  shows "valid_rune (q * 4096 + m * 64 + l)"
proof (cases "q \<le> 12")
  case True
  with assms show ?thesis unfolding valid_rune_def by linarith
next
  case False
  with assms show ?thesis unfolding valid_rune_def by (cases "q = 13") (linarith, linarith)
qed

lemma valid_decode3:
  assumes "224 \<le> b" "b \<le> 239"
  shows "valid_rune (fst (decode3 b t))"
proof -
  have "valid_rune ((b - 224) * 4096 + (b1 - 128) * 64 + (b2 - 128))"
    if "accept2 b b1" "cont b2" for b1 b2
    using that assms
    by (intro valid_rune3) (auto simp: accept2_def cont_def split: if_splits)
  then show ?thesis by (auto simp: decode3_def split: list.split)
qed

lemma valid_rune4:
  fixes q k m l :: nat
  assumes "q \<le> 4" "k < 64" "m < 64" "l < 64" "q = 0 \<longrightarrow> 16 \<le> k" "q = 4 \<longrightarrow> k \<le> 15"
  shows "valid_rune (q * 262144 + k * 4096 + m * 64 + l)"
  using assms unfolding valid_rune_def by linarith

lemma valid_decode4:
  assumes "240 \<le> b" "b \<le> 244"
  shows "valid_rune (fst (decode4 b t))"
proof -
  have "valid_rune ((b - 240) * 262144 + (b1 - 128) * 4096 + (b2 - 128) * 64 + (b3 - 128))"
    if "accept2 b b1" "cont b2" "cont b3" for b1 b2 b3
    using that assms
    by (intro valid_rune4) (auto simp: accept2_def cont_def split: if_splits)
  then show ?thesis by (auto simp: decode4_def split: list.split)
qed

lemma decode_bytes_valid: "valid_rune (fst (decode_bytes b t))"
  by (simp add: decode_bytes_def valid_decode2 valid_decode3 valid_decode4) (simp add: valid_rune_def)

lemma runes_valid: "r \<in> set (runes s) \<Longrightarrow> valid_rune r"
proof (induction s rule: runes.induct)
  case (1 s)
  from 1(2) have s: "s \<noteq> []" by auto
  have "valid_rune (fst (DecodeRune s))"
    using s by (cases s) (simp_all add: decode_bytes_valid)
  with 1 s show ?case by (subst (asm) (2) runes.simps) (auto simp: Let_def)
qed

lemma runes_of_runes_runes [simp]: "runes (of_runes (runes s)) = runes s"
  by (simp add: map_idI runes_valid)

lemma DecodeRune_take: "DecodeRune (take (snd (DecodeRune s)) s) = DecodeRune s"
proof (cases s)
  case (Cons c cs)
  have "decode_bytes b (map byte (take 3 (take (w - 1) cs))) = decode_bytes b (map byte (take 3 cs))"
    if "w = snd (decode_bytes b (map byte (take 3 cs)))" for b w
    using that
    by (cases cs; cases "tl cs"; cases "tl (tl cs)")
      (auto simp: decode_defs split: if_splits)
  with Cons show ?thesis
    using decode_width_pos[of "byte c" "map byte (take 3 cs)"] by (auto simp: take_Cons')
qed simp

lemma map_rune_of_segs: "map rune_of (rune_segs s) = runes s"
proof (induction s rule: rune_segs.induct)
  case (1 s)
  then show ?case
    by (subst rune_segs.simps, subst runes.simps) (auto simp: Let_def rune_of_def[of "take _ _"] DecodeRune_take)
qed

subsection \<open>Case folding\<close>

definition is_ascii :: "string \<Rightarrow> bool" where
  "is_ascii s \<longleftrightarrow> list_all (\<lambda>c. byte c < 128) s"

definition lower_byte :: "char \<Rightarrow> char" where
  "lower_byte c = (if 65 \<le> byte c \<and> byte c \<le> 90 then mkbyte (byte c + 32) else c)"

text \<open>\<open>unicode.ToLower\<close>, with its ASCII branch.\<close>

definition lower_rune :: "unicode_tables \<Rightarrow> rune \<Rightarrow> rune" where
  "lower_rune U r =
     (if r < 128 then (if 65 \<le> r \<and> r \<le> 90 then r + 32 else r) else ut_lower U r)"

definition ToLower :: "unicode_tables \<Rightarrow> string \<Rightarrow> string" where
  "ToLower U s =
     (if is_ascii s then map lower_byte s else of_runes (map (lower_rune U) (runes s)))"

definition IsLetter :: "unicode_tables \<Rightarrow> rune \<Rightarrow> bool" where
  "IsLetter U r =
     (if r < 128 then 65 \<le> r \<and> r \<le> 90 \<or> 97 \<le> r \<and> r \<le> 122 else ut_letter U r)"

definition IsDigit :: "unicode_tables \<Rightarrow> rune \<Rightarrow> bool" where
  "IsDigit U r = (if r < 128 then 48 \<le> r \<and> r \<le> 57 else ut_digit U r)"

text \<open>A table with no letters beyond ASCII, for evaluation on concrete inputs.\<close>

definition ascii_tables :: unicode_tables where
  "ascii_tables = \<lparr>ut_lower = (\<lambda>r. r), ut_letter = (\<lambda>_. False), ut_digit = (\<lambda>_. False)\<rparr>"

lemma lower_byte_idem [simp]: "lower_byte (lower_byte c) = lower_byte c"
  by (simp add: lower_byte_def)

lemma lower_byte_ascii: "byte c < 128 \<Longrightarrow> byte (lower_byte c) < 128"
  by (simp add: lower_byte_def)

lemma ToLower_ascii_idem: "is_ascii s \<Longrightarrow> ToLower U (ToLower U s) = ToLower U s"
  by (auto simp: ToLower_def is_ascii_def list_all_iff lower_byte_ascii comp_def)

lemma ToLower_Nil [simp]: "ToLower U [] = []"
  by (simp add: ToLower_def is_ascii_def)

subsection \<open>White space\<close>

definition space_runes :: "rune list" where
  "space_runes = [9, 10, 11, 12, 13, 32, 0x85, 0xA0, 0x1680] @ [0x2000..<0x200B]
     @ [0x2028, 0x2029, 0x202F, 0x205F, 0x3000]"

definition IsSpace :: "rune \<Rightarrow> bool" where
  "IsSpace r \<longleftrightarrow> r \<in> set space_runes"

definition space_encodings :: "string list" where
  "space_encodings = map encode_rune space_runes"

text \<open>
  \<open>TrimSpace\<close> removes leading and trailing white-space runes.  Decoding a
  string yields a space rune exactly when its UTF-8 encoding is a prefix, and
  \<open>DecodeLastRune\<close> does so exactly when the encoding is a suffix.
\<close>

function strip_front :: "string list \<Rightarrow> string \<Rightarrow> string" where
  "strip_front es s =
     (case find (\<lambda>e. e \<noteq> [] \<and> HasPrefix s e) es of
        None \<Rightarrow> s
      | Some e \<Rightarrow> strip_front es (drop (length e) s))"
  by pat_completeness auto
termination
proof (relation "measure (length \<circ> snd)")
  fix es :: "string list" and s e
  assume "find (\<lambda>e. e \<noteq> [] \<and> HasPrefix s e) es = Some e"
  then have "e \<noteq> []" "prefix e s" by (auto simp: find_Some_iff HasPrefix_iff)
  then show "((es, drop (length e) s), (es, s)) \<in> measure (length \<circ> snd)"
    by (cases s) auto
qed simp

declare strip_front.simps [simp del]

definition TrimLeftSpace :: "string \<Rightarrow> string" where
  "TrimLeftSpace s = strip_front space_encodings s"

definition TrimRightSpace :: "string \<Rightarrow> string" where
  "TrimRightSpace s = rev (strip_front (map rev space_encodings) (rev s))"

definition TrimSpace :: "string \<Rightarrow> string" where
  "TrimSpace s = TrimRightSpace (TrimLeftSpace s)"

lemma strip_front_suffix: "suffix (strip_front es s) s"
proof (induction es s rule: strip_front.induct)
  case (1 es s)
  then show ?case
    by (subst strip_front.simps) (auto split: option.splits intro: suffix_order.trans suffix_drop)
qed

lemma strip_front_done: "e \<in> set es \<Longrightarrow> e \<noteq> [] \<Longrightarrow> \<not> prefix e (strip_front es s)"
proof (induction es s rule: strip_front.induct)
  case (1 es s)
  then show ?case
    by (subst strip_front.simps) (auto split: option.splits simp: find_None_iff HasPrefix_iff)
qed

lemma strip_front_id: "(\<And>e. e \<in> set es \<Longrightarrow> e \<noteq> [] \<Longrightarrow> \<not> prefix e s) \<Longrightarrow> strip_front es s = s"
  by (subst strip_front.simps) (auto split: option.splits simp: find_Some_iff HasPrefix_iff)

lemma TrimSpace_sublist: "sublist (TrimSpace s) s"
proof -
  have "prefix (TrimSpace s) (TrimLeftSpace s)"
    using strip_front_suffix[of "map rev space_encodings" "rev (TrimLeftSpace s)"]
    by (simp add: TrimSpace_def TrimRightSpace_def suffix_to_prefix)
  moreover have "suffix (TrimLeftSpace s) s"
    by (simp add: TrimLeftSpace_def strip_front_suffix)
  ultimately show ?thesis
    by (meson prefix_imp_sublist sublist_order.order_trans suffix_imp_sublist)
qed

lemma TrimSpace_length: "length (TrimSpace s) \<le> length s"
  by (rule sublist_length_le[OF TrimSpace_sublist])

lemma TrimSpace_Nil [simp]: "TrimSpace [] = []"
  using TrimSpace_length[of "[]"] by simp

lemma TrimSpace_no_leading: "e \<in> set space_encodings \<Longrightarrow> \<not> prefix e (TrimSpace s)"
proof
  assume e: "e \<in> set space_encodings" and p: "prefix e (TrimSpace s)"
  have "prefix (TrimSpace s) (TrimLeftSpace s)"
    using strip_front_suffix[of "map rev space_encodings" "rev (TrimLeftSpace s)"]
    by (simp add: TrimSpace_def TrimRightSpace_def suffix_to_prefix)
  with p have "prefix e (TrimLeftSpace s)" by (rule prefix_order.trans)
  moreover have "e \<noteq> []" using e by (auto simp: space_encodings_def)
  ultimately show False using e strip_front_done[of e space_encodings s] by (simp add: TrimLeftSpace_def)
qed

lemma TrimSpace_no_trailing: "e \<in> set space_encodings \<Longrightarrow> \<not> suffix e (TrimSpace s)"
proof -
  assume e: "e \<in> set space_encodings"
  then have "rev e \<noteq> []" "rev e \<in> set (map rev space_encodings)" by (auto simp: space_encodings_def)
  from strip_front_done[OF this(2) this(1), of "rev (TrimLeftSpace s)"]
  show ?thesis by (simp add: TrimSpace_def TrimRightSpace_def suffix_to_prefix)
qed

lemma TrimSpace_idem [simp]: "TrimSpace (TrimSpace s) = TrimSpace s"
proof -
  have "TrimLeftSpace (TrimSpace s) = TrimSpace s"
    using TrimSpace_no_leading[of _ s] by (simp add: TrimLeftSpace_def strip_front_id)
  moreover have "TrimRightSpace (TrimSpace s) = TrimSpace s"
  proof -
    have "strip_front (map rev space_encodings) (rev (TrimSpace s)) = rev (TrimSpace s)"
      using TrimSpace_no_trailing[of _ s] by (intro strip_front_id) (auto simp: suffix_to_prefix)
    then show ?thesis by (simp add: TrimRightSpace_def)
  qed
  ultimately show ?thesis by (subst TrimSpace_def) simp
qed

subsection \<open>Fields\<close>

text \<open>
  \<open>strings.FieldsFunc\<close>: the maximal runs of rune segments whose rune
  does not satisfy the separator predicate.
\<close>

fun fields_segs :: "(rune \<Rightarrow> bool) \<Rightarrow> string list \<Rightarrow> string \<Rightarrow> string list" where
  "fields_segs P [] acc = (if acc = [] then [] else [acc])"
| "fields_segs P (x # xs) acc =
     (if P (rune_of x)
      then (if acc = [] then fields_segs P xs [] else acc # fields_segs P xs [])
      else fields_segs P xs (acc @ x))"

definition FieldsFunc :: "(rune \<Rightarrow> bool) \<Rightarrow> string \<Rightarrow> string list" where
  "FieldsFunc P s = fields_segs P (rune_segs s) []"

definition Fields :: "string \<Rightarrow> string list" where
  "Fields s = FieldsFunc IsSpace s"

lemma fields_segs_nonempty: "w \<in> set (fields_segs P xs acc) \<Longrightarrow> w \<noteq> []"
  by (induction P xs acc rule: fields_segs.induct) (auto split: if_splits)

lemma FieldsFunc_nonempty: "w \<in> set (FieldsFunc P s) \<Longrightarrow> w \<noteq> []"
  by (simp add: FieldsFunc_def fields_segs_nonempty)

lemma fields_segs_concat_length:
  "length (concat (fields_segs P xs acc)) \<le> length acc + length (concat xs)"
  by (induction P xs acc rule: fields_segs.induct) auto

lemma FieldsFunc_Nil [simp]: "FieldsFunc P [] = []"
  by (simp add: FieldsFunc_def)

subsection \<open>Decimal numerals\<close>

text \<open>\<open>strconv.Itoa\<close> and the decimal digits of a string.\<close>

fun nat_digits :: "nat \<Rightarrow> string" where
  "nat_digits n = (if n < 10 then [mkbyte (48 + n)]
     else nat_digits (n div 10) @ [mkbyte (48 + n mod 10)])"

declare nat_digits.simps [simp del]

definition Itoa :: "int \<Rightarrow> string" where
  "Itoa i = (if i < 0 then CHR ''-'' # nat_digits (nat (- i)) else nat_digits (nat i))"

definition is_digit_byte :: "char \<Rightarrow> bool" where
  "is_digit_byte c \<longleftrightarrow> 48 \<le> byte c \<and> byte c \<le> 57"

fun digits_val :: "nat \<Rightarrow> string \<Rightarrow> nat" where
  "digits_val acc [] = acc"
| "digits_val acc (c # cs) = digits_val (10 * acc + (byte c - 48)) cs"

lemma digits_val_append: "digits_val acc (s @ t) = digits_val (digits_val acc s) t"
  by (induction acc s rule: digits_val.induct) auto

lemma byte_digit: "n < 10 \<Longrightarrow> byte (mkbyte (48 + n)) = 48 + n"
  by simp

lemma digits_val_nat_digits: "digits_val 0 (nat_digits n) = n"
proof (induction n rule: nat_digits.induct)
  case (1 n)
  then show ?case
    by (subst nat_digits.simps) (auto simp: digits_val_append byte_digit simp del: of_char_of)
qed

lemma nat_digits_all: "list_all is_digit_byte (nat_digits n)"
proof (induction n rule: nat_digits.induct)
  case (1 n)
  then show ?case
    by (subst nat_digits.simps) (auto simp: is_digit_byte_def[of "char_of _"] byte_digit simp del: of_char_of)
qed

lemma nat_digits_nonempty [simp]: "nat_digits n \<noteq> []"
  by (subst nat_digits.simps) simp

lemma nat_digits_inj: "nat_digits m = nat_digits n \<longleftrightarrow> m = n"
  by (metis digits_val_nat_digits)

end
