(* ===== verification/Go_Errors.thy ===== *)
theory Go_Errors
  imports Go_Runes
begin

text \<open>
  The error values of the engine.  One constructor per sentinel
  (\<open>websearch/errors.go\<close>, \<open>fetch/retry.go\<close>,
  \<open>search/direct.go\<close>, \<open>search/marginalia.go\<close> and the two of
  package \<open>context\<close>), one per error type, and the wrappers
  \<open>fmt.Errorf("...: %w")\<close> and \<open>errors.Join\<close>.
  \<open>errors.Is\<close> and \<open>errors.As\<close> walk the unwrap chain.  A fallible
  Go function returns a sum: \<open>Inl\<close> its error, \<open>Inr\<close> its result.
  \<open>GoPanic\<close> stands for a run-time panic that leaves the function.
\<close>

datatype go_error =
    ErrRateLimited (Engine: string) (RetryAfter: duration)
  | ErrCredentialInvalid
  | ErrTransient
  | Canceled
  | DeadlineExceeded
  | errPerSourceTimeout
  | ErrMarginaliaQuotaExhausted
  | ErrPermanentlyFailed
  | HttpStatusError int
  | NetErr string bool
  | ErrNew string
  | ErrWrap string go_error
  | ErrJoin "go_error list"
  | GoPanic string

type_synonym 'a result = "go_error + 'a"

text \<open>\<open>errors.Is(err, target)\<close> for a sentinel target.\<close>

fun errors_Is :: "go_error \<Rightarrow> go_error \<Rightarrow> bool" where
  "errors_Is (ErrWrap m e) t = (ErrWrap m e = t \<or> errors_Is e t)"
| "errors_Is (ErrJoin es) t = (ErrJoin es = t \<or> list_ex (\<lambda>e. errors_Is e t) es)"
| "errors_Is e t = (e = t)"

text \<open>\<open>errors.As(err, &rl)\<close> with \<open>rl *ErrRateLimited\<close>: the first
  match of a depth-first walk.\<close>

fun first_some :: "('a \<Rightarrow> 'b option) \<Rightarrow> 'a list \<Rightarrow> 'b option" where
  "first_some f [] = None"
| "first_some f (x # xs) = (case f x of Some y \<Rightarrow> Some y | None \<Rightarrow> first_some f xs)"

lemma first_some_cong [fundef_cong]:
  "xs = ys \<Longrightarrow> (\<And>x. x \<in> set ys \<Longrightarrow> f x = g x) \<Longrightarrow> first_some f xs = first_some g ys"
  by (induction ys arbitrary: xs) (auto split: option.splits)

lemma first_some_None: "first_some f xs = None \<longleftrightarrow> (\<forall>x \<in> set xs. f x = None)"
  by (induction xs) (auto split: option.splits)

fun As_RateLimited :: "go_error \<Rightarrow> (string \<times> duration) option" where
  "As_RateLimited (ErrRateLimited e d) = Some (e, d)"
| "As_RateLimited (ErrWrap m e) = As_RateLimited e"
| "As_RateLimited (ErrJoin es) = first_some As_RateLimited es"
| "As_RateLimited _ = None"

text \<open>\<open>NetErr m t\<close> is an error of package \<open>net\<close> or
  \<open>net/url\<close>; \<open>t\<close> says whether the retry loop takes it as
  transient.  \<open>context.DeadlineExceeded\<close> implements \<open>net.Error\<close>
  with \<open>Timeout() = true\<close>.\<close>

fun As_Net :: "go_error \<Rightarrow> bool option" where
  "As_Net (NetErr m t) = Some t"
| "As_Net DeadlineExceeded = Some True"
| "As_Net (ErrWrap m e) = As_Net e"
| "As_Net (ErrJoin es) = first_some As_Net es"
| "As_Net _ = None"

text \<open>\<open>errors.As(err, &se)\<close> with \<open>se *HttpStatusError\<close>.\<close>

fun As_HttpStatus :: "go_error \<Rightarrow> int option" where
  "As_HttpStatus (HttpStatusError c) = Some c"
| "As_HttpStatus (ErrWrap m e) = As_HttpStatus e"
| "As_HttpStatus (ErrJoin es) = first_some As_HttpStatus es"
| "As_HttpStatus _ = None"

lemma errors_Is_refl [goerr]: "errors_Is e e"
  by (cases e) auto

lemma errors_Is_wrap [goerr]: "errors_Is e t \<Longrightarrow> errors_Is (ErrWrap m e) t"
  by simp

lemma errors_Is_join_mem: "e \<in> set es \<Longrightarrow> errors_Is e t \<Longrightarrow> errors_Is (ErrJoin es) t"
  by (auto simp: list_ex_iff)

lemma As_RateLimited_join:
  "As_RateLimited (ErrJoin es) = None \<longleftrightarrow> (\<forall>e \<in> set es. As_RateLimited e = None)"
  by (simp add: first_some_None)

text \<open>Go's success test on a sum.\<close>

definition is_ok :: "'a result \<Rightarrow> bool" where
  "is_ok r \<longleftrightarrow> (\<exists>x. r = Inr x)"

lemma is_ok_code [simp, code]: "is_ok (Inr x) = True" "is_ok (Inl e) = False"
  by (simp_all add: is_ok_def)

fun map_err :: "(go_error \<Rightarrow> go_error) \<Rightarrow> 'a result \<Rightarrow> 'a result" where
  "map_err f (Inl e) = Inl (f e)"
| "map_err f (Inr x) = Inr x"

end
