(* ===== verification/Ws_Results.thy ===== *)
theory Ws_Results
  imports Go_Errors
begin

text \<open>
  Result lists: fusion, score filter, per-domain cap, near-duplicate removal and
  markdown rendering (\<open>websearch/fusion.go\<close>, \<open>filter.go\<close>,
  \<open>dedup.go\<close>, \<open>format.go\<close>, with the delegating wrappers of
  package \<open>search\<close>, and \<open>imagesearch/fusion.go\<close>).  Scores are
  real numbers: the rounding of \<open>float64\<close> is not modelled.
\<close>

record Result =
  Title :: string
  URL :: string
  Content :: string
  Score :: real
  Metadata :: "(string, string) gomap"

subsection \<open>Weighted reciprocal rank fusion\<close>

definition rrfK :: nat where
  "rrfK = 60"

text \<open>One loop iteration: \<open>byURL\<close> holds the first result and the accumulated
  score of a URL, \<open>order\<close> the URLs in the order first seen.\<close>

fun rrf_step ::
  "('r \<Rightarrow> string) \<Rightarrow> real \<times> 'r \<Rightarrow> (string, 'r \<times> real) gomap \<times> string list
   \<Rightarrow> (string, 'r \<times> real) gomap \<times> string list" where
  "rrf_step url (rrf, r) (byURL, order) =
     (if url r = '''' then (byURL, order)
      else case map_of byURL (url r) of
        Some (r0, s) \<Rightarrow> (AList.update (url r) (r0, s + rrf) byURL, order)
      | None \<Rightarrow> (AList.update (url r) (r, rrf) byURL, order @ [url r]))"

text \<open>The ranked entries of one set: the contribution of rank \<open>k\<close> is
  \<open>w / (60 + k)\<close>.\<close>

fun ranked :: "real \<Rightarrow> nat \<Rightarrow> 'r list \<Rightarrow> (real \<times> 'r) list" where
  "ranked w k [] = []"
| "ranked w k (r # rs) = (w / real (rrfK + k), r) # ranked w (Suc k) rs"

fun weighted_sets :: "nat \<Rightarrow> 'r list list \<Rightarrow> real list \<Rightarrow> (real \<times> 'r) list" where
  "weighted_sets i [] ws = []"
| "weighted_sets i (rs # sets) ws =
     ranked (if i < length ws then ws ! i else 1) 0 rs @ weighted_sets (Suc i) sets ws"

text \<open>\<open>sort.SliceStable\<close> with a descending comparison on a key.\<close>

definition sort_desc :: "('a \<Rightarrow> real) \<Rightarrow> 'a list \<Rightarrow> 'a list" where
  "sort_desc key xs = sort_key (\<lambda>x. - key x) xs"

definition FuseWRR :: "Result list list \<Rightarrow> real list \<Rightarrow> Result list" where
  "FuseWRR resultSets weights =
     (let (byURL, order) = fold (rrf_step URL) (weighted_sets 0 resultSets weights) ([], []);
          merged = map (\<lambda>u. case map_of byURL u of Some (r, s) \<Rightarrow> r\<lparr>Score := s\<rparr>) order
      in sort_desc Score merged)"

text \<open>The specification: the first result with a URL and the sum of its contributions.\<close>

definition first_with :: "('r \<Rightarrow> string) \<Rightarrow> string \<Rightarrow> (real \<times> 'r) list \<Rightarrow> 'r option" where
  "first_with url u occs = map_option snd (find (\<lambda>(_, r). url r = u) occs)"

definition wrr_score :: "('r \<Rightarrow> string) \<Rightarrow> string \<Rightarrow> (real \<times> 'r) list \<Rightarrow> real" where
  "wrr_score url u occs = sum_list (map fst (filter (\<lambda>(_, r). url r = u) occs))"

fun first_seen :: "string list \<Rightarrow> string list" where
  "first_seen [] = []"
| "first_seen (x # xs) = x # filter (\<lambda>y. y \<noteq> x) (first_seen xs)"

definition fuse_urls :: "('r \<Rightarrow> string) \<Rightarrow> (real \<times> 'r) list \<Rightarrow> string list" where
  "fuse_urls url occs = first_seen (filter (\<lambda>u. u \<noteq> '''') (map (url \<circ> snd) occs))"

lemma set_first_seen [simp]: "set (first_seen xs) = set xs"
  by (induction xs) auto

lemma distinct_first_seen [simp]: "distinct (first_seen xs)"
  by (induction xs) auto

lemma first_seen_snoc:
  "first_seen (xs @ [x]) = (if x \<in> set xs then first_seen xs else first_seen xs @ [x])"
  by (induction xs) auto

lemma find_snoc: "find P (xs @ [x]) = (case find P xs of Some y \<Rightarrow> Some y | None \<Rightarrow> if P x then Some x else None)"
  by (induction xs) auto

lemma first_with_None: "first_with url u occs = None \<longleftrightarrow> u \<notin> (url \<circ> snd) ` set occs"
  by (auto simp: first_with_def find_None_iff image_iff) blast

lemma wrr_score_unseen: "u \<notin> (url \<circ> snd) ` set occs \<Longrightarrow> wrr_score url u occs = 0"
proof -
  assume "u \<notin> (url \<circ> snd) ` set occs"
  then have "filter (\<lambda>(_, r). url r = u) occs = []" by (induction occs) auto
  then show ?thesis by (simp add: wrr_score_def)
qed

lemma wrr_score_snoc:
  "wrr_score url u (occs @ [(x, r)]) = wrr_score url u occs + (if url r = u then x else 0)"
  by (simp add: wrr_score_def)

lemma rrf_fold_spec:
  assumes "fold (rrf_step url) occs ([], []) = (m, ord)"
  shows "ord = fuse_urls url occs \<and>
    (\<forall>u. map_of m u = (if u = '''' then None
        else map_option (\<lambda>r. (r, wrr_score url u occs)) (first_with url u occs)))"
  using assms
proof (induction occs arbitrary: m ord rule: rev_induct)
  case Nil
  then show ?case by (simp add: fuse_urls_def first_with_def)
next
  case (snoc o1 occs)
  obtain x r where o1: "o1 = (x, r)" by (cases o1)
  obtain m0 ord0 where f: "fold (rrf_step url) occs ([], []) = (m0, ord0)"
    by (cases "fold (rrf_step url) occs ([], [])")
  note IH = snoc.IH[OF f]
  have fw: "first_with url u (occs @ [(x, r)]) =
    (case first_with url u occs of Some y \<Rightarrow> Some y | None \<Rightarrow> if url r = u then Some r else None)" for u
    by (simp add: first_with_def find_snoc split: option.split)
  have fu: "fuse_urls url (occs @ [(x, r)]) =
    (if url r = '''' \<or> url r \<in> (url \<circ> snd) ` set occs then fuse_urls url occs else fuse_urls url occs @ [url r])"
    by (auto simp: fuse_urls_def first_seen_snoc)
  show ?case
  proof (cases "url r = ''''")
    case True
    then show ?thesis using snoc.prems IH f o1 by (auto simp: fu fw wrr_score_snoc split: option.split)
  next
    case ne: False
    show ?thesis
    proof (cases "first_with url (url r) occs")
      case None
      then have "url r \<notin> (url \<circ> snd) ` set occs" by (simp add: first_with_None)
      then show ?thesis using snoc.prems IH f o1 ne None wrr_score_unseen[of "url r" url occs]
        by (auto simp: fu fw wrr_score_snoc update_conv' split: option.split)
    next
      case (Some r0)
      then have "url r \<in> (url \<circ> snd) ` set occs" using first_with_None[of url "url r" occs] by auto
      then show ?thesis using snoc.prems IH f o1 ne Some
        by (auto simp: fu fw wrr_score_snoc update_conv' split: option.split)
    qed
  qed
qed

lemma sort_desc_sorted: "sorted_wrt (\<lambda>a b. key a \<ge> key b) (sort_desc key xs)"
  using sorted_sort_key[of "\<lambda>x. - key x" xs]
  by (simp add: sort_desc_def sorted_map)

lemma sort_desc_mset [simp]: "mset (sort_desc key xs) = mset xs"
  by (simp add: sort_desc_def)

lemma sort_desc_set [simp]: "set (sort_desc key xs) = set xs"
  by (simp add: sort_desc_def)

lemma sort_desc_length [simp]: "length (sort_desc key xs) = length xs"
  by (simp add: sort_desc_def)

lemma sort_desc_stable: "filter (\<lambda>x. key x = k) (sort_desc key xs) = filter (\<lambda>x. key x = k) xs"
  using sort_key_stable[of "\<lambda>x. - key x" "- k" xs] by (simp add: sort_desc_def)

lemma sort_desc_distinct_map: "distinct (map f (sort_desc key xs)) = distinct (map f xs)"
proof -
  have "mset (map f (sort_desc key xs)) = mset (map f xs)" by simp
  then show ?thesis by (rule mset_eq_imp_distinct_iff)
qed

lemma sort_desc_set_map: "set (map f (sort_desc key xs)) = set (map f xs)"
  by simp

lemma ranked_nth:
  "k < length rs \<Longrightarrow> ranked w j rs ! k = (w / real (rrfK + (j + k)), rs ! k)"
proof (induction rs arbitrary: j k)
  case (Cons r rs)
  then show ?case by (cases k) auto
qed simp

lemma ranked_length [simp]: "length (ranked w j rs) = length rs"
  by (induction rs arbitrary: j) auto

lemma ranked_snd [simp]: "map snd (ranked w j rs) = rs"
  by (induction rs arbitrary: j) auto

lemma weighted_sets_snd [simp]: "map snd (weighted_sets i sets ws) = concat sets"
  by (induction sets arbitrary: i) auto

text \<open>The merged list before sorting, by its specification.\<close>

lemma FuseWRR_alt:
  "FuseWRR sets ws = sort_desc Score
     (map (\<lambda>u. (the (first_with URL u (weighted_sets 0 sets ws)))\<lparr>Score := wrr_score URL u (weighted_sets 0 sets ws)\<rparr>)
       (fuse_urls URL (weighted_sets 0 sets ws)))"
proof -
  let ?o = "weighted_sets 0 sets ws"
  obtain m ord where f: "fold (rrf_step URL) ?o ([], []) = (m, ord)"
    by (cases "fold (rrf_step URL) ?o ([], [])")
  note spec = rrf_fold_spec[OF f]
  have "(case map_of m u of Some (r, s) \<Rightarrow> r\<lparr>Score := s\<rparr>) =
      (the (first_with URL u ?o))\<lparr>Score := wrr_score URL u ?o\<rparr>" if "u \<in> set (fuse_urls URL ?o)" for u
  proof -
    from that have "u \<noteq> ''''" "u \<in> (URL \<circ> snd) ` set ?o" by (auto simp: fuse_urls_def)
    moreover from this obtain r where "first_with URL u ?o = Some r"
      using first_with_None[of URL u ?o] by (cases "first_with URL u ?o") auto
    ultimately show ?thesis using spec by simp
  qed
  with spec f show ?thesis by (simp add: FuseWRR_def cong: map_cong)
qed

lemma first_with_url: "first_with url u occs = Some r \<Longrightarrow> url r = u"
  by (auto simp: first_with_def find_Some_iff)

lemma fused_urls:
  "map URL (map (\<lambda>u. (the (first_with URL u occs))\<lparr>Score := s u\<rparr>) (fuse_urls URL occs)) = fuse_urls URL occs"
proof (simp, rule map_idI)
  fix u
  assume "u \<in> set (fuse_urls URL occs)"
  then have "u \<in> (URL \<circ> snd) ` set occs" by (auto simp: fuse_urls_def)
  then obtain r where "first_with URL u occs = Some r"
    using first_with_None[of URL u occs] by (cases "first_with URL u occs") auto
  then show "(URL \<circ> (\<lambda>u. the (first_with URL u occs)\<lparr>Score := s u\<rparr>)) u = u" by (simp add: first_with_url)
qed

text \<open>C27: Fusion returns each non-empty URL of the input sets exactly once, no other, and
  sorts by score from high to low.\<close>

theorem FuseWRR_urls:
  "distinct (map URL (FuseWRR sets ws))
   \<and> set (map URL (FuseWRR sets ws)) = URL ` set (concat sets) - {''''}
   \<and> sorted_wrt (\<lambda>a b. Score a \<ge> Score b) (FuseWRR sets ws)"
proof -
  let ?o = "weighted_sets 0 sets ws"
  let ?m = "map (\<lambda>u. (the (first_with URL u ?o))\<lparr>Score := wrr_score URL u ?o\<rparr>) (fuse_urls URL ?o)"
  have "map (URL \<circ> snd) ?o = map URL (concat sets)"
    by (metis map_map weighted_sets_snd)
  then have "set (fuse_urls URL ?o) = set (filter (\<lambda>u. u \<noteq> '''') (map URL (concat sets)))"
    by (simp only: fuse_urls_def set_first_seen)
  then have "set (fuse_urls URL ?o) = URL ` set (concat sets) - {''''}"
    by auto
  moreover have "distinct (fuse_urls URL ?o)" by (simp add: fuse_urls_def)
  ultimately show ?thesis
    using fused_urls[where occs = ?o and s = "\<lambda>u. wrr_score URL u ?o"] sort_desc_sorted[of Score ?m]
    by (simp add: FuseWRR_alt sort_desc_distinct_map sort_desc_set_map del: set_map map_map)
qed

text \<open>A fused result is the first result with its URL in set order, with its score
  replaced by the sum, over all occurrences of the URL, of the set's weight over
  \<open>60 + rank\<close>.\<close>

theorem FuseWRR_scores:
  assumes "r \<in> set (FuseWRR sets ws)"
  shows "\<exists>r0. first_with URL (URL r) (weighted_sets 0 sets ws) = Some r0
    \<and> r = r0\<lparr>Score := wrr_score URL (URL r) (weighted_sets 0 sets ws)\<rparr>"
proof -
  let ?o = "weighted_sets 0 sets ws"
  from assms obtain u where u: "u \<in> set (fuse_urls URL ?o)"
    and r: "r = (the (first_with URL u ?o))\<lparr>Score := wrr_score URL u ?o\<rparr>"
    by (auto simp: FuseWRR_alt)
  from u have "u \<in> (URL \<circ> snd) ` set ?o" by (auto simp: fuse_urls_def)
  then obtain r0 where "first_with URL u ?o = Some r0"
    using first_with_None[of URL u ?o] by (cases "first_with URL u ?o") auto
  with r show ?thesis by (simp add: first_with_url)
qed

theorem FuseWRR_scores_witness:
  "\<exists>r0. first_with URL (URL \<lparr>Title = ''t'', URL = ''u'', Content = '''', Score = 1/20, Metadata = []\<rparr>)
      (weighted_sets 0 [[\<lparr>Title = ''t'', URL = ''u'', Content = '''', Score = 0, Metadata = []\<rparr>]] [3]) = Some r0"
proof -
  let ?r = "\<lparr>Title = ''t'', URL = ''u'', Content = '''', Score = 0, Metadata = []\<rparr>"
  have "?r\<lparr>Score := 1/20\<rparr> \<in> set (FuseWRR [[?r]] [3])"
    by (simp add: FuseWRR_def sort_desc_def rrfK_def)
  from FuseWRR_scores[OF this] show ?thesis by auto
qed

subsection \<open>Score filter\<close>

definition FilterByScore :: "Result list \<Rightarrow> real \<Rightarrow> int \<Rightarrow> Result list" where
  "FilterByScore results minScore minKeep =
     (let out = filter (\<lambda>r. Score r \<ge> minScore) results
      in if int (length out) < minKeep \<and> int (length results) \<ge> minKeep then take (nat minKeep) results
         else if int (length out) < minKeep then results
         else out)"

lemma sorted_desc_prefix:
  assumes "sorted_wrt (\<lambda>a b. Score a \<ge> Score b) results"
    "length (filter (\<lambda>r. Score r \<ge> m) results) \<le> n" "r \<in> set results" "Score r \<ge> m"
  shows "r \<in> set (take n results)"
  using assms
proof (induction results arbitrary: n)
  case (Cons x xs)
  show ?case
  proof (cases n)
    case 0
    with Cons.prems(2) have "set (filter (\<lambda>r. Score r \<ge> m) (x # xs)) = {}" by simp
    moreover have "r \<in> set (filter (\<lambda>r. Score r \<ge> m) (x # xs))" using Cons.prems(3,4) by auto
    ultimately show ?thesis by (simp only: empty_iff)
  next
    case (Suc k)
    show ?thesis
    proof (cases "r = x")
      case False
      with Cons.prems have r: "r \<in> set xs" "Score x \<ge> Score r" by auto
      with Cons.prems Suc have "length (filter (\<lambda>r. Score r \<ge> m) xs) \<le> k" by auto
      with Cons r Suc show ?thesis by auto
    qed (use Suc in simp)
  qed
qed simp

text \<open>The score filter keeps at least \<open>minKeep\<close> results (all of them when there
  are fewer), only results of the input in their order, and, when the input is
  sorted by score, drops no result that reaches the minimum.\<close>

theorem FilterByScore_keeps:
  assumes "sorted_wrt (\<lambda>a b. Score a \<ge> Score b) results"
  shows "min minKeep (int (length results)) \<le> int (length (FilterByScore results m minKeep))
    \<and> subseq (FilterByScore results m minKeep) results
    \<and> {r \<in> set results. Score r \<ge> m} \<subseteq> set (FilterByScore results m minKeep)"
proof (intro conjI)
  let ?out = "filter (\<lambda>r. Score r \<ge> m) results"
  show "min minKeep (int (length results)) \<le> int (length (FilterByScore results m minKeep))"
    by (auto simp: FilterByScore_def Let_def)
  show "subseq (FilterByScore results m minKeep) results"
    by (auto simp: FilterByScore_def Let_def subseq_filter_left take_is_prefix prefix_imp_subseq)
  show "{r \<in> set results. Score r \<ge> m} \<subseteq> set (FilterByScore results m minKeep)"
    using sorted_desc_prefix[OF assms, of m "nat minKeep"]
    by (auto simp: FilterByScore_def Let_def)
qed

abbreviation mk_result :: "string \<Rightarrow> string \<Rightarrow> real \<Rightarrow> Result" where
  "mk_result u c s \<equiv> \<lparr>Title = '''', URL = u, Content = c, Score = s, Metadata = []\<rparr>"

theorem FilterByScore_keeps_witness:
  "{r \<in> set [mk_result ''a'' '''' 2, mk_result ''b'' '''' 1]. Score r \<ge> 1}
     \<subseteq> set (FilterByScore [mk_result ''a'' '''' 2, mk_result ''b'' '''' 1] 1 3)"
  using FilterByScore_keeps[of "[mk_result ''a'' '''' 2, mk_result ''b'' '''' 1]" 3 1] by simp

text \<open>On an unsorted input the filter can drop a result that reaches the minimum
  score and keep one that does not.\<close>

theorem FilterByScore_unsorted:
  "FilterByScore [mk_result ''low'' '''' 0, mk_result ''low2'' '''' 0, mk_result ''high'' '''' 1] 1 2
     = [mk_result ''low'' '''' 0, mk_result ''low2'' '''' 0]"
  by (simp add: FilterByScore_def numeral_2_eq_2)

subsection \<open>Per-domain cap\<close>

text \<open>\<open>hostname\<close> is \<open>url.Parse\<close> followed by \<open>Hostname()\<close>,
  \<open>None\<close> when the URL does not parse; \<open>counts\<close> is the Go map with
  its zero default.\<close>

definition count_of :: "(string, int) gomap \<Rightarrow> string \<Rightarrow> int" where
  "count_of counts d = (case map_of counts d of Some n \<Rightarrow> n | None \<Rightarrow> 0)"

definition count_add :: "string \<Rightarrow> (string, int) gomap \<Rightarrow> (string, int) gomap" where
  "count_add d counts = AList.update d (count_of counts d + 1) counts"

lemma count_of_simps [simp]:
  "count_of [] x = 0"
  "count_of (count_add d counts) x = (if x = d then count_of counts d + 1 else count_of counts x)"
  by (simp_all add: count_of_def count_add_def update_conv')

fun dedup_domain ::
  "(string \<Rightarrow> string option) \<Rightarrow> int \<Rightarrow> real \<Rightarrow> (string, int) gomap \<Rightarrow> Result list \<Rightarrow> Result list" where
  "dedup_domain hostname maxPer threshold counts [] = []"
| "dedup_domain hostname maxPer threshold counts (r # rs) =
     (case hostname (URL r) of
        None \<Rightarrow> dedup_domain hostname maxPer threshold counts rs
      | Some domain \<Rightarrow>
          if threshold > 0 \<and> Score r \<ge> threshold
          then r # dedup_domain hostname maxPer threshold (count_add domain counts) rs
          else if count_of counts domain < maxPer
          then r # dedup_domain hostname maxPer threshold (count_add domain counts) rs
          else dedup_domain hostname maxPer threshold counts rs)"

definition DedupByDomain ::
  "(string \<Rightarrow> string option) \<Rightarrow> Result list \<Rightarrow> int \<Rightarrow> real list \<Rightarrow> Result list" where
  "DedupByDomain hostname results maxPer highScore =
     dedup_domain hostname maxPer (case highScore of [] \<Rightarrow> 0 | t # _ \<Rightarrow> t) [] results"

definition of_domain :: "(string \<Rightarrow> string option) \<Rightarrow> string \<Rightarrow> Result \<Rightarrow> bool" where
  "of_domain hostname d r \<longleftrightarrow> hostname (URL r) = Some d"

definition bypasses :: "real \<Rightarrow> Result \<Rightarrow> bool" where
  "bypasses threshold r \<longleftrightarrow> threshold > 0 \<and> Score r \<ge> threshold"

lemma dedup_domain_cap:
  "int (length (filter (\<lambda>r. of_domain hn d r \<and> \<not> bypasses t r) (dedup_domain hn m t counts rs)))
     \<le> max 0 (m - count_of counts d)"
proof (induction rs arbitrary: counts)
  case (Cons r rs)
  show ?case
  proof (cases "hn (URL r)")
    case (Some dom)
    with Cons.IH[of counts] Cons.IH[of "count_add dom counts"] show ?thesis
      by (auto simp: of_domain_def bypasses_def)
  qed (use Cons.IH[of counts] in \<open>simp add: of_domain_def\<close>)
qed simp

lemma dedup_domain_subseq: "subseq (dedup_domain hn m t counts rs) rs"
  by (induction rs arbitrary: counts) (auto split: option.split)

lemma dedup_domain_bypass:
  "filter (bypasses t) (dedup_domain hn m t counts rs) = filter (bypasses t) (filter (\<lambda>r. hn (URL r) \<noteq> None) rs)"
proof (induction rs arbitrary: counts)
  case (Cons r rs)
  show ?case
  proof (cases "hn (URL r)")
    case (Some dom)
    with Cons.IH[of counts] Cons.IH[of "count_add dom counts"] show ?thesis
      by (simp add: bypasses_def[of t r])
  qed (use Cons.IH[of counts] in simp)
qed simp

lemma dedup_domain_first:
  assumes "filter (of_domain hn d) rs = r # rest" "count_of counts d < m"
  shows "\<exists>rest'. filter (of_domain hn d) (dedup_domain hn m t counts rs) = r # rest'"
  using assms
proof (induction rs arbitrary: counts)
  case (Cons x xs)
  show ?case
  proof (cases "hn (URL x) = Some d")
    case True
    with Cons.prems show ?thesis by (simp add: of_domain_def)
  next
    case False
    with Cons.prems have "filter (of_domain hn d) xs = r # rest" by (simp add: of_domain_def[of hn d x])
    with Cons.IH Cons.prems(2) False show ?thesis
      by (auto simp: of_domain_def[of hn d x] split: option.split)
  qed
qed simp

text \<open>The per-domain cap keeps a subsequence of the results; at most
  \<open>maxPerDomain\<close> of each domain that do not bypass by score, every
  parseable result that does, and the first result of every domain.\<close>

theorem DedupByDomain_caps:
  fixes th :: "real list"
  defines "t \<equiv> (case th of [] \<Rightarrow> 0 | x # _ \<Rightarrow> x)"
  assumes "0 < m"
  shows "subseq (DedupByDomain hn rs m th) rs
    \<and> (\<forall>d. int (length (filter (\<lambda>r. of_domain hn d r \<and> \<not> bypasses t r) (DedupByDomain hn rs m th))) \<le> m)
    \<and> filter (bypasses t) (DedupByDomain hn rs m th) = filter (bypasses t) (filter (\<lambda>r. hn (URL r) \<noteq> None) rs)
    \<and> (\<forall>d. filter (of_domain hn d) rs = [] \<or>
         (\<exists>x ys zs. filter (of_domain hn d) rs = x # ys
            \<and> filter (of_domain hn d) (DedupByDomain hn rs m th) = x # zs))"
proof (intro conjI allI)
  fix d
  show "int (length (filter (\<lambda>r. of_domain hn d r \<and> \<not> bypasses t r) (DedupByDomain hn rs m th))) \<le> m"
    using dedup_domain_cap[of hn d t m "[]" rs] assms(2) by (simp add: DedupByDomain_def t_def)
  show "filter (of_domain hn d) rs = [] \<or> (\<exists>x ys zs. filter (of_domain hn d) rs = x # ys
      \<and> filter (of_domain hn d) (DedupByDomain hn rs m th) = x # zs)"
    using dedup_domain_first[of hn d rs _ _ "[]" m t] assms(2)
    by (cases "filter (of_domain hn d) rs") (auto simp: DedupByDomain_def t_def)
qed (simp_all only: DedupByDomain_def t_def dedup_domain_subseq dedup_domain_bypass)

theorem DedupByDomain_caps_witness:
  "int (length (filter (\<lambda>r. of_domain Some ''a'' r \<and> \<not> bypasses 0 r)
     (DedupByDomain Some [mk_result ''a'' '''' 1, mk_result ''a'' '''' 2, mk_result ''b'' '''' 0] 1 []))) \<le> 1"
  using DedupByDomain_caps[of 1 Some "[mk_result ''a'' '''' 1, mk_result ''a'' '''' 2, mk_result ''b'' '''' 0]" "[]"]
  by simp

subsection \<open>Near-duplicate removal\<close>

type_synonym bow = "(string, real) gomap"

definition bump :: "string \<Rightarrow> bow \<Rightarrow> bow" where
  "bump w vec = AList.update w ((case map_of vec w of Some n \<Rightarrow> n | None \<Rightarrow> 0) + 1) vec"

definition tokenize_bow :: "unicode_tables \<Rightarrow> string \<Rightarrow> bow" where
  "tokenize_bow U s =
     fold bump (FieldsFunc (\<lambda>r. \<not> IsLetter U r \<and> \<not> IsDigit U r) (ToLower U s)) []"

definition norm2 :: "bow \<Rightarrow> real" where
  "norm2 a = sum_list (map (\<lambda>(_, v). v * v) a)"

definition dot :: "bow \<Rightarrow> bow \<Rightarrow> real" where
  "dot a b = sum_list (map (\<lambda>(k, v). case map_of b k of Some bv \<Rightarrow> v * bv | None \<Rightarrow> 0) a)"

definition cosineSimilarity :: "bow \<Rightarrow> bow \<Rightarrow> real" where
  "cosineSimilarity a b =
     (if length a = 0 \<or> length b = 0 then 0
      else let denom = sqrt (norm2 a) * sqrt (norm2 b)
           in if denom = 0 then 0 else dot a b / denom)"

text \<open>The two nested loops of \<open>markDuplicates\<close>, over the number of results, the
  similarity of two positions and the score of one.\<close>

function md_inner ::
  "(nat \<Rightarrow> nat \<Rightarrow> real) \<Rightarrow> (nat \<Rightarrow> real) \<Rightarrow> real \<Rightarrow> nat \<Rightarrow> nat \<Rightarrow> nat \<Rightarrow> bool list \<Rightarrow> bool list" where
  "md_inner sim score thr n i j removed =
     (if j \<ge> n then removed
      else if removed ! j then md_inner sim score thr n i (Suc j) removed
      else if sim i j > thr then
        (if score i \<ge> score j then md_inner sim score thr n i (Suc j) (removed[j := True])
         else removed[i := True])
      else md_inner sim score thr n i (Suc j) removed)"
  by pat_completeness auto
termination
  by (relation "measure (\<lambda>(_, _, _, n, _, j, _). n - j)") auto

declare md_inner.simps [simp del]

function md_outer ::
  "(nat \<Rightarrow> nat \<Rightarrow> real) \<Rightarrow> (nat \<Rightarrow> real) \<Rightarrow> real \<Rightarrow> nat \<Rightarrow> nat \<Rightarrow> bool list \<Rightarrow> bool list" where
  "md_outer sim score thr n i removed =
     (if i \<ge> n then removed
      else md_outer sim score thr n (Suc i)
        (if removed ! i then removed else md_inner sim score thr n i (Suc i) removed))"
  by pat_completeness auto
termination
  by (relation "measure (\<lambda>(_, _, _, n, i, _). n - i)") auto

declare md_outer.simps [simp del]

definition markDuplicates :: "Result list \<Rightarrow> bow list \<Rightarrow> real \<Rightarrow> bool list" where
  "markDuplicates results vecs threshold =
     md_outer (\<lambda>i j. cosineSimilarity (vecs ! i) (vecs ! j)) (\<lambda>i. Score (results ! i)) threshold
       (length results) 0 (replicate (length results) False)"

definition DedupSnippets :: "unicode_tables \<Rightarrow> Result list \<Rightarrow> real \<Rightarrow> Result list" where
  "DedupSnippets U results threshold =
     (if length results = 0 then []
      else let vecs = map (\<lambda>r. tokenize_bow U (Content r)) results;
               removed = markDuplicates results vecs threshold
           in map fst (filter (\<lambda>(_, rem). \<not> rem) (zip results removed)))"

text \<open>\<open>k\<close> has a near-duplicate of at least its score.\<close>

definition dominated :: "(nat \<Rightarrow> nat \<Rightarrow> real) \<Rightarrow> (nat \<Rightarrow> real) \<Rightarrow> real \<Rightarrow> nat \<Rightarrow> nat \<Rightarrow> bool" where
  "dominated sim score thr n k \<longleftrightarrow>
     (\<exists>m<n. m \<noteq> k \<and> score k \<le> score m \<and> thr < sim (min m k) (max m k))"

text \<open>\<open>l\<close> is the first position of the highest score.\<close>

definition leader :: "(nat \<Rightarrow> real) \<Rightarrow> nat \<Rightarrow> nat \<Rightarrow> bool" where
  "leader score n l \<longleftrightarrow> l < n \<and> (\<forall>k<n. score k \<le> score l) \<and> (\<forall>k<l. score k < score l)"

lemma leader_exists: "0 < n \<Longrightarrow> \<exists>l. leader score n l"
proof -
  assume "0 < n"
  define S where "S = {l. l < n \<and> (\<forall>k<n. score k \<le> score l)}"
  have "finite (score ` {..<n})" "score ` {..<n} \<noteq> {}" using \<open>0 < n\<close> by auto
  then have "Max (score ` {..<n}) \<in> score ` {..<n}" by (rule Max_in)
  then obtain l0 where "l0 < n" "score l0 = Max (score ` {..<n})" by auto
  then have "l0 \<in> S" by (auto simp: S_def)
  define l where "l = (LEAST l. l \<in> S)"
  have lS: "l \<in> S" unfolding l_def by (rule LeastI[of _ l0]) fact
  moreover have "score k < score l" if "k < l" for k
  proof -
    have "k \<notin> S" using not_less_Least[of k "\<lambda>l. l \<in> S"] that by (auto simp: l_def)
    with that lS obtain k' where "k' < n" "score k < score k'" by (force simp: S_def)
    with lS show ?thesis by (force simp: S_def)
  qed
  ultimately show ?thesis by (auto simp: leader_def S_def)
qed

text \<open>What the inner loop leaves of a row, from position \<open>j\<close> on.\<close>

definition swept :: "(nat \<Rightarrow> nat \<Rightarrow> real) \<Rightarrow> (nat \<Rightarrow> real) \<Rightarrow> real \<Rightarrow> nat \<Rightarrow> nat \<Rightarrow> nat \<Rightarrow> bool list \<Rightarrow> bool list \<Rightarrow> bool" where
  "swept sim score thr n i j removed out \<longleftrightarrow> length out = n
    \<and> (\<forall>k<n. removed ! k \<longrightarrow> out ! k)
    \<and> (\<forall>k<n. out ! k \<longrightarrow> removed ! k
         \<or> i < k \<and> thr < sim i k \<and> score k \<le> score i
         \<or> k = i \<and> (\<exists>m<n. i < m \<and> thr < sim i m \<and> score i < score m))
    \<and> (\<not> out ! i \<longrightarrow> (\<forall>k<n. j \<le> k \<longrightarrow> \<not> out ! k \<longrightarrow> sim i k \<le> thr))"

definition md_mark :: "(nat \<Rightarrow> nat \<Rightarrow> real) \<Rightarrow> real \<Rightarrow> nat \<Rightarrow> nat \<Rightarrow> bool list \<Rightarrow> bool list" where
  "md_mark sim thr i j removed = (if \<not> removed ! j \<and> thr < sim i j then removed[j := True] else removed)"

lemma swept_advance:
  assumes "i < j" "j < n" "length removed = n" "removed ! j \<or> sim i j \<le> thr \<or> score j \<le> score i"
    and sw: "swept sim score thr n i (Suc j) (md_mark sim thr i j removed) out"
  shows "swept sim score thr n i j removed out"
proof -
  let ?rem = "md_mark sim thr i j removed"
  have sub: "\<And>k. k < n \<Longrightarrow> removed ! k \<Longrightarrow> ?rem ! k"
    using assms(2,3) by (auto simp: md_mark_def nth_list_update)
  have new: "\<And>k. k < n \<Longrightarrow> ?rem ! k \<Longrightarrow> removed ! k \<or> k = j \<and> thr < sim i j \<and> score j \<le> score i"
    using assms(2-4) by (auto simp: md_mark_def nth_list_update split: if_splits)
  have at_j: "\<not> ?rem ! j \<Longrightarrow> sim i j \<le> thr" using assms(2,3) by (auto simp: md_mark_def split: if_splits)
  have last: "sim i k \<le> thr" if "\<not> out ! i" "k < n" "j \<le> k" "\<not> out ! k" for k
  proof (cases "k = j")
    case True
    with sw that have "\<not> ?rem ! j" unfolding swept_def by blast
    with at_j True show ?thesis by simp
  next
    case False
    with that have "Suc j \<le> k" by simp
    with sw that show ?thesis unfolding swept_def by blast
  qed
  have "removed ! k \<or> i < k \<and> thr < sim i k \<and> score k \<le> score i
      \<or> k = i \<and> (\<exists>m<n. i < m \<and> thr < sim i m \<and> score i < score m)" if "k < n" "out ! k" for k
    using sw that new[OF that(1)] assms(1) unfolding swept_def by blast
  with sw sub last show ?thesis unfolding swept_def by blast
qed

lemma md_inner_swept:
  assumes "i < j" "i < n" "length removed = n" "\<not> removed ! i"
  shows "swept sim score thr n i j removed (md_inner sim score thr n i j removed)"
  using assms
proof (induction sim score thr n i j removed rule: md_inner.induct)
  case (1 sim score thr n i j removed)
  consider (over) "j \<ge> n" | (loses) "j < n" "\<not> removed ! j" "thr < sim i j" "\<not> score j \<le> score i"
    | (goes_on) "j < n" "removed ! j \<or> sim i j \<le> thr \<or> score j \<le> score i" by linarith
  then show ?case
  proof cases
    case over
    then show ?thesis using 1(4-7) by (simp add: md_inner.simps swept_def)
  next
    case loses
    then show ?thesis using 1(4-7)
      by (auto simp: md_inner.simps[of sim score thr n i j] swept_def nth_list_update not_le intro: exI[of _ j])
  next
    case goes_on
    have step: "md_inner sim score thr n i j removed = md_inner sim score thr n i (Suc j) (md_mark sim thr i j removed)"
      using goes_on by (subst md_inner.simps) (auto simp: md_mark_def)
    have pre: "i < Suc j" "length (md_mark sim thr i j removed) = n" "\<not> md_mark sim thr i j removed ! i"
      using 1(4-7) by (auto simp: md_mark_def)
    have "swept sim score thr n i (Suc j) (md_mark sim thr i j removed) (md_inner sim score thr n i (Suc j) (md_mark sim thr i j removed))"
      using 1(1)[OF _ _ pre(1) 1(5)] 1(2)[OF _ _ _ _ pre(1) 1(5)] 1(3)[OF _ _ _ pre(1) 1(5)] pre goes_on
      by (cases "removed ! j"; cases "thr < sim i j") (auto simp: md_mark_def not_le)
    from swept_advance[OF 1(4) goes_on(1) 1(6) goes_on(2) this] show ?thesis unfolding step .
  qed
qed

lemmas md_inner_spec = md_inner_swept[unfolded swept_def]

definition md_inv :: "(nat \<Rightarrow> nat \<Rightarrow> real) \<Rightarrow> (nat \<Rightarrow> real) \<Rightarrow> real \<Rightarrow> nat \<Rightarrow> nat \<Rightarrow> bool list \<Rightarrow> bool" where
  "md_inv sim score thr n i removed \<longleftrightarrow> length removed = n
     \<and> (\<forall>a<i. \<forall>b<n. a < b \<longrightarrow> \<not> removed ! a \<longrightarrow> \<not> removed ! b \<longrightarrow> sim a b \<le> thr)
     \<and> (\<forall>k<n. removed ! k \<longrightarrow> dominated sim score thr n k)
     \<and> (\<forall>l. leader score n l \<longrightarrow> \<not> removed ! l)"

lemma md_inv_step:
  assumes "md_inv sim score thr n i removed" "i < n" "\<not> removed ! i"
  shows "md_inv sim score thr n (Suc i) (md_inner sim score thr n i (Suc i) removed)"
proof -
  let ?r = "md_inner sim score thr n i (Suc i) removed"
  have len: "length removed = n" using assms(1) by (simp add: md_inv_def)
  note sp = md_inner_spec[OF lessI assms(2) len assms(3), of sim score thr]
  have mono: "\<And>k. k < n \<Longrightarrow> removed ! k \<Longrightarrow> ?r ! k" using sp by blast
  have new: "\<And>k. k < n \<Longrightarrow> ?r ! k \<Longrightarrow> removed ! k \<or> i < k \<and> thr < sim i k \<and> score k \<le> score i
      \<or> k = i \<and> (\<exists>m<n. i < m \<and> thr < sim i m \<and> score i < score m)" using sp by blast
  have "sim a b \<le> thr" if "a < Suc i" "b < n" "a < b" "\<not> ?r ! a" "\<not> ?r ! b" for a b
  proof (cases "a = i")
    case True
    with sp that show ?thesis by (metis Suc_leI)
  next
    case False
    with that have "a < i" "a < n" using assms(2) by auto
    moreover have "\<not> removed ! a" "\<not> removed ! b" using mono that \<open>a < n\<close> by blast+
    ultimately show ?thesis using assms(1) that by (simp add: md_inv_def)
  qed
  moreover have "dominated sim score thr n k" if "k < n" "?r ! k" for k
  proof -
    have "dominated sim score thr n k" if "i < k" "thr < sim i k" "score k \<le> score i"
      unfolding dominated_def using that assms(2) by (intro exI[of _ i]) (simp add: min_def max_def)
    moreover have "dominated sim score thr n i" if "m < n" "i < m" "thr < sim i m" "score i < score m" for m
      unfolding dominated_def using that by (intro exI[of _ m]) (simp add: min_def max_def)
    moreover have "dominated sim score thr n k" if "removed ! k"
      using assms(1) \<open>k < n\<close> that by (simp add: md_inv_def)
    ultimately show ?thesis using new[OF that] by metis
  qed
  moreover have "\<not> ?r ! l" if l: "leader score n l" for l
  proof
    assume "?r ! l"
    with new[of l] l assms(1) have "i < l \<and> score l \<le> score i \<or> (\<exists>m<n. score l < score m)"
      by (auto simp: leader_def md_inv_def)
    with l show False by (force simp: leader_def)
  qed
  ultimately show ?thesis using sp by (simp add: md_inv_def)
qed

lemma md_outer_inv:
  "md_inv sim score thr n i removed \<Longrightarrow> i \<le> n \<Longrightarrow> md_inv sim score thr n n (md_outer sim score thr n i removed)"
proof (induction sim score thr n i removed rule: md_outer.induct)
  case (1 sim score thr n i removed)
  show ?case
  proof (cases "n \<le> i")
    case True
    with 1(3) have "i = n" by simp
    with 1(2) show ?thesis by (subst md_outer.simps) simp
  next
    case False
    have "md_inv sim score thr n (Suc i) (if removed ! i then removed else md_inner sim score thr n i (Suc i) removed)"
      using md_inv_step[OF 1(2)] False 1(2) by (auto simp: md_inv_def less_Suc_eq)
    with 1(1)[OF False this] False show ?thesis by (subst md_outer.simps) simp
  qed
qed

lemma markDuplicates_inv:
  "md_inv (\<lambda>i j. cosineSimilarity (vecs ! i) (vecs ! j)) (\<lambda>i. Score (results ! i)) thr
     (length results) (length results) (markDuplicates results vecs thr)"
  unfolding markDuplicates_def by (rule md_outer_inv) (auto simp: md_inv_def leader_def)

abbreviation snippet_sim :: "unicode_tables \<Rightarrow> Result list \<Rightarrow> nat \<Rightarrow> nat \<Rightarrow> real" where
  "snippet_sim U results i j \<equiv>
     cosineSimilarity (tokenize_bow U (Content (results ! i))) (tokenize_bow U (Content (results ! j)))"

text \<open>Which positions \<open>DedupSnippets\<close> keeps.\<close>

definition kept :: "unicode_tables \<Rightarrow> Result list \<Rightarrow> real \<Rightarrow> nat list" where
  "kept U results thr = filter (\<lambda>i. \<not> markDuplicates results (map (\<lambda>r. tokenize_bow U (Content r)) results) thr ! i)
     [0..<length results]"

lemma zip_filter_nth:
  "length rem = length xs \<Longrightarrow>
   map fst (filter (\<lambda>(_, r). \<not> r) (zip xs rem)) = map ((!) xs) (filter (\<lambda>i. \<not> rem ! i) [0..<length xs])"
proof (induction xs rem rule: rev_induct2)
  case (4 x xs y ys)
  then have "length xs = length ys" by simp
  moreover from this 4 have "filter (\<lambda>i. \<not> (ys @ [y]) ! i) [0..<length xs] = filter (\<lambda>i. \<not> ys ! i) [0..<length xs]"
    by (intro filter_cong) (auto simp: nth_append)
  moreover have "map ((!) (xs @ [x])) (filter (\<lambda>i. \<not> ys ! i) [0..<length xs])
     = map ((!) xs) (filter (\<lambda>i. \<not> ys ! i) [0..<length xs])"
    by (intro map_cong) (auto simp: nth_append)
  ultimately show ?case using 4 by (simp add: nth_append)
qed auto

lemma DedupSnippets_kept: "DedupSnippets U results thr = map ((!) results) (kept U results thr)"
proof (cases "results = []")
  case False
  let ?v = "map (\<lambda>r. tokenize_bow U (Content r)) results"
  have "length (markDuplicates results ?v thr) = length results"
    using markDuplicates_inv[of ?v results thr] by (simp add: md_inv_def)
  with False show ?thesis by (simp add: DedupSnippets_def kept_def zip_filter_nth Let_def)
qed (simp add: DedupSnippets_def kept_def)

text \<open>C28: Snippet deduplication keeps results in their order; no two kept results are
  more similar than the threshold; every removed result has a near-duplicate
  with at least its score; the first of the highest-scored results is kept, and
  the outcome is empty only for empty input.\<close>

theorem DedupSnippets_spec:
  "DedupSnippets U results thr = map ((!) results) (kept U results thr)
   \<and> sorted_wrt (<) (kept U results thr) \<and> set (kept U results thr) \<subseteq> {..<length results}
   \<and> {(i, j). i < j \<and> i \<in> set (kept U results thr) \<and> j \<in> set (kept U results thr)
        \<and> thr < snippet_sim U results i j} = {}
   \<and> {..<length results} - set (kept U results thr)
        \<subseteq> {k. dominated (snippet_sim U results) (\<lambda>i. Score (results ! i)) thr (length results) k}
   \<and> {l. leader (\<lambda>i. Score (results ! i)) (length results) l} \<subseteq> set (kept U results thr)
   \<and> (kept U results thr = []) = (results = [])"
proof -
  let ?v = "map (\<lambda>r. tokenize_bow U (Content r)) results"
  let ?n = "length results"
  let ?rem = "markDuplicates results ?v thr"
  let ?s = "\<lambda>i. Score (results ! i)"
  let ?S = "\<lambda>i j. cosineSimilarity (?v ! i) (?v ! j)"
  have inv: "md_inv ?S ?s thr ?n ?n ?rem" by (rule markDuplicates_inv)
  have sim: "?S i j = snippet_sim U results i j" if "i < ?n" "j < ?n" for i j using that by simp
  have k_iff: "i \<in> set (kept U results thr) \<longleftrightarrow> i < ?n \<and> \<not> ?rem ! i" for i by (auto simp: kept_def)
  have srt: "sorted_wrt (<) (kept U results thr)"
    unfolding kept_def by (rule sorted_wrt_filter) (simp add: sorted_wrt_upt)
  have pairs: "\<not> thr < snippet_sim U results i j" if "i < j" "i < ?n" "\<not> ?rem ! i" "j < ?n" "\<not> ?rem ! j" for i j
  proof -
    have "?S i j \<le> thr" using inv that unfolding md_inv_def by blast
    then show ?thesis using sim[of i j] that by simp
  qed
  have dom: "dominated (snippet_sim U results) ?s thr ?n k" if "k < ?n" "?rem ! k" for k
  proof -
    have "dominated ?S ?s thr ?n k" using inv that unfolding md_inv_def by blast
    then obtain m where m: "m < ?n" "m \<noteq> k" "?s k \<le> ?s m" "thr < ?S (min m k) (max m k)"
      unfolding dominated_def by blast
    then have "thr < snippet_sim U results (min m k) (max m k)" using that by (simp add: min_def max_def)
    with m show ?thesis unfolding dominated_def by blast
  qed
  have lead: "l < ?n \<and> \<not> ?rem ! l" if "leader ?s ?n l" for l
    using inv that by (simp add: md_inv_def leader_def)
  have "\<exists>i. i \<in> set (kept U results thr)" if "results \<noteq> []"
    using leader_exists[of ?n ?s] lead that by (auto simp: k_iff)
  then have ne: "(kept U results thr = []) = (results = [])"
    using kept_def[of U "[]" thr] by (cases "results = []") auto
  show ?thesis
    by (intro conjI DedupSnippets_kept srt ne) (auto simp: k_iff dest: pairs dom lead)
qed

lemma bump_pos: "(\<forall>(k, v) \<in> set vec. 0 < v) \<Longrightarrow> (\<forall>(k, v) \<in> set (bump w vec). 0 < v)"
proof (induction vec)
  case Nil
  then show ?case by (simp add: bump_def)
next
  case (Cons x xs)
  then show ?case by (cases x) (auto simp: bump_def split: option.splits dest!: map_of_SomeD)
qed

lemma bump_keys: "map_wf vec \<Longrightarrow> map_wf (bump w vec)"
  by (simp add: bump_def)

lemma bump_nonempty: "bump w vec \<noteq> []"
  by (metis bump_def empty_iff empty_set image_is_empty insert_not_empty keys_update)

lemma dot_self: "map_wf a \<Longrightarrow> dot a a = norm2 a"
proof -
  assume "map_wf a"
  then have "map (\<lambda>(k, v). case map_of a k of Some bv \<Rightarrow> v * bv | None \<Rightarrow> 0) a = map (\<lambda>(_, v). v * v) a"
    by (intro map_cong) (auto simp: map_wf_def map_of_eq_Some_iff split: option.splits)
  then show ?thesis unfolding dot_def norm2_def by (rule arg_cong)
qed

lemma norm2_pos: "\<forall>(k, v) \<in> set a. 0 < v \<Longrightarrow> a \<noteq> [] \<Longrightarrow> 0 < norm2 a"
proof (induction a)
  case (Cons x xs)
  then show ?case by (cases xs; cases x) (auto simp: norm2_def add_pos_pos)
qed simp

lemma tokenize_bow_props:
  "map_wf (tokenize_bow U s) \<and> (\<forall>(k, v) \<in> set (tokenize_bow U s). 0 < v)"
proof -
  have "map_wf (fold bump ws vec) \<and> (\<forall>(k, v) \<in> set (fold bump ws vec). 0 < v)"
    if "map_wf vec" "\<forall>(k, v) \<in> set vec. 0 < v" for ws vec
    using that
  proof (induction ws arbitrary: vec)
    case (Cons x ws)
    from Cons.IH[OF bump_keys[OF Cons.prems(1)] bump_pos[OF Cons.prems(2)], of x] show ?case by simp
  qed simp
  from this[of "[]"] show ?thesis by (simp add: tokenize_bow_def)
qed

text \<open>Two results with the same words have similarity one, so any threshold below
  one removes exact repeats; a snippet without words is similar to nothing.\<close>

theorem cosine_self:
  "cosineSimilarity (tokenize_bow U s) (tokenize_bow U s) = (if tokenize_bow U s = [] then 0 else 1)"
proof (cases "tokenize_bow U s = []")
  case False
  let ?a = "tokenize_bow U s"
  have "0 < norm2 ?a" using tokenize_bow_props[of U s] False by (intro norm2_pos) auto
  moreover have "dot ?a ?a = norm2 ?a" using tokenize_bow_props[of U s] by (intro dot_self) auto
  ultimately show ?thesis using False by (simp add: cosineSimilarity_def Let_def)
qed (simp add: cosineSimilarity_def)

subsection \<open>Markdown\<close>

fun md_items :: "nat \<Rightarrow> Result list \<Rightarrow> string" where
  "md_items i [] = ''''"
| "md_items i (r # rs) =
     (if i > 0 then [CHR 0x0A] else '''') @ ''## '' @ Itoa (int i + 1) @ ''. ['' @ Title r @ ''](''
       @ URL r @ '')'' @ (if Content r \<noteq> '''' then CHR 0x0A # Content r else '''') @ md_items (Suc i) rs"

definition ResultsToMarkdown :: "Result list \<Rightarrow> string" where
  "ResultsToMarkdown results = (if length results = 0 then '''' else md_items 0 results)"

end
