(* ===== verification/Go_Trim.thy ===== *)
theory Go_Trim
  imports Go_Runes
begin

text \<open>
  \<open>TrimSpace\<close> on well-formed UTF-8: it removes exactly the leading and
  trailing white-space runes.
\<close>

definition trim_runes :: "rune list \<Rightarrow> rune list" where
  "trim_runes rs = rev (dropWhile IsSpace (rev (dropWhile IsSpace rs)))"

lemma space_valid: "IsSpace r \<Longrightarrow> valid_rune r"
  by (auto simp: IsSpace_def space_runes_def valid_rune_def)

lemma prefix_encode_iff:
  assumes "valid_rune r" "valid_rune r'"
  shows "prefix (encode_rune r') (encode_rune r @ s) \<longleftrightarrow> r' = r"
proof
  assume "prefix (encode_rune r') (encode_rune r @ s)"
  then obtain t where "encode_rune r @ s = encode_rune r' @ t" by (auto simp: prefix_def)
  then have "DecodeRune (encode_rune r @ s) = DecodeRune (encode_rune r' @ t)" by simp
  then show "r' = r" using assms by (simp add: DecodeRune_encode)
qed simp

lemma find_unique:
  "\<forall>x \<in> set xs. P (f x) \<longleftrightarrow> x = a \<Longrightarrow> find P (map f xs) = (if a \<in> set xs then Some (f a) else None)"
  by (induction xs) auto

lemma find_space_prefix:
  assumes "valid_rune r"
  shows "find (\<lambda>e. e \<noteq> [] \<and> HasPrefix (encode_rune r @ s) e) space_encodings
    = (if IsSpace r then Some (encode_rune r) else None)"
  unfolding space_encodings_def IsSpace_def
proof (rule find_unique, rule ballI)
  fix x
  assume "x \<in> set space_runes"
  then have "valid_rune x" using space_valid by (simp add: IsSpace_def)
  with assms show "(encode_rune x \<noteq> [] \<and> HasPrefix (encode_rune r @ s) (encode_rune x)) = (x = r)"
    by (simp add: HasPrefix_iff prefix_encode_iff)
qed

lemma TrimLeft_of_runes:
  "list_all valid_rune rs \<Longrightarrow> TrimLeftSpace (of_runes rs) = of_runes (dropWhile IsSpace rs)"
proof (induction rs)
  case Nil
  have "find (\<lambda>e. e \<noteq> [] \<and> HasPrefix [] e) space_encodings = None"
    by (auto simp: find_None_iff HasPrefix_iff)
  then show ?case by (simp add: TrimLeftSpace_def strip_front.simps)
next
  case (Cons r rs)
  then have v: "valid_rune r" and IH: "strip_front space_encodings (of_runes rs) = of_runes (dropWhile IsSpace rs)"
    by (auto simp: TrimLeftSpace_def)
  have "strip_front space_encodings (encode_rune r @ of_runes rs) =
    (if IsSpace r then strip_front space_encodings (of_runes rs) else encode_rune r @ of_runes rs)"
    by (subst strip_front.simps) (simp add: find_space_prefix[OF v])
  with IH show ?case by (simp add: TrimLeftSpace_def)
qed

text \<open>From the right: an encoding is one non-continuation byte followed by
  continuation bytes, so it is found again from its end.\<close>

lemma encode_bytes_shape:
  assumes "valid_rune r" "encode_bytes r = b # bs"
  shows "\<not> cont b \<and> list_all cont bs"
  using assms by (auto simp: encode_bytes_def cont_def valid_rune_def split: if_splits)

lemma encode_rune_shape:
  assumes "valid_rune r"
  obtains c cs where "encode_rune r = c # cs" "\<not> cont (byte c)" "list_all (cont \<circ> byte) cs"
proof -
  obtain b bs where e: "encode_bytes r = b # bs" using encode_bytes_len[of r] by (cases "encode_bytes r") auto
  have lt: "\<forall>x \<in> set (b # bs). x < 256" using encode_bytes_lt[OF assms] e by auto
  have "encode_rune r = mkbyte b # map mkbyte bs" using e assms by (simp add: encode_rune_def)
  moreover have "\<not> cont (byte (mkbyte b))" using encode_bytes_shape[OF assms e] lt by simp
  moreover have "list_all (cont \<circ> byte) (map mkbyte bs)"
    using encode_bytes_shape[OF assms e] lt by (auto simp: list_all_iff)
  ultimately show thesis using that by blast
qed

lemma suffix_shape:
  assumes "x @ c # cs = y @ d # ds" "\<not> P c" "\<not> P d" "list_all P cs" "list_all P ds"
  shows "x = y \<and> c # cs = d # ds"
proof -
  from assms(1) consider us where "x = y @ us" "us @ c # cs = d # ds"
    | us where "y = x @ us" "c # cs = us @ d # ds"
    by (auto simp: append_eq_append_conv2)
  then show ?thesis
  proof cases
    case 1
    then show ?thesis using assms by (cases us) auto
  next
    case 2
    then show ?thesis using assms by (cases us) auto
  qed
qed

lemma suffix_encode_iff:
  assumes "valid_rune r" "valid_rune r'"
  shows "suffix (encode_rune r') (s @ encode_rune r) \<longleftrightarrow> r' = r"
proof
  assume "suffix (encode_rune r') (s @ encode_rune r)"
  then obtain y where y: "s @ encode_rune r = y @ encode_rune r'" by (auto simp: suffix_def)
  obtain c cs where c: "encode_rune r = c # cs" "\<not> (cont \<circ> byte) c" "list_all (cont \<circ> byte) cs"
    using encode_rune_shape[OF assms(1)] by auto
  obtain d ds where d: "encode_rune r' = d # ds" "\<not> (cont \<circ> byte) d" "list_all (cont \<circ> byte) ds"
    using encode_rune_shape[OF assms(2)] by auto
  have "encode_rune r = encode_rune r'"
    using suffix_shape[of s c cs y d ds "cont \<circ> byte"] y c d by simp
  then have "DecodeRune (encode_rune r @ []) = DecodeRune (encode_rune r' @ [])" by simp
  then show "r' = r" using assms by (simp only: DecodeRune_encode) simp
qed (simp add: suffix_def)

lemma find_space_suffix:
  assumes "valid_rune r"
  shows "find (\<lambda>e. e \<noteq> [] \<and> HasPrefix (rev (s @ encode_rune r)) e) (map rev space_encodings)
    = (if IsSpace r then Some (rev (encode_rune r)) else None)"
  unfolding space_encodings_def IsSpace_def map_map o_def
proof (rule find_unique, rule ballI)
  fix x
  assume "x \<in> set space_runes"
  then have "valid_rune x" using space_valid by (simp add: IsSpace_def)
  with suffix_encode_iff[OF assms this, of s]
  show "(rev (encode_rune x) \<noteq> [] \<and> HasPrefix (rev (s @ encode_rune r)) (rev (encode_rune x))) = (x = r)"
    by (simp add: HasPrefix_iff suffix_to_prefix)
qed

lemma TrimRight_of_runes:
  "list_all valid_rune rs \<Longrightarrow> TrimRightSpace (of_runes rs) = of_runes (rev (dropWhile IsSpace (rev rs)))"
proof (induction rs rule: rev_induct)
  case Nil
  have "find (\<lambda>e. e \<noteq> [] \<and> HasPrefix [] e) (map rev space_encodings) = None"
    by (auto simp: find_None_iff HasPrefix_iff)
  then show ?case by (simp add: TrimRightSpace_def strip_front.simps)
next
  case (snoc r rs)
  then have v: "valid_rune r"
    and IH: "rev (strip_front (map rev space_encodings) (rev (of_runes rs))) = of_runes (rev (dropWhile IsSpace (rev rs)))"
    by (auto simp: TrimRightSpace_def)
  have f: "find (\<lambda>e. e \<noteq> [] \<and> HasPrefix (rev (encode_rune r) @ rev (of_runes rs)) e) (map rev space_encodings)
    = (if IsSpace r then Some (rev (encode_rune r)) else None)"
    using find_space_suffix[OF v, of "of_runes rs"] by simp
  have "strip_front (map rev space_encodings) (rev (encode_rune r) @ rev (of_runes rs)) =
    (if IsSpace r then strip_front (map rev space_encodings) (rev (of_runes rs))
     else rev (encode_rune r) @ rev (of_runes rs))"
    by (subst strip_front.simps) (simp add: f)
  with IH show ?case by (simp add: TrimRightSpace_def)
qed

lemma list_all_dropWhile: "list_all P xs \<Longrightarrow> list_all P (dropWhile Q xs)"
  by (metis append_eq_conv_conj list_all_append takeWhile_dropWhile_id)

lemma TrimSpace_of_runes:
  "list_all valid_rune rs \<Longrightarrow> TrimSpace (of_runes rs) = of_runes (trim_runes rs)"
  by (simp add: TrimSpace_def TrimLeft_of_runes TrimRight_of_runes list_all_dropWhile trim_runes_def)

lemma length_trim_runes: "length (trim_runes rs) \<le> length rs"
  by (metis (no_types, lifting) length_dropWhile_le length_rev order_trans trim_runes_def)

lemma valid_trim_runes: "list_all valid_rune rs \<Longrightarrow> list_all valid_rune (trim_runes rs)"
  by (simp add: trim_runes_def list_all_dropWhile)

lemma runes_TrimSpace_of_runes:
  "list_all valid_rune rs \<Longrightarrow> runes (TrimSpace (of_runes rs)) = trim_runes rs"
  using valid_trim_runes[of rs] by (simp add: TrimSpace_of_runes map_idI list_all_iff)

lemma list_all_valid_runes: "list_all valid_rune (runes s)"
  by (auto simp: list_all_iff runes_valid)

subsection \<open>ASCII text\<close>

lemma encode_rune_ascii: "byte c < 128 \<Longrightarrow> encode_rune (byte c) = [c]"
  by (simp add: encode_rune_def encode_bytes_def valid_rune_def)

lemma of_runes_ascii: "is_ascii s \<Longrightarrow> of_runes (map byte s) = s"
  by (induction s) (auto simp: is_ascii_def encode_rune_ascii)

lemma ascii_valid: "is_ascii s \<Longrightarrow> list_all valid_rune (map byte s)"
  by (auto simp: is_ascii_def list_all_iff valid_rune_def)

lemma runes_ascii: "is_ascii s \<Longrightarrow> runes s = map byte s"
  using runes_of_runes[of "map byte s"] ascii_valid[of s]
  by (simp add: of_runes_ascii map_idI list_all_iff comp_def)

lemma runes_TrimSpace_ascii: "is_ascii s \<Longrightarrow> runes (TrimSpace s) = trim_runes (map byte s)"
  using runes_TrimSpace_of_runes[OF ascii_valid] by (simp add: of_runes_ascii)

lemma TrimSpace_ascii: "is_ascii s \<Longrightarrow> TrimSpace s = of_runes (trim_runes (map byte s))"
  using TrimSpace_of_runes[OF ascii_valid] by (simp add: of_runes_ascii)

lemma IsSpace_low: "r < 128 \<Longrightarrow> IsSpace r \<longleftrightarrow> r = 9 \<or> r = 10 \<or> r = 11 \<or> r = 12 \<or> r = 13 \<or> r = 32"
  by (auto simp: IsSpace_def space_runes_def)

lemma TrimSpace_ascii_id: "is_ascii s \<Longrightarrow> trim_runes (map byte s) = map byte s \<Longrightarrow> TrimSpace s = s"
  by (simp add: TrimSpace_ascii of_runes_ascii)

lemma rune_segs_ascii: "is_ascii s \<Longrightarrow> rune_segs s = map (\<lambda>c. [c]) s"
proof (induction s)
  case (Cons c s)
  then have "byte c < 128" "is_ascii s" by (auto simp: is_ascii_def)
  with Cons.IH rune_segs_encode[of "byte c" s] show ?case by (simp add: encode_rune_ascii)
qed simp

lemma rune_of_ascii: "byte c < 128 \<Longrightarrow> rune_of [c] = byte c"
  by (simp add: rune_of_def decode_bytes_def)

lemma Fields_ascii: "is_ascii s \<Longrightarrow> Fields s = fields_segs IsSpace (map (\<lambda>c. [c]) s) []"
  by (simp add: Fields_def FieldsFunc_def rune_segs_ascii)

lemmas ascii_eval = is_ascii_def ToLower_def lower_byte_def Fields_ascii rune_of_ascii IsSpace_low
  char_of_eq_iff take_bit_eq_mod

end
