(* ===== verification/Text_Query.thy ===== *)
theory Text_Query
  imports Ws_Results Go_Trim
begin

text \<open>
  \<open>text/classify.go\<close>: query classification by patterns, and
  \<open>text/filter.go\<close>: BM25 ranking of chunks.  The Cyrillic patterns are
  written by their code points.  \<open>sort.Slice\<close>, which is not stable, is a
  parameter: any function that permutes and sorts.
\<close>

subsection \<open>Query types and domains\<close>

datatype QueryType = QtGeneral | QtFact | QtComparison | QtList | QtHowTo

datatype QueryDomain = QdGeneral | QdWordPress | QdClaudeCode | QdGitHubRepo | QdLibDocs | QdHuggingFace

definition factPatterns :: "string list" where
  "factPatterns =
     [of_runes [0x43A, 0x443, 0x440, 0x441], of_runes [0x446, 0x435, 0x43D, 0x430],
     of_runes [0x441, 0x442, 0x43E, 0x438, 0x43C, 0x43E, 0x441, 0x442, 0x44C],
     of_runes [0x441, 0x43A, 0x43E, 0x43B, 0x44C, 0x43A, 0x43E, 0x20, 0x441, 0x442, 0x43E, 0x438, 0x442],
     ''price'', of_runes [0x43A, 0x43E, 0x433, 0x434, 0x430],
     of_runes [0x43A, 0x430, 0x43A, 0x43E, 0x439, 0x20, 0x433, 0x43E, 0x434],
     of_runes [0x434, 0x430, 0x442, 0x430], ''who is'',
     of_runes [0x43A, 0x442, 0x43E, 0x20, 0x442, 0x430, 0x43A, 0x43E, 0x439],
     of_runes [0x43A, 0x442, 0x43E, 0x20, 0x44D, 0x442, 0x43E], ''what is the'',
     of_runes [0x43A, 0x430, 0x43A, 0x43E, 0x439, 0x20, 0x440, 0x430, 0x437, 0x43C, 0x435, 0x440],
     of_runes [0x43D, 0x430, 0x441, 0x435, 0x43B, 0x435, 0x43D, 0x438, 0x435]]"

definition compPatterns :: "string list" where
  "compPatterns =
     ['' vs '', '' versus '', of_runes [0x20, 0x438, 0x43B, 0x438, 0x20],
     of_runes [0x441, 0x440, 0x430, 0x432, 0x43D, 0x435, 0x43D, 0x438, 0x435],
     of_runes [0x441, 0x440, 0x430, 0x432, 0x43D, 0x438],
     of_runes [0x43E, 0x442, 0x43B, 0x438, 0x447, 0x438],
     of_runes [0x440, 0x430, 0x437, 0x43D, 0x438, 0x446],
     of_runes [0x43B, 0x443, 0x447, 0x448, 0x435], ''compare'', ''difference'',
     of_runes [0x447, 0x435, 0x43C, 0x20, 0x43E, 0x442, 0x43B, 0x438, 0x447, 0x430, 0x435, 0x442, 0x441, 0x44F],
     of_runes [0x447, 0x442, 0x43E, 0x20, 0x43B, 0x443, 0x447, 0x448, 0x435],
     of_runes [0x447, 0x442, 0x43E, 0x20, 0x432, 0x44B, 0x431, 0x440, 0x430, 0x442, 0x44C]]"

definition listPatterns :: "string list" where
  "listPatterns =
     [of_runes [0x43A, 0x430, 0x43A, 0x438, 0x435],
     of_runes [0x43F, 0x435, 0x440, 0x435, 0x447, 0x438, 0x441, 0x43B, 0x438],
     of_runes [0x441, 0x43F, 0x438, 0x441, 0x43E, 0x43A],
     of_runes [0x43D, 0x430, 0x437, 0x43E, 0x432, 0x438], of_runes [0x442, 0x43E, 0x43F, 0x2D],
     ''top '', of_runes [0x43B, 0x443, 0x447, 0x448, 0x438, 0x435], ''best'', ''list'',
     ''enumerate'',
     of_runes [0x444, 0x440, 0x435, 0x439, 0x43C, 0x432, 0x43E, 0x440, 0x43A, 0x438],
     ''frameworks'',
     of_runes [0x438, 0x43D, 0x441, 0x442, 0x440, 0x443, 0x43C, 0x435, 0x43D, 0x442, 0x44B],
     ''tools'',
     of_runes [0x430, 0x43B, 0x44C, 0x442, 0x435, 0x440, 0x43D, 0x430, 0x442, 0x438, 0x432, 0x44B],
     ''alternatives'']"

definition howtoPatterns :: "string list" where
  "howtoPatterns =
     [of_runes [0x43A, 0x430, 0x43A, 0x20], ''how to'', ''how do'',
     of_runes [0x43D, 0x430, 0x441, 0x442, 0x440, 0x43E, 0x438, 0x442, 0x44C],
     of_runes [0x443, 0x441, 0x442, 0x430, 0x43D, 0x43E, 0x432, 0x438, 0x442, 0x44C],
     of_runes [0x441, 0x434, 0x435, 0x43B, 0x430, 0x442, 0x44C],
     of_runes [0x441, 0x43E, 0x437, 0x434, 0x430, 0x442, 0x44C], ''setup'', ''install'',
     ''configure'', of_runes [0x43F, 0x43E, 0x448, 0x430, 0x433, 0x43E, 0x432, 0x43E],
     ''step by step'', ''guide'', ''tutorial'']"

definition wpPatterns :: "string list" where
  "wpPatterns =
     [''wordpress'', ''wp_'', ''wp-cli'', ''add_action'', ''add_filter'', ''do_action'',
     ''apply_filters'', ''gutenberg'', ''woocommerce'', ''wp_enqueue'', ''wp_query'',
     ''the_content'', ''the_title'', ''get_post'', ''shortcode'', ''wp rest api'', ''wp-json'',
     ''wp_hook'', ''wp_register'', ''register_post_type'', ''register_taxonomy'', ''have_posts'',
     ''the_loop'']"

definition ccPatterns :: "string list" where
  "ccPatterns =
     [''claude code'', ''claude-code'', ''anthropic plugin'', ''pretooluse'', ''posttooluse'',
     ''claude.md'', ''claude hook'', ''claude skill'', ''claude command'',
     ''knowledge-work-plugins'', ''claude code plugin'']"

definition ghPatterns :: "string list" where
  "ghPatterns =
     [''library for'', ''package for'', ''github repo'', ''find repo'', ''recommend library'',
     ''best library'', ''suggest package'', ''npm package for'', ''go module for'',
     ''pip package for'', ''crate for'',
     of_runes [0x43D, 0x430, 0x439, 0x434, 0x438, 0x20, 0x440, 0x435, 0x43F, 0x43E],
     of_runes [0x430, 0x43B, 0x44C, 0x442, 0x435, 0x440, 0x43D, 0x430, 0x442, 0x438, 0x432, 0x44B],
     ''alternatives to'']"

definition hfPatterns :: "string list" where
  "hfPatterns =
     [''huggingface'', ''hugging face'', ''hf model'', ''hf dataset'',
     of_runes [0x43D, 0x430, 0x439, 0x434, 0x438, 0x20, 0x43C, 0x43E, 0x434, 0x435, 0x43B, 0x44C],
     of_runes [0x43D, 0x430, 0x439, 0x442, 0x438, 0x20, 0x43C, 0x43E, 0x434, 0x435, 0x43B, 0x44C],
     of_runes [0x43C, 0x43E, 0x434, 0x435, 0x43B, 0x44C, 0x20, 0x434, 0x43B, 0x44F],
     of_runes [0x43B, 0x443, 0x447, 0x448, 0x443, 0x44E, 0x20, 0x43C, 0x43E, 0x434, 0x435, 0x43B, 0x44C],
     ''model for '', ''best model for'', ''find model'',
     of_runes [0x440, 0x435, 0x447, 0x435, 0x432, 0x430, 0x44F, 0x20, 0x43C, 0x43E, 0x434, 0x435, 0x43B, 0x44C],
     ''speech model'', ''vision model'', ''language model for'', ''gguf model'',
     ''quantized model'',
     of_runes [0x43B, 0x43E, 0x43A, 0x430, 0x43B, 0x44C, 0x43D, 0x430, 0x44F, 0x20, 0x6C, 0x6C, 0x6D],
     ''local llm'', ''hf hub'', ''hub model'', ''open source model'']"

definition libraries :: "(string \<times> string) list" where
  "libraries =
     [(''next.js'', ''next.js''), (''nextjs'', ''next.js''), (''react native'', ''react-native''),
     (''react'', ''react''), (''vue.js'', ''vue''), (''vuejs'', ''vue''), (''vue'', ''vue''),
     (''angular'', ''angular''), (''svelte'', ''svelte''), (''solid.js'', ''solid''),
     (''express.js'', ''express''), (''express'', ''express''), (''nestjs'', ''nestjs''),
     (''nuxt'', ''nuxt''), (''remix'', ''remix''), (''tailwindcss'', ''tailwindcss''),
     (''tailwind'', ''tailwindcss''), (''prisma'', ''prisma''), (''drizzle'', ''drizzle-orm''),
     (''zod'', ''zod''), (''trpc'', ''trpc''), (''playwright'', ''playwright''),
     (''puppeteer'', ''puppeteer''), (''jest'', ''jest''), (''vitest'', ''vitest''),
     (''cypress'', ''cypress''), (''webpack'', ''webpack''), (''vite'', ''vite''),
     (''esbuild'', ''esbuild''), (''three.js'', ''three.js''), (''threejs'', ''three.js''),
     (''d3.js'', ''d3''), (''d3'', ''d3''), (''socket.io'', ''socket.io''),
     (''axios'', ''axios''), (''tanstack'', ''tanstack-query''),
     (''react-query'', ''tanstack-query''), (''zustand'', ''zustand''), (''jotai'', ''jotai''),
     (''redux'', ''redux''), (''shadcn'', ''shadcn-ui''), (''radix'', ''radix-ui''),
     (''astro'', ''astro''), (''gatsby'', ''gatsby''), (''deno'', ''deno''), (''bun'', ''bun''),
     (''hono'', ''hono''), (''fastify'', ''fastify''), (''koa'', ''koa''),
     (''fastapi'', ''fastapi''), (''django'', ''django''), (''flask'', ''flask''),
     (''sqlalchemy'', ''sqlalchemy''), (''pydantic'', ''pydantic''), (''celery'', ''celery''),
     (''pytest'', ''pytest''), (''langchain'', ''langchain''), (''llamaindex'', ''llama-index''),
     (''pandas'', ''pandas''), (''numpy'', ''numpy''), (''scipy'', ''scipy''),
     (''pytorch'', ''pytorch''), (''tensorflow'', ''tensorflow''),
     (''scikit-learn'', ''scikit-learn''), (''sklearn'', ''scikit-learn''),
     (''matplotlib'', ''matplotlib''), (''streamlit'', ''streamlit''), (''httpx'', ''httpx''),
     (''aiohttp'', ''aiohttp''), (''beautifulsoup'', ''beautifulsoup4''),
     (''scrapy'', ''scrapy''), (''gin '', ''gin-gonic''), (''gin-gonic'', ''gin-gonic''),
     (''echo '', ''echo''), (''fiber '', ''fiber''), (''gorm'', ''gorm''), (''ent '', ''ent''),
     (''cobra'', ''cobra''), (''viper'', ''viper''), (''tokio'', ''tokio''),
     (''actix'', ''actix-web''), (''axum'', ''axum''), (''serde'', ''serde''),
     (''reqwest'', ''reqwest''), (''supabase'', ''supabase''), (''firebase'', ''firebase''),
     (''mongodb'', ''mongodb''), (''mongoose'', ''mongoose''), (''redis'', ''redis''),
     (''elasticsearch'', ''elasticsearch''), (''docker'', ''docker''),
     (''kubernetes'', ''kubernetes''), (''k8s'', ''kubernetes''), (''terraform'', ''terraform''),
     (''pulumi'', ''pulumi''), (''htmx'', ''htmx''), (''alpine.js'', ''alpinejs''),
     (''alpinejs'', ''alpinejs''), (''graphql'', ''graphql''), (''apollo'', ''apollo-client''),
     (''stripe'', ''stripe''), (''auth0'', ''auth0'')]"

definition has_pattern :: "string \<Rightarrow> string list \<Rightarrow> bool" where
  "has_pattern q ps = list_ex (Contains q) ps"

definition DetectQueryType :: "unicode_tables \<Rightarrow> string \<Rightarrow> QueryType" where
  "DetectQueryType U query =
     (let q = ToLower U query
      in if has_pattern q factPatterns then QtFact
         else if has_pattern q compPatterns then QtComparison
         else if has_pattern q listPatterns then QtList
         else if has_pattern q howtoPatterns then QtHowTo
         else QtGeneral)"

definition ExtractLibraryName :: "unicode_tables \<Rightarrow> string \<Rightarrow> string" where
  "ExtractLibraryName U query =
     (let q = ToLower U query
      in case find (\<lambda>(pattern, name). Contains q pattern) libraries of
           Some (pattern, name) \<Rightarrow> name
         | None \<Rightarrow> '''')"

definition DetectQueryDomain :: "unicode_tables \<Rightarrow> string \<Rightarrow> QueryDomain" where
  "DetectQueryDomain U query =
     (let q = ToLower U query
      in if has_pattern q wpPatterns then QdWordPress
         else if has_pattern q ccPatterns then QdClaudeCode
         else if has_pattern q ghPatterns then QdGitHubRepo
         else if has_pattern q hfPatterns then QdHuggingFace
         else if ExtractLibraryName U query \<noteq> '''' then QdLibDocs
         else QdGeneral)"

lemma library_names_nonempty: "list_all (\<lambda>(p, n). n \<noteq> '''') libraries"
  by (simp add: libraries_def)

lemma library_names_are_names:
  "find (\<lambda>(p, n). Contains q p) libraries = Some (p, n) \<Longrightarrow> n \<noteq> ''''"
  using library_names_nonempty by (auto simp: find_Some_iff list_all_iff dest!: nth_mem)

lemma ExtractLibraryName_empty:
  "ExtractLibraryName U query = '''' \<longleftrightarrow> list_all (\<lambda>(p, n). \<not> Contains (ToLower U query) p) libraries"
proof (cases "find (\<lambda>(p, n). Contains (ToLower U query) p) libraries")
  case None
  then have "list_all (\<lambda>(p, n). \<not> Contains (ToLower U query) p) libraries"
    by (auto simp: find_None_iff list_all_iff)
  with None show ?thesis by (simp add: ExtractLibraryName_def Let_def)
next
  case (Some e)
  then have "\<not> list_all (\<lambda>(p, n). \<not> Contains (ToLower U query) p) libraries"
    by (fastforce simp: find_Some_iff list_all_iff dest: nth_mem)
  with Some library_names_are_names[of "ToLower U query" "fst e" "snd e"] show ?thesis
    by (auto simp: ExtractLibraryName_def Let_def split: prod.split)
qed

text \<open>Only a query in which no pattern of the four domain lists and no known library
  occurs is left to general web search.\<close>

theorem DetectQueryDomain_general:
  "DetectQueryDomain U query = QdGeneral \<longleftrightarrow>
     list_all (\<lambda>p. \<not> sublist p (ToLower U query)) (wpPatterns @ ccPatterns @ ghPatterns @ hfPatterns @ map fst libraries)"
proof -
  have l: "list_all (\<lambda>p. \<not> sublist p q) (map fst libraries) \<longleftrightarrow> list_all (\<lambda>(p, n). \<not> Contains q p) libraries" for q
    by (auto simp: list_all_iff Contains_iff)
  have p: "has_pattern q ps \<longleftrightarrow> \<not> list_all (\<lambda>p. \<not> sublist p q) ps" for q ps
    by (auto simp: has_pattern_def list_ex_iff list_all_iff Contains_iff)
  show ?thesis
    by (simp only: DetectQueryDomain_def Let_def p ExtractLibraryName_empty l[symmetric] list_all_append)
      (simp split: if_split)
qed

text \<open>The table entry that maps \<open>react-query\<close> to \<open>tanstack-query\<close> is
  never reached: a query with that text is answered by one of the first four
  entries.\<close>

theorem react_query_entry_is_dead:
  assumes "Contains (ToLower U query) ''react-query''"
  shows "ExtractLibraryName U query \<in> {''next.js'', ''react-native'', ''react''}"
proof -
  have "sublist ''react'' (''react'' @ ''-query'')" by (rule sublist_append_rightI)
  then have "sublist ''react'' ''react-query''" by simp
  then have "Contains (ToLower U query) ''react''"
    using assms unfolding Contains_iff by (rule sublist_order.order_trans)
  then show ?thesis by (simp add: ExtractLibraryName_def Let_def libraries_def)
qed

theorem react_query_entry_is_dead_witness:
  "ExtractLibraryName ascii_tables ''React-Query docs'' \<in> {''next.js'', ''react-native'', ''react''}"
  by (rule react_query_entry_is_dead)
    (simp add: ToLower_def is_ascii_def lower_byte_def Contains_def char_of_eq_iff take_bit_eq_mod)

subsection \<open>BM25\<close>

record BM25Filter =
  topK :: int
  k1 :: real
  bm_b :: real

definition NewBM25Filter :: "int \<Rightarrow> BM25Filter" where
  "NewBM25Filter k = \<lparr>topK = k, k1 = 3/2, bm_b = 3/4\<rparr>"

definition tokenize :: "unicode_tables \<Rightarrow> string \<Rightarrow> string list" where
  "tokenize U s = Fields (ToLower U s)"

definition termFreq :: "string list \<Rightarrow> string \<Rightarrow> nat" where
  "termFreq tokens term = length (filter (\<lambda>t. t = term) tokens)"

text \<open>The document frequency loop: once per occurrence of a term in the query.\<close>

definition doc_freq :: "string list list \<Rightarrow> string list \<Rightarrow> (string, int) gomap" where
  "doc_freq docs queryTerms =
     fold (\<lambda>term. fold (\<lambda>doc m. if termFreq doc term > 0 then count_add term m else m) docs) queryTerms []"

definition idf :: "nat \<Rightarrow> int \<Rightarrow> real" where
  "idf n d = ln (1 + (real n - real_of_int d + 1/2) / (real_of_int d + 1/2))"

definition bm25_score ::
  "BM25Filter \<Rightarrow> nat \<Rightarrow> real \<Rightarrow> (string, int) gomap \<Rightarrow> string list \<Rightarrow> string list \<Rightarrow> real" where
  "bm25_score f n avgDL df queryTerms doc =
     (let dl = real (length doc)
      in sum_list (map (\<lambda>term.
           let tf = real (termFreq doc term)
           in idf n (count_of df term) * (tf * (k1 f + 1))
              / (tf + k1 f * (1 - bm_b f + bm_b f * dl / avgDL))) queryTerms))"

definition bm25_scores :: "unicode_tables \<Rightarrow> BM25Filter \<Rightarrow> string list \<Rightarrow> string \<Rightarrow> (nat \<times> real) list" where
  "bm25_scores U f chunks query =
     (let queryTerms = tokenize U query;
          docs = map (tokenize U) chunks;
          n = length chunks;
          avgDL = real (sum_list (map length docs)) / real n;
          df = doc_freq docs queryTerms
      in map (\<lambda>i. (i, bm25_score f n avgDL df queryTerms (docs ! i))) [0..<n])"

text \<open>A negative \<open>topK\<close> makes the slice expressions panic.\<close>

definition BM25_Filter ::
  "unicode_tables \<Rightarrow> ((nat \<times> real) list \<Rightarrow> (nat \<times> real) list) \<Rightarrow> BM25Filter
   \<Rightarrow> string list \<Rightarrow> string \<Rightarrow> string list option" where
  "BM25_Filter U srt f chunks query =
     (if length chunks = 0 then Some []
      else if tokenize U query = []
      then (if int (length chunks) \<le> topK f then Some chunks
            else if topK f < 0 then None else Some (take (nat (topK f)) chunks))
      else
        let results = srt (bm25_scores U f chunks query);
            k = (if topK f > int (length chunks) then int (length chunks) else topK f)
        in if k < 0 then None else Some (map (\<lambda>r. chunks ! fst r) (take (nat k) results)))"

text \<open>What \<open>sort.Slice\<close> promises for the comparison on scores.\<close>

locale score_sorter =
  fixes srt :: "(nat \<times> real) list \<Rightarrow> (nat \<times> real) list"
  assumes srt_perm: "mset (srt xs) = mset xs"
    and srt_sorted: "sorted_wrt (\<lambda>a b. snd a \<ge> snd b) (srt xs)"
begin

lemma srt_length: "length (srt xs) = length xs"
  using mset_eq_length[OF srt_perm] .

lemma srt_set: "set (srt xs) = set xs"
  using mset_eq_setD[OF srt_perm] .

lemma top_dominates: "x \<in> set (take k (srt xs)) \<Longrightarrow> y \<in> set (drop k (srt xs)) \<Longrightarrow> snd y \<le> snd x"
  using srt_sorted[of xs] sorted_wrt_append[of "\<lambda>a b. snd a \<ge> snd b" "take k (srt xs)" "drop k (srt xs)"]
  by auto

lemma ranked_indices_distinct: "distinct (map fst xs) \<Longrightarrow> distinct (map fst (srt xs))"
proof -
  assume "distinct (map fst xs)"
  moreover have "mset (map fst (srt xs)) = mset (map fst xs)" by (simp add: srt_perm)
  ultimately show ?thesis using mset_eq_imp_distinct_iff by blast
qed

end

interpretation stable_sorter: score_sorter "sort_desc snd"
  by unfold_locales (simp_all add: sort_desc_sorted)

lemma bm25_scores_fst: "map fst (bm25_scores U f chunks query) = [0..<length chunks]"
  by (simp add: bm25_scores_def Let_def comp_def)

lemma bm25_scores_length [simp]: "length (bm25_scores U f chunks query) = length chunks"
  by (simp add: bm25_scores_def Let_def)

context score_sorter
begin

lemma top_indices:
  assumes "tokenize U query \<noteq> []" "chunks \<noteq> []" "0 \<le> topK f"
  defines "rk \<equiv> srt (bm25_scores U f chunks query)"
  defines "k \<equiv> min (nat (topK f)) (length chunks)"
  shows "BM25_Filter U srt f chunks query = Some (map (\<lambda>r. chunks ! fst r) (take k rk))
    \<and> length (take k rk) = k \<and> distinct (map fst (take k rk))
    \<and> set rk = set (bm25_scores U f chunks query)"
proof -
  have "distinct (map fst rk)"
    unfolding rk_def by (rule ranked_indices_distinct) (simp add: bm25_scores_fst)
  then have "distinct (map fst (take k rk))" by (simp add: take_map[symmetric])
  moreover have "length (take k rk) = k" by (simp add: rk_def srt_length k_def)
  moreover have "BM25_Filter U srt f chunks query = Some (map (\<lambda>r. chunks ! fst r) (take k rk))"
    using assms(1-3) by (auto simp: BM25_Filter_def Let_def rk_def k_def min_def)
  ultimately show ?thesis by (simp add: rk_def srt_set)
qed

end

text \<open>Whatever sorting algorithm \<open>sort.Slice\<close> uses, the BM25 filter returns the
  chunks of \<open>min topK n\<close> distinct positions, and no position left out has a
  higher score than one returned.\<close>

theorem BM25_Filter_top:
  assumes "\<And>xs. mset (srt xs) = mset xs" "\<And>xs. sorted_wrt (\<lambda>a b. snd a \<ge> snd b) (srt xs)"
    "tokenize U query \<noteq> []" "chunks \<noteq> []" "0 \<le> topK f"
  shows "\<exists>top rest. BM25_Filter U srt f chunks query = Some (map (\<lambda>r. chunks ! fst r) top)
    \<and> length top = min (nat (topK f)) (length chunks)
    \<and> mset (top @ rest) = mset (bm25_scores U f chunks query)
    \<and> sorted_wrt (\<lambda>a b. snd a \<ge> snd b) (top @ rest)"
proof -
  have L: "score_sorter srt" by unfold_locales (use assms in auto)
  let ?r = "srt (bm25_scores U f chunks query)"
  let ?k = "min (nat (topK f)) (length chunks)"
  note T = score_sorter.top_indices[OF L assms(3-5)]
  show ?thesis
    by (intro exI[of _ "take ?k ?r"] exI[of _ "drop ?k ?r"]) (use T assms(1,2) in auto)
qed

theorem BM25_Filter_top_witness:
  "\<exists>top rest. BM25_Filter ascii_tables (sort_desc snd) (NewBM25Filter 1) [''go'', ''x''] ''go''
      = Some (map (\<lambda>r. [''go'', ''x''] ! fst r) top)
    \<and> length top = min (nat (topK (NewBM25Filter 1))) (length [''go'', ''x''])
    \<and> mset (top @ rest) = mset (bm25_scores ascii_tables (NewBM25Filter 1) [''go'', ''x''] ''go'')
    \<and> sorted_wrt (\<lambda>a b. snd a \<ge> snd b) (top @ rest)"
proof (rule BM25_Filter_top)
  show "tokenize ascii_tables ''go'' \<noteq> []" by (simp add: tokenize_def ascii_eval)
qed (simp_all add: sort_desc_sorted NewBM25Filter_def)

lemma count_of_docs:
  "count_of (fold (\<lambda>doc m. if termFreq doc term > 0 then count_add term m else m) docs m) t =
     count_of m t + (if t = term then int (length (filter (\<lambda>d. termFreq d term > 0) docs)) else 0)"
  by (induction docs arbitrary: m) auto

lemma doc_freq_count:
  "count_of (doc_freq docs queryTerms) t =
     int (length (filter (\<lambda>q. q = t) queryTerms)) * int (length (filter (\<lambda>d. termFreq d t > 0) docs))"
proof -
  have "count_of (fold (\<lambda>term. fold (\<lambda>doc m. if termFreq doc term > 0 then count_add term m else m) docs) ts m) t
    = count_of m t + int (length (filter (\<lambda>q. q = t) ts)) * int (length (filter (\<lambda>d. termFreq d t > 0) docs))" for ts m
    by (induction ts arbitrary: m) (auto simp: count_of_docs algebra_simps)
  then show ?thesis by (simp add: doc_freq_def)
qed

lemma idf_sign: "0 \<le> d \<Longrightarrow> idf n d < 0 \<longleftrightarrow> int n < d"
proof -
  assume d: "0 \<le> d"
  have "1 + (real n - real_of_int d + 1/2) / (real_of_int d + 1/2) = (real n + 1) / (real_of_int d + 1/2)"
    using d by (simp add: field_simps)
  moreover have "0 < (real n + 1) / (real_of_int d + 1/2)" using d by simp
  moreover have "(real n + 1) / (real_of_int d + 1/2) < 1 \<longleftrightarrow> real n + 1/2 < real_of_int d"
    using d by (simp add: divide_less_eq) linarith
  moreover have "real n + 1/2 < real_of_int d \<longleftrightarrow> int n < d" by linarith
  ultimately show ?thesis by (simp add: idf_def ln_less_zero_iff)
qed

text \<open>The document frequency counts a document once per occurrence of the term in
  the query, so a repeated query term can exceed the number of documents and get
  a negative weight: more occurrences of the term then lower the score.\<close>

theorem repeated_term_negative_idf:
  assumes "int (length docs) < int (length (filter (\<lambda>q. q = t) queryTerms))
     * int (length (filter (\<lambda>d. termFreq d t > 0) docs))"
  shows "idf (length docs) (count_of (doc_freq docs queryTerms) t) < 0"
  using assms idf_sign[of "count_of (doc_freq docs queryTerms) t" "length docs"]
  by (simp add: doc_freq_count)

theorem repeated_term_negative_idf_witness:
  "idf (length [[''go''], [''x'']])
     (count_of (doc_freq [[''go''], [''x'']] [''go'', ''go'', ''go'']) ''go'') < 0"
  by (rule repeated_term_negative_idf) (simp add: termFreq_def)

lemma bm25_ranks_match_last:
  "bm25_score (NewBM25Filter 1) 2 1 (doc_freq [[''go''], [''x'']] [''go'', ''go'', ''go'']) [''go'', ''go'', ''go''] [''go'']
     < bm25_score (NewBM25Filter 1) 2 1 (doc_freq [[''go''], [''x'']] [''go'', ''go'', ''go'']) [''go'', ''go'', ''go''] [''x'']"
proof -
  have "idf 2 3 < 0" using idf_sign[of 3 2] by simp
  moreover have "count_of (doc_freq [[''go''], [''x'']] [''go'', ''go'', ''go'']) ''go'' = 3"
    by (simp add: doc_freq_count termFreq_def)
  ultimately show ?thesis by (simp add: bm25_score_def NewBM25Filter_def termFreq_def Let_def)
qed

end
