(* ===== verification/Block_Cache.thy ===== *)
theory Block_Cache
  imports Prelude
begin

text \<open>
  \<open>fetch/blockcache.go\<close>: the in-process cache of hosts known to block
  direct requests.  Every operation runs under the mutex \<open>mu\<close>, so an
  execution is a sequence of whole operations; the clock reading
  \<open>time.Now()\<close> of each is its argument \<open>now\<close>.  The interface the
  fetcher and the search fan-out rely on is the locale \<open>block_registry\<close>.
\<close>

subsection \<open>State and operations\<close>

definition defaultBlockTTL :: duration where
  "defaultBlockTTL = 10 * 60 * 1000000000"

definition defaultBlockCacheCap :: int where
  "defaultBlockCacheCap = 1024"

record DirectBlockCache =
  items :: "(string, instant) gomap"
  order :: "string list"
  ttl :: duration
  cap :: int

definition NewDirectBlockCache :: "duration \<Rightarrow> int \<Rightarrow> DirectBlockCache" where
  "NewDirectBlockCache t c =
     \<lparr>items = [], order = [],
      ttl = (if t \<le> 0 then defaultBlockTTL else t),
      cap = (if c \<le> 0 then defaultBlockCacheCap else c)\<rparr>"

definition IsBlocked :: "instant \<Rightarrow> string \<Rightarrow> DirectBlockCache \<Rightarrow> bool \<times> DirectBlockCache" where
  "IsBlocked now host c =
     (case map_of (items c) host of
        None \<Rightarrow> (False, c)
      | Some unblockAt \<Rightarrow>
          if now > unblockAt then (False, c\<lparr>items := AList.delete host (items c)\<rparr>)
          else (True, c))"

fun evict_loop :: "string list \<Rightarrow> (string, instant) gomap \<Rightarrow> string list \<times> (string, instant) gomap" where
  "evict_loop [] its = ([], its)"
| "evict_loop (oldest # rest) its =
     (if map_of its oldest \<noteq> None then (rest, AList.delete oldest its)
      else evict_loop rest its)"

definition evictOldest :: "DirectBlockCache \<Rightarrow> DirectBlockCache" where
  "evictOldest c = (let (ord, its) = evict_loop (order c) (items c)
     in c\<lparr>order := ord, items := its\<rparr>)"

definition Mark :: "instant \<Rightarrow> string \<Rightarrow> DirectBlockCache \<Rightarrow> DirectBlockCache" where
  "Mark now host c =
     (let c1 = (if map_of (items c) host = None
                then (let c0 = (if int (length (items c)) \<ge> cap c then evictOldest c else c)
                      in c0\<lparr>order := order c0 @ [host]\<rparr>)
                else c)
      in c1\<lparr>items := AList.update host (now + ttl c1) (items c1)\<rparr>)"

definition Unmark :: "string \<Rightarrow> DirectBlockCache \<Rightarrow> DirectBlockCache" where
  "Unmark host c =
     (if map_of (items c) host = None then c
      else c\<lparr>items := AList.delete host (items c), order := remove1 host (order c)\<rparr>)"

definition Len :: "DirectBlockCache \<Rightarrow> int" where
  "Len c = int (length (items c))"

subsection \<open>Well-formedness\<close>

text \<open>
  The keys of the map are distinct, every tracked host is in the eviction
  queue, the capacity is positive and respected.
\<close>

definition bc_wf :: "DirectBlockCache \<Rightarrow> bool" where
  "bc_wf c \<longleftrightarrow> map_wf (items c) \<and> fst ` set (items c) \<subseteq> set (order c)
     \<and> 0 < cap c \<and> int (length (items c)) \<le> cap c"

lemma bc_wf_New [inv_rules]: "bc_wf (NewDirectBlockCache t c)"
  by (auto simp: bc_wf_def NewDirectBlockCache_def defaultBlockCacheCap_def)

lemma bc_wf_IsBlocked [inv_rules]: "bc_wf c \<Longrightarrow> bc_wf (snd (IsBlocked now h c))"
  using AList.length_delete_le[of h "items c"]
  by (auto simp: bc_wf_def IsBlocked_def split: option.splits)

lemma evict_loop_wf:
  assumes "evict_loop ord its = (ord', its')" "map_wf its" "fst ` set its \<subseteq> set ord" "its \<noteq> []"
  shows "map_wf its' \<and> fst ` set its' \<subseteq> set ord' \<and> Suc (length its') = length its"
  using assms
proof (induction ord its rule: evict_loop.induct)
  case (2 oldest rest its)
  show ?case
  proof (cases "map_of its oldest = None")
    case True
    with 2 show ?thesis by (auto simp: map_of_eq_None_iff)
  next
    case False
    then have "oldest \<in> fst ` set its" by (auto simp: map_of_eq_None_iff)
    then have "Suc (length (AList.delete oldest its)) = length its"
      using 2 by (intro length_delete_mem)
    moreover have "ord' = rest" "its' = AList.delete oldest its" using 2 False by auto
    moreover have "fst ` set its \<subseteq> insert oldest (set rest)" using 2 by simp
    moreover have "fst ` set its - {oldest} \<subseteq> set rest" using calculation(4) by blast
    ultimately show ?thesis using 2(3) by simp
  qed
qed auto

lemma bc_wf_evictOldest:
  assumes "bc_wf c" "items c \<noteq> []"
  shows "map_wf (items (evictOldest c)) \<and> fst ` set (items (evictOldest c)) \<subseteq> set (order (evictOldest c))
     \<and> Suc (length (items (evictOldest c))) = length (items c)"
proof -
  obtain ord its where e: "evict_loop (order c) (items c) = (ord, its)" by (cases "evict_loop (order c) (items c)")
  with evict_loop_wf[OF e] assms show ?thesis by (auto simp: evictOldest_def bc_wf_def)
qed

lemma evictOldest_params [simp]:
  "ttl (evictOldest c) = ttl c" "cap (evictOldest c) = cap c"
  by (simp_all add: evictOldest_def split: prod.split)

lemma bc_wf_Mark [inv_rules]: "bc_wf c \<Longrightarrow> bc_wf (Mark now h c)"
proof -
  assume wf: "bc_wf c"
  show ?thesis
  proof (cases "map_of (items c) h = None \<and> int (length (items c)) \<ge> cap c")
    case True
    then have "items c \<noteq> []" using wf by (auto simp: bc_wf_def)
    from bc_wf_evictOldest[OF wf this] wf True show ?thesis
      by (auto simp: Mark_def bc_wf_def Let_def length_update)
  next
    case False
    with wf show ?thesis
      by (auto simp: Mark_def bc_wf_def Let_def length_update map_of_eq_None_iff)
  qed
qed

lemma bc_wf_Unmark [inv_rules]: "bc_wf c \<Longrightarrow> bc_wf (Unmark h c)"
  using AList.length_delete_le[of h "items c"]
  by (simp add: Unmark_def bc_wf_def set_remove1_superset)

lemma Mark_items: "map_of (items (Mark now h c)) h = Some (now + ttl c)"
  by (simp add: Mark_def Let_def update_conv' split: if_splits)

lemma Unmark_items: "map_of (items (Unmark h c)) = (map_of (items c))(h := None)"
  by (auto simp: Unmark_def delete_conv')

lemma Mark_params [simp]: "ttl (Mark now h c) = ttl c" "cap (Mark now h c) = cap c"
  by (simp_all add: Mark_def Let_def)

subsection \<open>The interface its clients rely on\<close>

text \<open>A history: the operations in the order they took the mutex.\<close>

datatype bc_op = MarkOp instant string | UnmarkOp string | QueryOp instant string

fun reg_step ::
  "(instant \<Rightarrow> string \<Rightarrow> 's \<Rightarrow> bool \<times> 's) \<Rightarrow> (instant \<Rightarrow> string \<Rightarrow> 's \<Rightarrow> 's) \<Rightarrow> (string \<Rightarrow> 's \<Rightarrow> 's)
   \<Rightarrow> bc_op \<Rightarrow> 's \<Rightarrow> 's" where
  "reg_step q m u (MarkOp t h) s = m t h s"
| "reg_step q m u (UnmarkOp h) s = u h s"
| "reg_step q m u (QueryOp t h) s = snd (q t h s)"

fun marked_hosts :: "bc_op list \<Rightarrow> string set" where
  "marked_hosts [] = {}"
| "marked_hosts (MarkOp t h # ops) = insert h (marked_hosts ops)"
| "marked_hosts (UnmarkOp h # ops) = marked_hosts ops"
| "marked_hosts (QueryOp t h # ops) = marked_hosts ops"

text \<open>Every query of \<open>h\<close> comes by \<open>t\<close>, every new mark lasts at least
  to \<open>t\<close>, and \<open>h\<close> is never unmarked.\<close>

fun keeps_host :: "duration \<Rightarrow> string \<Rightarrow> instant \<Rightarrow> bc_op list \<Rightarrow> bool" where
  "keeps_host w h t [] = True"
| "keeps_host w h t (MarkOp t1 h1 # ops) = ((h1 = h \<longrightarrow> t \<le> t1 + w) \<and> keeps_host w h t ops)"
| "keeps_host w h t (UnmarkOp h1 # ops) = (h1 \<noteq> h \<and> keeps_host w h t ops)"
| "keeps_host w h t (QueryOp t1 h1 # ops) = ((h1 = h \<longrightarrow> t1 \<le> t) \<and> keeps_host w h t ops)"

lemma marked_hosts_append: "marked_hosts (xs @ ys) = marked_hosts xs \<union> marked_hosts ys"
  by (induction xs rule: marked_hosts.induct) auto

lemma finite_marked_hosts [simp]: "finite (marked_hosts ops)"
  by (induction ops rule: marked_hosts.induct) auto

text \<open>
  \<open>until s h\<close> is the instant up to which \<open>h\<close> is blocked.  A mark
  of one host may drop another one (eviction), and drops none while the registry
  has room; a query drops the queried host only when its time has passed.
\<close>

locale block_registry =
  fixes invar :: "'s \<Rightarrow> bool"
    and until :: "'s \<Rightarrow> string \<Rightarrow> instant option"
    and window :: "'s \<Rightarrow> duration"
    and room :: "'s \<Rightarrow> nat"
    and blocked :: "instant \<Rightarrow> string \<Rightarrow> 's \<Rightarrow> bool \<times> 's"
    and mark :: "instant \<Rightarrow> string \<Rightarrow> 's \<Rightarrow> 's"
    and unmark :: "string \<Rightarrow> 's \<Rightarrow> 's"
  assumes invar_blocked: "invar s \<Longrightarrow> invar (snd (blocked now h s))"
    and invar_mark: "invar s \<Longrightarrow> invar (mark now h s)"
    and invar_unmark: "invar s \<Longrightarrow> invar (unmark h s)"
    and window_blocked: "window (snd (blocked now h s)) = window s"
    and window_mark: "window (mark now h s) = window s"
    and window_unmark: "window (unmark h s) = window s"
    and room_blocked: "room (snd (blocked now h s)) = room s"
    and room_mark: "room (mark now h s) = room s"
    and room_unmark: "room (unmark h s) = room s"
    and finite_until: "finite (dom (until s))"
    and blocked_answer: "fst (blocked now h s) \<longleftrightarrow> (\<exists>t. until s h = Some t \<and> now \<le> t)"
    and blocked_until: "until (snd (blocked now h s)) =
          (if fst (blocked now h s) then until s else (until s)(h := None))"
    and mark_until_self: "until (mark now h s) h = Some (now + window s)"
    and mark_until_le: "h' \<noteq> h \<Longrightarrow> until (mark now h s) h' \<in> {None, until s h'}"
    and mark_until_room: "invar s \<Longrightarrow> h' \<noteq> h \<Longrightarrow> card (insert h (dom (until s))) \<le> room s
          \<Longrightarrow> until (mark now h s) h' = until s h'"
    and unmark_until: "until (unmark h s) = (until s)(h := None)"
begin

lemma blocked_after_mark:
  "now \<le> now' \<Longrightarrow> now' \<le> now + window s \<Longrightarrow> fst (blocked now' h (mark now h s))"
  by (simp add: blocked_answer mark_until_self)

lemma not_blocked_after_unmark: "\<not> fst (blocked now h (unmark h s))"
  by (simp add: blocked_answer unmark_until)

lemma expired_not_blocked: "until s h = Some t \<Longrightarrow> t < now \<Longrightarrow> \<not> fst (blocked now h s)"
  by (simp add: blocked_answer)

lemma unmark_other: "h' \<noteq> h \<Longrightarrow> fst (blocked now h' (unmark h s)) = fst (blocked now h' s)"
  by (simp add: blocked_answer unmark_until)

abbreviation run :: "bc_op list \<Rightarrow> 's \<Rightarrow> 's" where
  "run \<equiv> fold (reg_step blocked mark unmark)"

lemma invar_run: "invar s \<Longrightarrow> invar (run ops s)"
proof (induction ops arbitrary: s)
  case (Cons op ops)
  then show ?case by (cases op) (auto simp: invar_blocked invar_mark invar_unmark)
qed simp

lemma window_run: "window (run ops s) = window s"
proof (induction ops arbitrary: s)
  case (Cons op ops)
  then show ?case by (cases op) (auto simp: window_blocked window_mark window_unmark)
qed simp

lemma run_until_from_mark:
  assumes "until s h = None" "until (run ops s) h = Some t"
  shows "\<exists>pre t0 post. ops = pre @ MarkOp t0 h # post \<and> UnmarkOp h \<notin> set post \<and> t = t0 + window s"
  using assms
proof (induction ops arbitrary: t rule: rev_induct)
  case (snoc op ops)
  let ?s = "run ops s"
  have keep: ?case if "until ?s h = Some t" "op \<noteq> UnmarkOp h"
  proof -
    from snoc.IH[OF snoc.prems(1) that(1)] obtain pre t0 post
      where "ops = pre @ MarkOp t0 h # post" "UnmarkOp h \<notin> set post" "t = t0 + window s" by blast
    with that(2) show ?thesis
      by (intro exI[of _ pre] exI[of _ t0] exI[of _ "post @ [op]"]) auto
  qed
  show ?case
  proof (cases op)
    case (MarkOp t1 h1)
    show ?thesis
    proof (cases "h1 = h")
      case True
      with MarkOp snoc.prems show ?thesis
        by (intro exI[of _ ops] exI[of _ t1] exI[of _ "[]"]) (auto simp: mark_until_self window_run)
    next
      case False
      with MarkOp snoc.prems mark_until_le[of h h1 t1 ?s] show ?thesis by (intro keep) auto
    qed
  next
    case (UnmarkOp h1)
    with snoc.prems show ?thesis by (intro keep) (auto simp: unmark_until split: if_splits)
  next
    case (QueryOp t1 h1)
    with snoc.prems show ?thesis by (intro keep) (auto simp: blocked_until split: if_splits)
  qed
qed simp

lemma blocked_run_sound:
  assumes "until s h = None" "fst (blocked now h (run ops s))"
  shows "\<exists>pre t0 post. ops = pre @ MarkOp t0 h # post \<and> UnmarkOp h \<notin> set post \<and> now \<le> t0 + window s"
  using assms run_until_from_mark[OF assms(1)] by (fastforce simp: blocked_answer)

lemma dom_step: "dom (until (reg_step blocked mark unmark op s)) \<subseteq> marked_hosts [op] \<union> dom (until s)"
proof (cases op)
  case (MarkOp t h)
  have "until s x \<noteq> None" if "until (mark t h s) x = Some y" "x \<noteq> h" for x y
    using mark_until_le[OF that(2), of t s] that(1) by (metis empty_iff insert_iff option.distinct(1))
  with MarkOp show ?thesis by (auto simp: dom_def)
qed (auto simp: unmark_until blocked_until split: if_splits)

lemma room_step: "room (reg_step blocked mark unmark op s) = room s"
  by (cases op) (auto simp: room_blocked room_mark room_unmark)

lemma window_step: "window (reg_step blocked mark unmark op s) = window s"
  by (cases op) (auto simp: window_blocked window_mark window_unmark)

lemma keep_step:
  assumes "invar s" "card (marked_hosts [op] \<union> dom (until s)) \<le> room s"
    "until s h = Some t'" "t \<le> t'" "keeps_host (window s) h t [op]"
  shows "\<exists>t''\<ge>t. until (reg_step blocked mark unmark op s) h = Some t''"
proof (cases op)
  case (MarkOp t1 h1)
  show ?thesis
  proof (cases "h1 = h")
    case True
    with MarkOp assms show ?thesis by (auto simp: mark_until_self)
  next
    case False
    with MarkOp assms mark_until_room[of s h h1 t1] show ?thesis by auto
  qed
next
  case (UnmarkOp h1)
  with assms show ?thesis by (auto simp: unmark_until)
next
  case (QueryOp t1 h1)
  with assms show ?thesis by (fastforce simp: blocked_until blocked_answer)
qed

lemma keeps_run:
  assumes "invar s" "card (marked_hosts ops \<union> dom (until s)) \<le> room s"
    "until s h = Some t'" "t \<le> t'" "keeps_host (window s) h t ops"
  shows "\<exists>t''\<ge>t. until (run ops s) h = Some t''"
  using assms
proof (induction ops arbitrary: s t')
  case (Cons op ops)
  let ?s = "reg_step blocked mark unmark op s"
  have mh: "marked_hosts (op # ops) = marked_hosts [op] \<union> marked_hosts ops" by (cases op) auto
  have kh: "keeps_host (window s) h t [op]" "keeps_host (window s) h t ops"
    using Cons.prems(5) by (cases op; simp)+
  have "card (marked_hosts [op] \<union> dom (until s)) \<le> card (marked_hosts (op # ops) \<union> dom (until s))"
    by (intro card_mono) (auto simp: finite_until mh)
  with Cons.prems kh obtain t'' where t'': "t \<le> t''" "until ?s h = Some t''"
    using keep_step[of s op h t' t] by auto
  have "card (marked_hosts ops \<union> dom (until ?s)) \<le> card (marked_hosts (op # ops) \<union> dom (until s))"
    using dom_step[of op s] by (intro card_mono) (auto simp: finite_until mh)
  moreover have "invar ?s" using invar_run[OF Cons.prems(1), of "[op]"] by simp
  ultimately show ?case
    using Cons.IH[of ?s t''] Cons.prems(2) t'' kh(2) by (simp add: room_step window_step)
qed auto

lemma blocked_run_complete:
  assumes "invar s" "dom (until s) = {}"
    "ops = pre @ MarkOp t0 h # post" "card (marked_hosts ops) \<le> room s"
    "keeps_host (window s) h now post" "now \<le> t0 + window s"
  shows "fst (blocked now h (run ops s))"
proof -
  have dom: "dom (until (run ops' s)) \<subseteq> marked_hosts ops'" for ops'
  proof (induction ops' rule: rev_induct)
    case (snoc op ops')
    have "dom (until (run (ops' @ [op]) s)) \<subseteq> marked_hosts [op] \<union> dom (until (run ops' s))"
      using dom_step[of op "run ops' s"] by simp
    also have "\<dots> \<subseteq> marked_hosts (ops' @ [op])"
      using snoc by (simp add: marked_hosts_append le_supI1)
    finally show ?case .
  qed (simp add: assms(2))
  have mh: "marked_hosts (pre @ MarkOp t0 h # post) = insert h (marked_hosts pre \<union> marked_hosts post)"
    by (simp add: marked_hosts_append)
  have room: "room (run xs s) = room s" for xs
    by (induction xs rule: rev_induct) (auto simp: room_step)
  let ?s = "mark t0 h (run pre s)"
  have "dom (until ?s) \<subseteq> insert h (marked_hosts pre)"
    using dom[of pre] dom_step[of "MarkOp t0 h" "run pre s"] by (simp, blast)
  then have "card (marked_hosts post \<union> dom (until ?s)) \<le> card (marked_hosts ops)"
    unfolding assms(3) mh by (intro card_mono) auto
  then have "\<exists>t''\<ge>now. until (run post ?s) h = Some t''"
    using assms invar_run[OF assms(1), of pre]
    by (intro keeps_run) (auto simp: invar_mark room_mark room mark_until_self window_run window_mark)
  then show ?thesis using assms(3) by (auto simp: blocked_answer)
qed

lemma query_other: "h' \<noteq> h \<Longrightarrow> fst (blocked now h' (snd (blocked t h s))) = fst (blocked now h' s)"
  by (simp add: blocked_answer[of now h'] blocked_until)

end

lemma until_evictOldest:
  "map_of (items (evictOldest c)) h \<in> {None, map_of (items c) h}"
proof -
  have "map_of (snd (evict_loop ord its)) h \<in> {None, map_of its h}" for ord its
    by (induction ord its rule: evict_loop.induct) (auto simp: delete_conv')
  then show ?thesis by (simp add: evictOldest_def split: prod.split) (metis snd_conv)
qed

lemma Mark_until_le: "h' \<noteq> h \<Longrightarrow> map_of (items (Mark now h c)) h' \<in> {None, map_of (items c) h'}"
  using until_evictOldest[of c h'] by (auto simp: Mark_def Let_def update_conv')

lemma card_keys: "map_wf m \<Longrightarrow> card (dom (map_of m)) = length m"
  using distinct_card[of "map fst m"] by (simp add: map_wf_def dom_map_of_conv_image_fst)

lemma Mark_until_room:
  assumes "bc_wf c" "h' \<noteq> h" "card (insert h (dom (map_of (items c)))) \<le> nat (cap c)"
  shows "map_of (items (Mark now h c)) h' = map_of (items c) h'"
proof (cases "map_of (items c) h = None")
  case True
  then have "h \<notin> dom (map_of (items c))" by auto
  then have "Suc (length (items c)) \<le> nat (cap c)"
    using assms card_keys[of "items c"] by (auto simp: bc_wf_def finite_dom_map_of)
  then show ?thesis using True assms by (auto simp: Mark_def Let_def update_conv')
next
  case False
  then show ?thesis using assms by (auto simp: Mark_def Let_def update_conv')
qed

interpretation dbc: block_registry bc_wf "\<lambda>c. map_of (items c)" ttl "\<lambda>c. nat (cap c)" IsBlocked Mark Unmark
proof (unfold_locales, goal_cases)
  case (1 c now h)
  then show ?case by (rule bc_wf_IsBlocked)
next
  case (3 c h)
  then show ?case by (rule bc_wf_Unmark)
next
  case (10 c)
  show ?case by (rule finite_dom_map_of)
next
  case (11 now h c)
  show ?case by (auto simp: IsBlocked_def split: option.splits)
next
  case (12 now h c)
  show ?case by (auto simp: IsBlocked_def delete_conv' fun_eq_iff split: option.splits)
next
  case (14 h' h now c)
  then show ?case by (rule Mark_until_le)
next
  case (15 c h' h now)
  then show ?case by (rule Mark_until_room)
next
  case (16 h c)
  show ?case by (rule Unmark_items)
qed (auto simp: bc_wf_Mark Mark_items IsBlocked_def Unmark_def split: option.splits)

subsection \<open>Histories of the cache\<close>

definition bc_run :: "bc_op list \<Rightarrow> DirectBlockCache \<Rightarrow> DirectBlockCache" where
  "bc_run = fold (reg_step IsBlocked Mark Unmark)"

lemma New_fields [simp]:
  "items (NewDirectBlockCache t c) = []"
  "order (NewDirectBlockCache t c) = []"
  "0 < t \<Longrightarrow> ttl (NewDirectBlockCache t c) = t"
  "0 < c \<Longrightarrow> cap (NewDirectBlockCache t c) = c"
  by (simp_all add: NewDirectBlockCache_def)

text \<open>C17: In every history of a new block cache, whatever hosts are marked, unmarked
  and queried and whatever the clock reads, the tracked hosts have distinct
  entries, each of them is in the eviction queue, and there are never more of
  them than the capacity.\<close>

theorem block_cache_invariant: "bc_wf (bc_run ops (NewDirectBlockCache t c))"
  unfolding bc_run_def by (rule dbc.invar_run[OF bc_wf_New])

text \<open>A host is reported blocked only because of a mark no older than the time
  to live that no later unmark revoked: the cache never pins a host beyond its
  TTL, and an unmarked host is probed again.\<close>

theorem blocked_only_if_marked:
  assumes "0 < t" "fst (IsBlocked now h (bc_run ops (NewDirectBlockCache t c)))"
  shows "\<exists>pre t0 post. ops = pre @ MarkOp t0 h # post \<and> UnmarkOp h \<notin> set post \<and> now \<le> t0 + t"
  using dbc.blocked_run_sound[of "NewDirectBlockCache t c" h now ops] assms by (simp add: bc_run_def)

theorem blocked_only_if_marked_witness:
  "\<exists>pre t0 post. [MarkOp 5 ''a.com'', UnmarkOp ''b.com''] = pre @ MarkOp t0 ''a.com'' # post
     \<and> UnmarkOp ''a.com'' \<notin> set post \<and> (7::int) \<le> t0 + 10"
  by (rule blocked_only_if_marked[of 10 7 "''a.com''" "[MarkOp 5 ''a.com'', UnmarkOp ''b.com'']" 4])
    (simp_all add: bc_run_def NewDirectBlockCache_def Mark_def Unmark_def IsBlocked_def)

text \<open>While no more hosts are marked than the cache has room for, a marked host
  stays blocked for its whole TTL: if after its mark at \<open>t0\<close> the host is not
  unmarked, every clock reading for it lies at or before \<open>now\<close>, re-marks
  only extend it and \<open>now\<close> is at most \<open>t0 + ttl\<close>, then it is blocked
  at \<open>now\<close>.  Other hosts' marks, unmarks and expiries do not interfere.\<close>

theorem marked_host_stays_blocked:
  assumes "0 < t" "0 < c" "ops = pre @ MarkOp t0 h # post"
    "card (marked_hosts ops) \<le> nat c" "keeps_host t h now post" "now \<le> t0 + t"
  shows "fst (IsBlocked now h (bc_run ops (NewDirectBlockCache t c)))"
  unfolding bc_run_def
  by (rule dbc.blocked_run_complete[OF bc_wf_New]) (use assms in auto)

theorem marked_host_stays_blocked_witness:
  "fst (IsBlocked 12 ''a.com'' (bc_run [MarkOp 5 ''a.com'', MarkOp 6 ''b.com'', QueryOp 11 ''a.com'']
     (NewDirectBlockCache 10 2)))"
  by (rule marked_host_stays_blocked[of _ _ _ "[]" 5 "''a.com''" "[MarkOp 6 ''b.com'', QueryOp 11 ''a.com'']"])
    (simp_all add: card_insert_if)

text \<open>The eviction queue and the map agree while nothing expires: the queue is then
  the list of tracked hosts in insertion order, and eviction drops its head.\<close>

definition in_order :: "DirectBlockCache \<Rightarrow> bool" where
  "in_order c \<longleftrightarrow> order c = map fst (items c)"

lemma evict_in_order:
  "in_order c \<Longrightarrow> map_wf (items c) \<Longrightarrow> items (evictOldest c) = tl (items c) \<and> order (evictOldest c) = tl (order c)"
  by (cases "items c")
    (auto simp: in_order_def evictOldest_def map_wf_def delete_idem split: prod.splits if_splits)

text \<open>First in, first out: as long as no tracked host has expired under a query,
  marking a new host in a full cache drops exactly the host inserted first and
  appends the new one; all others keep their place and their expiry.\<close>

theorem mark_evicts_first_inserted:
  assumes "bc_wf c" "order c = map fst (items c)" "map_of (items c) h = None"
    "int (length (items c)) = cap c"
  shows "items (Mark now h c) = tl (items c) @ [(h, now + ttl c)]
    \<and> order (Mark now h c) = map fst (items (Mark now h c))"
proof -
  have e: "items (evictOldest c) = tl (items c)" "order (evictOldest c) = tl (order c)"
    using evict_in_order[of c] assms by (auto simp: in_order_def bc_wf_def)
  have "h \<notin> fst ` set (tl (items c))"
    using assms(3) unfolding map_of_eq_None_iff by (cases "items c") auto
  then show ?thesis using assms e
    by (simp add: Mark_def Let_def update_dom_new map_tl)
qed

theorem mark_evicts_first_inserted_witness:
  "items (Mark 3 ''c'' \<lparr>items = [(''a'', 9), (''b'', 8)], order = [''a'', ''b''], ttl = 10, cap = 2\<rparr>)
     = [(''b'', 8), (''c'', 13)]"
  using mark_evicts_first_inserted[of "\<lparr>items = [(''a'', 9), (''b'', 8)], order = [''a'', ''b''], ttl = 10, cap = 2\<rparr>" "''c''" 3]
  by (simp add: bc_wf_def map_wf_def)

text \<open>The comment of \<open>Unmark\<close> says the queue must be pruned with the map, or it
  grows for the life of the process.  \<open>IsBlocked\<close> deletes an expired host
  from the map only.\<close>

definition mark_expire :: "instant \<Rightarrow> string \<Rightarrow> DirectBlockCache \<Rightarrow> DirectBlockCache" where
  "mark_expire now h c = snd (IsBlocked (now + ttl c + 1) h (Mark now h c))"

lemma mark_expire_step:
  assumes "items c = []" "0 < cap c"
  shows "items (mark_expire now h c) = [] \<and> order (mark_expire now h c) = order c @ [h]
    \<and> cap (mark_expire now h c) = cap c \<and> ttl (mark_expire now h c) = ttl c"
  using assms by (simp add: mark_expire_def Mark_def IsBlocked_def)

text \<open>A host that is marked, expires and is marked again leaves one stale queue
  entry per cycle: after \<open>n\<close> cycles the map is empty and the queue holds
  \<open>n\<close> entries, far beyond any capacity.\<close>

theorem expiry_leaks_queue_entries:
  fixes t :: duration
  shows "order ((mark_expire now h ^^ n) (NewDirectBlockCache t c)) = replicate n h
    \<and> Len ((mark_expire now h ^^ n) (NewDirectBlockCache t c)) = 0"
proof -
  have "0 < cap (NewDirectBlockCache t c)" using bc_wf_New[of t c] by (simp add: bc_wf_def)
  then have "items ((mark_expire now h ^^ n) (NewDirectBlockCache t c)) = []
    \<and> order ((mark_expire now h ^^ n) (NewDirectBlockCache t c)) = replicate n h
    \<and> 0 < cap ((mark_expire now h ^^ n) (NewDirectBlockCache t c))"
  proof (induction n)
    case (Suc n)
    then show ?case using mark_expire_step[of "(mark_expire now h ^^ n) (NewDirectBlockCache t c)" now h]
      by (simp add: replicate_append_same)
  qed simp
  then show ?thesis by (simp add: Len_def)
qed

text \<open>The stale entry also breaks first in, first out: with capacity two, a host
  re-marked after an expiry is evicted before the older one.\<close>

theorem stale_entry_evicts_newer_host:
  "map fst (items (bc_run [MarkOp 0 ''a'', QueryOp 20 ''a'', MarkOp 21 ''b'', MarkOp 22 ''a'', MarkOp 23 ''c'']
     (NewDirectBlockCache 10 2))) = [''b'', ''c'']"
  by (simp add: bc_run_def NewDirectBlockCache_def Mark_def IsBlocked_def evictOldest_def)

end
