(* ===== verification/Search_Collect.thy ===== *)
theory Search_Collect
  imports Ws_Results Block_Cache
begin

text \<open>
  \<open>search/direct.go\<close>: collecting the outcomes of the parallel fan-out.
  The collector reads the channel one result at a time; the model takes the
  results in the order they arrive, each with the clock reading used for a mark.
  The goroutines and the channel are a step relation below, so what is shown of
  the collector holds for every interleaving.
\<close>

subsection \<open>Outcomes of one source\<close>

record directResult =
  label :: string
  results :: "Result list"
  err :: "go_error option"
  dur :: duration

record DirectStats =
  Attempted :: nat
  OK :: nat
  Empty :: nat
  Failed :: nat
  Shed :: nat

datatype sr_event =
    SourceResult string string
  | SourceDuration string duration
  | OxEscalation string string

text \<open>\<open>runSourceWithTimeout\<close>: the select between the source's answer and the end of
  its context.  \<open>cause\<close> is \<open>Some (context.Cause(srcCtx))\<close> once
  \<open>srcCtx.Err()\<close> is non-nil.\<close>

datatype race = FnDone "Result list" "go_error option" "go_error option" | CtxDone go_error

fun runSourceWithTimeout :: "string \<Rightarrow> duration \<Rightarrow> race \<Rightarrow> directResult" where
  "runSourceWithTimeout l d (FnDone res e cause) =
     \<lparr>label = l, results = res,
      err = (case (e, cause) of
               (Some e', Some c) \<Rightarrow> if errors_Is e' DeadlineExceeded then Some c else Some e'
             | _ \<Rightarrow> e),
      dur = d\<rparr>"
| "runSourceWithTimeout l d (CtxDone c) = \<lparr>label = l, results = [], err = Some c, dur = d\<rparr>"

subsection \<open>The collector\<close>

record collector =
  all :: "Result list"
  stats :: DirectStats
  cancelled :: bool
  events :: "sr_event list"
  cache :: "DirectBlockCache option"

text \<open>What is fixed while collecting: whether a registry is present, the early-return
  threshold and the escalation allowlist.\<close>

record collect_cfg =
  has_metrics :: bool
  earlyAt :: int
  oxEscalate :: "string list"

definition recordSourceResult :: "collect_cfg \<Rightarrow> string \<Rightarrow> string \<Rightarrow> collector \<Rightarrow> collector" where
  "recordSourceResult g source outcome c =
     (if has_metrics g then c\<lparr>events := events c @ [SourceResult source outcome]\<rparr> else c)"

definition mark_engine :: "instant \<Rightarrow> string \<Rightarrow> collector \<Rightarrow> collector" where
  "mark_engine now l c =
     (case cache c of None \<Rightarrow> c | Some bc \<Rightarrow> c\<lparr>cache := Some (Mark now l bc)\<rparr>)"

definition handleSourceError :: "collect_cfg \<Rightarrow> instant \<Rightarrow> string \<Rightarrow> go_error \<Rightarrow> collector \<Rightarrow> collector" where
  "handleSourceError g now l e c =
     (if As_RateLimited e \<noteq> None
      then mark_engine now l (recordSourceResult g l ''captcha'' c)
      else if errors_Is e errPerSourceTimeout \<and> l \<in> set (oxEscalate g)
      then mark_engine now l (recordSourceResult g l ''timeout'' c)
      else if \<not> errors_Is e Canceled \<and> \<not> errors_Is e DeadlineExceeded \<and> l \<in> set (oxEscalate g)
      then mark_engine now l (recordSourceResult g l ''blocked'' c)
      else recordSourceResult g l ''fail'' c)"

definition observe_duration :: "collect_cfg \<Rightarrow> directResult \<Rightarrow> collector \<Rightarrow> collector" where
  "observe_duration g r c =
     (if has_metrics g then c\<lparr>events := events c @ [SourceDuration (label r) (dur r)]\<rparr> else c)"

definition bump_stats :: "(DirectStats \<Rightarrow> DirectStats) \<Rightarrow> collector \<Rightarrow> collector" where
  "bump_stats f c = c\<lparr>stats := f (stats c)\<rparr>"

text \<open>One iteration of \<open>for r := range ch\<close>.\<close>

definition collect_step :: "collect_cfg \<Rightarrow> instant \<times> directResult \<Rightarrow> collector \<Rightarrow> collector" where
  "collect_step g x c =
     (let (now, r) = x in
      if (case err r of Some e \<Rightarrow> errors_Is e ErrMarginaliaQuotaExhausted | None \<Rightarrow> False)
      then recordSourceResult g (label r) ''shed'' (bump_stats (\<lambda>s. s\<lparr>Shed := Suc (Shed s)\<rparr>) c)
      else
        let c = observe_duration g r (bump_stats (\<lambda>s. s\<lparr>Attempted := Suc (Attempted s)\<rparr>) c)
        in case err r of
             Some e \<Rightarrow> handleSourceError g now (label r) e (bump_stats (\<lambda>s. s\<lparr>Failed := Suc (Failed s)\<rparr>) c)
           | None \<Rightarrow>
               if results r = []
               then recordSourceResult g (label r) ''empty'' (bump_stats (\<lambda>s. s\<lparr>Empty := Suc (Empty s)\<rparr>) c)
               else
                 let c = recordSourceResult g (label r) ''ok'' (bump_stats (\<lambda>s. s\<lparr>OK := Suc (OK s)\<rparr>) c);
                     c = c\<lparr>all := all c @ results r\<rparr>
                 in if \<not> cancelled c \<and> int (length (all c)) \<ge> earlyAt g then c\<lparr>cancelled := True\<rparr> else c)"

definition empty_collector :: "DirectBlockCache option \<Rightarrow> collector" where
  "empty_collector bc =
     \<lparr>all = [], stats = \<lparr>Attempted = 0, OK = 0, Empty = 0, Failed = 0, Shed = 0\<rparr>,
      cancelled = False, events = [], cache = bc\<rparr>"

definition collectResults ::
  "collect_cfg \<Rightarrow> DirectBlockCache option \<Rightarrow> (instant \<times> directResult) list \<Rightarrow> collector" where
  "collectResults g bc arrivals = fold (collect_step g) arrivals (empty_collector bc)"

subsection \<open>Classification of a result\<close>

definition is_shed :: "directResult \<Rightarrow> bool" where
  "is_shed r \<longleftrightarrow> (\<exists>e. err r = Some e \<and> errors_Is e ErrMarginaliaQuotaExhausted)"

definition is_okay :: "directResult \<Rightarrow> bool" where
  "is_okay r \<longleftrightarrow> err r = None \<and> results r \<noteq> []"

text \<open>The errors that mark the engine in the block cache.\<close>

definition marks :: "string list \<Rightarrow> directResult \<Rightarrow> bool" where
  "marks ox r \<longleftrightarrow> \<not> is_shed r \<and> (\<exists>e. err r = Some e \<and>
     (As_RateLimited e \<noteq> None
      \<or> label r \<in> set ox \<and> (errors_Is e errPerSourceTimeout
           \<or> \<not> errors_Is e Canceled \<and> \<not> errors_Is e DeadlineExceeded)))"

lemma recordSourceResult_frame [simp]:
  "all (recordSourceResult g s out c) = all c" "stats (recordSourceResult g s out c) = stats c"
  "cancelled (recordSourceResult g s out c) = cancelled c" "cache (recordSourceResult g s out c) = cache c"
  by (simp_all add: recordSourceResult_def)

lemma observe_frame [simp]:
  "all (observe_duration g r c) = all c" "stats (observe_duration g r c) = stats c"
  "cancelled (observe_duration g r c) = cancelled c" "cache (observe_duration g r c) = cache c"
  by (simp_all add: observe_duration_def)

lemma bump_frame [simp]:
  "all (bump_stats f c) = all c" "stats (bump_stats f c) = f (stats c)"
  "cancelled (bump_stats f c) = cancelled c" "cache (bump_stats f c) = cache c"
  by (simp_all add: bump_stats_def)

lemma mark_engine_frame [simp]:
  "all (mark_engine now l c) = all c" "stats (mark_engine now l c) = stats c"
  "cancelled (mark_engine now l c) = cancelled c"
  "cache (mark_engine now l c) = map_option (Mark now l) (cache c)"
  by (simp_all add: mark_engine_def split: option.split)

lemma handle_frame [simp]:
  "all (handleSourceError g now l e c) = all c" "stats (handleSourceError g now l e c) = stats c"
  "cancelled (handleSourceError g now l e c) = cancelled c"
  by (simp_all add: handleSourceError_def)

lemma step_cache:
  "cache (collect_step g (now, r) c) =
     (if marks (oxEscalate g) r then map_option (Mark now (label r)) (cache c) else cache c)"
  by (auto simp: collect_step_def handleSourceError_def marks_def is_shed_def Let_def split: option.split)

lemma step_all: "all (collect_step g (now, r) c) = all c @ (if is_okay r then results r else [])"
  by (auto simp: collect_step_def is_okay_def Let_def split: option.split)

lemma step_stats:
  "stats (collect_step g (now, r) c) =
     (if is_shed r then (stats c)\<lparr>Shed := Suc (Shed (stats c))\<rparr>
      else (stats c)\<lparr>Attempted := Suc (Attempted (stats c)),
             OK := OK (stats c) + of_bool (is_okay r),
             Empty := Empty (stats c) + of_bool (err r = None \<and> results r = []),
             Failed := Failed (stats c) + of_bool (err r \<noteq> None)\<rparr>)"
  by (auto simp: collect_step_def is_okay_def is_shed_def Let_def split: option.split)

lemma step_cancelled:
  "cancelled (collect_step g (now, r) c) =
     (cancelled c \<or> is_okay r \<and> int (length (all c @ results r)) \<ge> earlyAt g)"
  by (auto simp: collect_step_def is_okay_def Let_def split: option.split)

lemmas step_simps = step_cache step_all step_stats step_cancelled

subsection \<open>Accounting\<close>

lemma collect_snoc:
  "collectResults g bc (xs @ [x]) = collect_step g x (collectResults g bc xs)"
  by (simp add: collectResults_def)

lemma collect_Nil [simp]: "collectResults g bc [] = empty_collector bc"
  by (simp add: collectResults_def)

lemma collect_stats:
  "stats (collectResults g bc arr) =
     \<lparr>Attempted = length (filter (\<lambda>(_, r). \<not> is_shed r) arr),
      OK = length (filter (\<lambda>(_, r). \<not> is_shed r \<and> is_okay r) arr),
      Empty = length (filter (\<lambda>(_, r). \<not> is_shed r \<and> err r = None \<and> results r = []) arr),
      Failed = length (filter (\<lambda>(_, r). \<not> is_shed r \<and> err r \<noteq> None) arr),
      Shed = length (filter (\<lambda>(_, r). is_shed r) arr)\<rparr>"
proof (induction arr rule: rev_induct)
  case (snoc x xs)
  obtain now r where "x = (now, r)" by (cases x)
  with snoc show ?case by (simp add: collect_snoc step_stats)
qed (simp add: empty_collector_def)

lemma collect_all:
  "all (collectResults g bc arr) = concat (map (results \<circ> snd) (filter (is_okay \<circ> snd) arr))"
proof (induction arr rule: rev_induct)
  case (snoc x xs)
  obtain now r where "x = (now, r)" by (cases x)
  with snoc show ?case by (simp add: collect_snoc step_all)
qed (simp add: empty_collector_def)

lemma partition3:
  "(\<And>x. x \<in> set xs \<Longrightarrow> P x = (Q x \<or> R x \<or> S x) \<and> \<not> (Q x \<and> R x) \<and> \<not> (Q x \<and> S x) \<and> \<not> (R x \<and> S x))
   \<Longrightarrow> length (filter P xs) = length (filter Q xs) + length (filter R xs) + length (filter S xs)"
  by (induction xs) auto

text \<open>Whatever arrives and in whatever order, every leg is counted exactly once:
  attempted = ok + empty + failed, attempted + shed is the number of legs, and a
  budget shed is never an attempt.  The merged results are those of the
  successful legs, in arrival order.\<close>

theorem collect_accounting:
  fixes g bc arr
  defines "c \<equiv> collectResults g bc arr"
  shows "Attempted (stats c) = OK (stats c) + Empty (stats c) + Failed (stats c)
    \<and> Attempted (stats c) + Shed (stats c) = length arr
    \<and> Shed (stats c) = length (filter (\<lambda>(_, r). is_shed r) arr)
    \<and> OK (stats c) = length (filter (\<lambda>(_, r). is_okay r) arr)
    \<and> all c = concat (map (results \<circ> snd) (filter (is_okay \<circ> snd) arr))"
proof (intro conjI)
  show "Attempted (stats c) = OK (stats c) + Empty (stats c) + Failed (stats c)"
    unfolding c_def collect_stats DirectStats.simps by (rule partition3) (auto simp: is_okay_def)
  show "Attempted (stats c) + Shed (stats c) = length arr"
    unfolding c_def collect_stats by (induction arr) auto
  show "OK (stats c) = length (filter (\<lambda>(_, r). is_okay r) arr)"
  proof -
    have "filter (\<lambda>(_, r). \<not> is_shed r \<and> is_okay r) arr = filter (\<lambda>(_, r). is_okay r) arr"
      by (rule filter_cong) (auto simp: is_okay_def is_shed_def)
    then show ?thesis by (simp add: c_def collect_stats)
  qed
qed (simp_all add: c_def collect_stats collect_all)

text \<open>The remaining sources are cancelled when, and only when, some successful leg
  brings the merged results to the early-return threshold; the results kept may
  exceed it.\<close>

theorem collect_cancels_at_threshold:
  "cancelled (collectResults g bc arr) \<longleftrightarrow>
     (\<exists>pre now r post. arr = pre @ (now, r) # post \<and> is_okay r
        \<and> earlyAt g \<le> int (length (all (collectResults g bc (pre @ [(now, r)])))))"
proof (induction arr rule: rev_induct)
  case Nil
  then show ?case by (simp add: empty_collector_def)
next
  case (snoc x xs)
  obtain now r where x: "x = (now, r)" by (cases x)
  have "cancelled (collectResults g bc (xs @ [x])) \<longleftrightarrow> cancelled (collectResults g bc xs) \<or> is_okay r
      \<and> earlyAt g \<le> int (length (all (collectResults g bc (xs @ [(now, r)]))))"
    by (auto simp: x collect_snoc step_cancelled step_all)
  also have "\<dots> \<longleftrightarrow> (\<exists>pre now r post. xs @ [x] = pre @ (now, r) # post \<and> is_okay r
        \<and> earlyAt g \<le> int (length (all (collectResults g bc (pre @ [(now, r)])))))"
    (is "_ \<longleftrightarrow> ?rhs")
  proof
    assume "cancelled (collectResults g bc xs) \<or> is_okay r
        \<and> earlyAt g \<le> int (length (all (collectResults g bc (xs @ [(now, r)]))))"
    then show ?rhs
    proof
      assume "cancelled (collectResults g bc xs)"
      then obtain pre now' r' post where "xs = pre @ (now', r') # post" "is_okay r'"
        "earlyAt g \<le> int (length (all (collectResults g bc (pre @ [(now', r')]))))" using snoc by blast
      then show ?rhs by (intro exI[of _ pre] exI[of _ now'] exI[of _ r'] exI[of _ "post @ [x]"]) simp
    next
      assume "is_okay r \<and> earlyAt g \<le> int (length (all (collectResults g bc (xs @ [(now, r)]))))"
      then show ?rhs using x by (intro exI[of _ xs] exI[of _ now] exI[of _ r] exI[of _ "[]"]) simp
    qed
  next
    assume ?rhs
    then obtain pre now' r' post where e: "xs @ [x] = pre @ (now', r') # post" and k: "is_okay r'"
      "earlyAt g \<le> int (length (all (collectResults g bc (pre @ [(now', r')]))))" by blast
    show "cancelled (collectResults g bc xs) \<or> is_okay r
        \<and> earlyAt g \<le> int (length (all (collectResults g bc (xs @ [(now, r)]))))"
    proof (cases post rule: rev_cases)
      case Nil
      with e x k show ?thesis by simp
    next
      case (snoc p y)
      with e have "xs = pre @ (now', r') # p" by simp
      with \<open>cancelled (collectResults g bc xs) = _\<close> k show ?thesis by blast
    qed
  qed
  finally show ?case .
qed

subsection \<open>Marks\<close>

definition mark_ops :: "string list \<Rightarrow> (instant \<times> directResult) list \<Rightarrow> bc_op list" where
  "mark_ops ox arr = map (\<lambda>(now, r). MarkOp now (label r)) (filter (\<lambda>(_, r). marks ox r) arr)"

lemma collect_cache:
  "cache (collectResults g bc arr) = map_option (bc_run (mark_ops (oxEscalate g) arr)) bc"
proof (induction arr rule: rev_induct)
  case Nil
  then show ?case by (cases bc) (simp_all add: empty_collector_def mark_ops_def bc_run_def)
next
  case (snoc x xs)
  obtain now r where "x = (now, r)" by (cases x)
  with snoc show ?case
    by (cases bc) (simp_all add: collect_snoc step_cache mark_ops_def bc_run_def)
qed

text \<open>C20: An engine that was not in the block cache is blocked after the fan-out only
  because one of its own results carried a rate-limit error, or it is on the
  escalation allowlist and failed for another reason than cancellation or an
  inherited deadline; a per-source timeout counts as such a reason.\<close>

theorem collect_marks_sound:
  assumes "map_of (items c) l = None" "cache (collectResults g (Some c) arr) = Some c'"
    "fst (IsBlocked now l c')"
  shows "\<exists>t r e. (t, r) \<in> set arr \<and> label r = l \<and> err r = Some e \<and> now \<le> t + ttl c
    \<and> \<not> errors_Is e ErrMarginaliaQuotaExhausted
    \<and> (As_RateLimited e \<noteq> None \<or> l \<in> set (oxEscalate g)
         \<and> (errors_Is e errPerSourceTimeout \<or> \<not> (errors_Is e Canceled \<or> errors_Is e DeadlineExceeded)))"
proof -
  have c': "c' = bc_run (mark_ops (oxEscalate g) arr) c" using assms(2) by (simp add: collect_cache)
  from dbc.blocked_run_sound[of c l now "mark_ops (oxEscalate g) arr"] assms(1,3)
  obtain pre t post where "mark_ops (oxEscalate g) arr = pre @ MarkOp t l # post" "now \<le> t + ttl c"
    by (auto simp: c' bc_run_def)
  then have "MarkOp t l \<in> set (mark_ops (oxEscalate g) arr)" by simp
  then obtain r where "(t, r) \<in> set arr" "label r = l" "marks (oxEscalate g) r"
    by (auto simp: mark_ops_def)
  moreover from this obtain e where "err r = Some e" "\<not> errors_Is e ErrMarginaliaQuotaExhausted"
    "As_RateLimited e \<noteq> None \<or> label r \<in> set (oxEscalate g) \<and> (errors_Is e errPerSourceTimeout
       \<or> \<not> errors_Is e Canceled \<and> \<not> errors_Is e DeadlineExceeded)"
    by (auto simp: marks_def is_shed_def)
  ultimately show ?thesis using \<open>now \<le> t + ttl c\<close>
    by (intro exI[of _ t] exI[of _ r] exI[of _ e]) auto
qed

theorem collect_marks_sound_witness:
  "\<exists>t r e. (t, r) \<in> set [(5::int, \<lparr>label = ''ddg'', results = [], err = Some (ErrRateLimited ''ddg'' 0), dur = 1\<rparr>)]
     \<and> label r = ''ddg'' \<and> err r = Some e \<and> 7 \<le> t + 10"
proof -
  let ?g = "\<lparr>has_metrics = False, earlyAt = 10, oxEscalate = []\<rparr>"
  let ?a = "[(5::int, \<lparr>label = ''ddg'', results = [], err = Some (ErrRateLimited ''ddg'' 0), dur = 1\<rparr>)]"
  let ?c = "NewDirectBlockCache 10 4"
  obtain c' where c': "cache (collectResults ?g (Some ?c) ?a) = Some c'" by (simp add: collect_cache)
  then have "fst (IsBlocked 7 ''ddg'' c')"
    by (simp add: collect_cache mark_ops_def marks_def is_shed_def bc_run_def)
      (auto simp: NewDirectBlockCache_def Mark_def IsBlocked_def)
  from collect_marks_sound[OF _ c' this] show ?thesis by (auto simp: NewDirectBlockCache_def)
qed

text \<open>Conversely a result with a marking error leaves its engine blocked for the TTL,
  provided the clock does not run backwards over the arrivals and the cache has
  room for the engines marked.\<close>

theorem collect_marks_complete:
  assumes "arr = pre @ (t, r) # post" "marks (oxEscalate g) r"
    "list_all (\<lambda>(t', r'). t \<le> t') post"
    "card (label ` snd ` set arr) \<le> nat n" "0 < n" "0 < d" "now \<le> t + d"
    "cache (collectResults g (Some (NewDirectBlockCache d n)) arr) = Some c'"
  shows "fst (IsBlocked now (label r) c')"
proof -
  let ?ops = "mark_ops (oxEscalate g) arr"
  let ?post = "mark_ops (oxEscalate g) post"
  have ops: "?ops = mark_ops (oxEscalate g) pre @ MarkOp t (label r) # ?post"
    using assms(1,2) by (simp add: mark_ops_def)
  have mh: "marked_hosts (mark_ops ox xs) \<subseteq> label ` snd ` set xs" for ox xs
    by (induction xs) (auto simp: mark_ops_def)
  have "card (marked_hosts ?ops) \<le> card (label ` snd ` set arr)"
    using mh by (intro card_mono) auto
  moreover have "keeps_host d (label r) now ?post"
    using assms(3,7) by (induction post) (auto simp: mark_ops_def)
  ultimately have "fst (IsBlocked now (label r) (bc_run ?ops (NewDirectBlockCache d n)))"
    unfolding bc_run_def using assms(4-7)
    by (intro dbc.blocked_run_complete[OF bc_wf_New _ ops]) auto
  then show ?thesis using assms(8) by (simp add: collect_cache)
qed

theorem collect_marks_complete_witness:
  "fst (IsBlocked 9 ''ddg'' (the (cache (collectResults \<lparr>has_metrics = True, earlyAt = 10, oxEscalate = [''ddg'']\<rparr>
     (Some (NewDirectBlockCache 10 4)) [(5, \<lparr>label = ''ddg'', results = [], err = Some errPerSourceTimeout, dur = 1\<rparr>)]))))"
proof -
  let ?g = "\<lparr>has_metrics = True, earlyAt = 10, oxEscalate = [''ddg'']\<rparr>"
  let ?r = "\<lparr>label = ''ddg'', results = [], err = Some errPerSourceTimeout, dur = 1\<rparr>"
  obtain c' where c': "cache (collectResults ?g (Some (NewDirectBlockCache 10 4)) [(5, ?r)]) = Some c'"
    by (simp add: collect_cache)
  have "fst (IsBlocked 9 (label ?r) c')"
    by (rule collect_marks_complete[of _ "[]" 5 ?r "[]" ?g 4 10, OF _ _ _ _ _ _ _ c'])
      (simp_all add: marks_def is_shed_def)
  then show ?thesis using c' by simp
qed

end
