(* ===== verification/Work_System.thy ===== *)
theory Work_System
  imports Main
begin

text \<open>
  The contract of a group of goroutines that a function waits for: a step relation, an invariant
  of its states, the final states, and a bound of the steps still to do.  Two versions: in a
  \<open>bounded_system\<close> a step does at least one unit of work, in a \<open>work_system\<close> exactly
  one.  A bounded system has no infinite run and no deadlock; a work system is final after a
  number of steps known from the start, however the goroutines interleave.
\<close>

locale bounded_system =
  fixes step :: "'s \<Rightarrow> 's \<Rightarrow> bool"
    and inv :: "'s \<Rightarrow> bool"
    and final :: "'s \<Rightarrow> bool"
    and work :: "'s \<Rightarrow> nat"
  assumes keeps_inv: "inv s \<Longrightarrow> step s t \<Longrightarrow> inv t"
    and less_work: "inv s \<Longrightarrow> step s t \<Longrightarrow> work t < work s"
    and final_stops: "inv s \<Longrightarrow> final s \<Longrightarrow> \<not> step s t"
    and moves_on: "inv s \<Longrightarrow> \<not> final s \<Longrightarrow> \<exists>t. step s t"
begin

lemma reach_inv: "step\<^sup>*\<^sup>* s t \<Longrightarrow> inv s \<Longrightarrow> inv t"
  by (induction rule: rtranclp_induct) (auto intro: keeps_inv)

lemma run_bound: "(step ^^ n) s t \<Longrightarrow> inv s \<Longrightarrow> work t + n \<le> work s"
proof (induction n arbitrary: t)
  case (Suc n)
  then obtain u where u: "(step ^^ n) s u" "step u t" by auto
  then have "inv u" using Suc.prems(2) reach_inv relpowp_imp_rtranclp by metis
  with u Suc.IH[OF u(1) Suc.prems(2)] show ?case using less_work[of u t] by simp
qed simp

lemma no_infinite_run: "inv (\<sigma> 0) \<Longrightarrow> \<exists>n. \<not> step (\<sigma> n) (\<sigma> (Suc n))"
proof (rule ccontr)
  assume i: "inv (\<sigma> 0)" and "\<nexists>n. \<not> step (\<sigma> n) (\<sigma> (Suc n))"
  then have "(step ^^ n) (\<sigma> 0) (\<sigma> n)" for n by (induction n) auto
  from run_bound[OF this[of "Suc (work (\<sigma> 0))"] i] show False by simp
qed

lemma stuck_iff_final: "inv s \<Longrightarrow> final s \<longleftrightarrow> \<not> (\<exists>t. step s t)"
  using moves_on final_stops by blast

lemma can_finish: "inv s \<Longrightarrow> \<exists>t. step\<^sup>*\<^sup>* s t \<and> final t"
proof (induction "work s" arbitrary: s rule: less_induct)
  case less
  show ?case
  proof (cases "final s")
    case False
    then obtain u where u: "step s u" using moves_on less.prems by blast
    then obtain t where "step\<^sup>*\<^sup>* u t" "final t"
      using less.hyps[OF less_work[OF less.prems u] keeps_inv[OF less.prems u]] by blast
    with u show ?thesis by (meson converse_rtranclp_into_rtranclp)
  qed blast
qed

lemma never_stuck: "step\<^sup>*\<^sup>* s t \<Longrightarrow> inv s \<Longrightarrow> \<exists>u. step\<^sup>*\<^sup>* t u \<and> final u"
  using can_finish[OF reach_inv] .

end

locale work_system =
  fixes step :: "'s \<Rightarrow> 's \<Rightarrow> bool"
    and inv :: "'s \<Rightarrow> bool"
    and final :: "'s \<Rightarrow> bool"
    and work :: "'s \<Rightarrow> nat"
  assumes inv_step: "inv s \<Longrightarrow> step s t \<Longrightarrow> inv t"
    and work_step: "inv s \<Longrightarrow> step s t \<Longrightarrow> Suc (work t) = work s"
    and final_work: "inv s \<Longrightarrow> final s \<longleftrightarrow> work s = 0"
    and progress: "inv s \<Longrightarrow> \<not> final s \<Longrightarrow> \<exists>t. step s t"

sublocale work_system \<subseteq> bounded_system step inv final work
proof (unfold_locales)
  show "inv s \<Longrightarrow> step s t \<Longrightarrow> inv t" for s t by (rule inv_step)
  show "inv s \<Longrightarrow> step s t \<Longrightarrow> work t < work s" for s t using work_step by fastforce
  show "inv s \<Longrightarrow> final s \<Longrightarrow> \<not> step s t" for s t using work_step[of s t] final_work[of s] by auto
  show "inv s \<Longrightarrow> \<not> final s \<Longrightarrow> \<exists>t. step s t" for s by (rule progress)
qed

context work_system
begin

lemma run_work: "(step ^^ n) s t \<Longrightarrow> inv s \<Longrightarrow> work t + n = work s"
proof (induction n arbitrary: t)
  case (Suc n)
  then obtain u where u: "(step ^^ n) s u" "step u t" by auto
  then have "inv u" using Suc.prems(2) reach_inv relpowp_imp_rtranclp by metis
  with u Suc.IH[OF u(1) Suc.prems(2)] show ?case using work_step[of u t] by simp
qed simp

lemma final_after: "(step ^^ n) s t \<Longrightarrow> inv s \<Longrightarrow> final t \<longleftrightarrow> n = work s"
  using run_work[of n s t] final_work reach_inv[of s t] relpowp_imp_rtranclp[of n step s t] by auto

lemma completes: "inv s \<Longrightarrow> \<exists>t. (step ^^ work s) s t \<and> final t"
proof -
  assume i: "inv s"
  obtain t where t: "step\<^sup>*\<^sup>* s t" "final t" using can_finish[OF i] by blast
  then obtain n where "(step ^^ n) s t" by (metis rtranclp_imp_relpowp)
  with final_after[OF this i] t show ?thesis by blast
qed

end

text \<open>The work left, as a sum over the goroutines, after one of them moves on.\<close>

lemma sum_list_update_nat:
  fixes f :: "'a \<Rightarrow> nat"
  assumes "i < length xs"
  shows "(\<Sum>x \<leftarrow> xs[i := y]. f x) + f (xs ! i) = (\<Sum>x \<leftarrow> xs. f x) + f y"
  using assms by (induction xs arbitrary: i) (auto split: nat.splits)

end
