(* ===== verification/Search_Fanout.thy ===== *)
theory Search_Fanout
  imports Search_Collect Work_System
begin

text \<open>
  \<open>SearchDirect\<close> of \<open>search/direct.go\<close>: the job table, the launch loop
  with its block-cache short cut, and the fan-out itself.  Each launched source
  runs in its own goroutine and sends one result on a channel buffered for all of
  them; the collector receives.  An execution is a sequence of steps, each either
  a source finishing with any result, or the collector taking the next one.
\<close>

subsection \<open>Jobs and launch\<close>

record DirectConfig =
  hasBrowser :: bool
  DDG :: bool
  Startpage :: bool
  Brave :: bool
  Reddit :: bool
  Bing :: bool
  Yep :: bool
  Wikipedia :: bool
  Marginalia :: bool
  Mojeek :: bool
  YandexKey :: string
  DirectTimeRange :: string
  PerSourceTimeout :: duration
  EarlyReturnAt :: int
  OxEscalate :: "string list"
  OxConcurrency :: int
  hasOxFetch :: bool
  hasMetrics :: bool

definition defaultPerSourceTimeout :: duration where
  "defaultPerSourceTimeout = 6000000000"

definition defaultEarlyReturnAt :: int where
  "defaultEarlyReturnAt = 10"

definition direct_jobs :: "DirectConfig \<Rightarrow> (bool \<times> string) list" where
  "direct_jobs cfg =
     [(DDG cfg, ''ddg''), (Startpage cfg, ''startpage''), (Brave cfg, ''brave''),
      (Reddit cfg, ''reddit''), (Bing cfg, ''bing''), (Yep cfg, ''yep''),
      (YandexKey cfg \<noteq> '''', ''yandex''),
      (Wikipedia cfg \<and> DirectTimeRange cfg = '''', ''wikipedia''),
      (Marginalia cfg \<and> DirectTimeRange cfg = '''', ''marginalia''),
      (Mojeek cfg, ''mojeek'')]"

text \<open>The launch loop: disabled jobs and blocked engines are skipped.  \<open>clk\<close> gives
  the clock reading of each cache query.\<close>

fun launch_jobs ::
  "(string \<Rightarrow> instant) \<Rightarrow> (bool \<times> string) list \<Rightarrow> DirectBlockCache option
   \<Rightarrow> string list \<times> DirectBlockCache option" where
  "launch_jobs clk [] bc = ([], bc)"
| "launch_jobs clk ((enabled, l) # js) bc =
     (if \<not> enabled then launch_jobs clk js bc
      else case bc of
        None \<Rightarrow> (let (ls, bc') = launch_jobs clk js None in (l # ls, bc'))
      | Some c \<Rightarrow>
          (let (blocked, c1) = IsBlocked (clk l) l c
           in if blocked then launch_jobs clk js (Some c1)
              else let (ls, bc') = launch_jobs clk js (Some c1) in (l # ls, bc')))"

definition enabled_labels :: "DirectConfig \<Rightarrow> string list" where
  "enabled_labels cfg = map snd (filter fst (direct_jobs cfg))"

definition collect_cfg_of :: "DirectConfig \<Rightarrow> collect_cfg" where
  "collect_cfg_of cfg =
     \<lparr>has_metrics = hasMetrics cfg,
      earlyAt = (if EarlyReturnAt cfg = 0 then defaultEarlyReturnAt else EarlyReturnAt cfg),
      oxEscalate = OxEscalate cfg\<rparr>"

lemma launch_None: "fst (launch_jobs clk js None) = map snd (filter fst js)"
  by (induction js) (auto split: prod.splits)

lemma launch_Some:
  "distinct (map snd js) \<Longrightarrow>
   fst (launch_jobs clk js (Some c)) =
     map snd (filter (\<lambda>(en, l). en \<and> \<not> fst (IsBlocked (clk l) l c)) js)"
proof (induction js arbitrary: c)
  case (Cons j js)
  obtain en l where j: "j = (en, l)" by (cases j)
  define c1 where "c1 = snd (IsBlocked (clk l) l c)"
  have ib: "IsBlocked (clk l) l c = (fst (IsBlocked (clk l) l c), c1)" by (simp add: c1_def)
  have same: "fst (IsBlocked (clk l') l' c1) = fst (IsBlocked (clk l') l' c)" if "l' \<in> snd ` set js" for l'
  proof -
    from that Cons.prems j have "l' \<noteq> l" by auto
    then show ?thesis unfolding c1_def by (rule dbc.query_other)
  qed
  have "filter (\<lambda>(en, l). en \<and> \<not> fst (IsBlocked (clk l) l c1)) js
      = filter (\<lambda>(en, l). en \<and> \<not> fst (IsBlocked (clk l) l c)) js"
    by (rule filter_cong) (use same in force)+
  moreover have "distinct (map snd js)" using Cons.prems by simp
  ultimately show ?case using Cons.IH[of c1] Cons.IH[of c] ib j
    by (cases "fst (IsBlocked (clk l) l c)") (auto split: prod.splits)
qed simp

lemma launch_cache_wf: "bc_wf c \<Longrightarrow> \<exists>c'. snd (launch_jobs clk js (Some c)) = Some c' \<and> bc_wf c'"
proof (induction js arbitrary: c)
  case (Cons j js)
  obtain en l where j: "j = (en, l)" by (cases j)
  have "bc_wf (snd (IsBlocked (clk l) l c))" by (rule bc_wf_IsBlocked[OF Cons.prems])
  with Cons j show ?case by (auto split: prod.splits) (metis snd_conv)+
qed simp

lemma jobs_distinct: "distinct (map snd (direct_jobs cfg))"
  by (simp add: direct_jobs_def)

text \<open>The fan-out launches exactly the enabled engines that the block cache does not
  report as blocked, each once; without a cache, all enabled ones.  Wikipedia
  and Marginalia are left out when a time range is asked for.\<close>

theorem launch_exactly_unblocked:
  "fst (launch_jobs clk (direct_jobs cfg) bc) =
     filter (\<lambda>l. case bc of None \<Rightarrow> True | Some c \<Rightarrow> \<not> fst (IsBlocked (clk l) l c)) (enabled_labels cfg)
   \<and> distinct (enabled_labels cfg)
   \<and> {l. DirectTimeRange cfg \<noteq> '''' \<and> l \<in> {''wikipedia'', ''marginalia''}} \<inter> set (enabled_labels cfg) = {}"
proof (intro conjI)
  show "fst (launch_jobs clk (direct_jobs cfg) bc) =
     filter (\<lambda>l. case bc of None \<Rightarrow> True | Some c \<Rightarrow> \<not> fst (IsBlocked (clk l) l c)) (enabled_labels cfg)"
  proof (cases bc)
    case None
    then show ?thesis by (simp add: launch_None enabled_labels_def)
  next
    case (Some c)
    then show ?thesis
      by (simp add: launch_Some[OF jobs_distinct] enabled_labels_def filter_map comp_def split_def)
  qed
  show "distinct (enabled_labels cfg)"
    unfolding enabled_labels_def using jobs_distinct[of cfg] distinct_map_filter by blast
  show "{l. DirectTimeRange cfg \<noteq> '''' \<and> l \<in> {''wikipedia'', ''marginalia''}} \<inter> set (enabled_labels cfg) = {}"
    by (auto simp: enabled_labels_def direct_jobs_def)
qed

subsection \<open>The fan-out as a state machine\<close>

record fan =
  pending :: "string list"
  chan :: "(instant \<times> directResult) list"
  coll :: collector

inductive fan_step :: "collect_cfg \<Rightarrow> fan \<Rightarrow> fan \<Rightarrow> bool" for g where
  finish: "pending s = xs @ l # ys \<Longrightarrow> label r = l \<Longrightarrow>
    fan_step g s (s\<lparr>pending := xs @ ys, chan := chan s @ [(now, r)]\<rparr>)"
| recv: "chan s = x # rest \<Longrightarrow>
    fan_step g s (s\<lparr>chan := rest, coll := collect_step g x (coll s)\<rparr>)"

inductive fan_reach :: "collect_cfg \<Rightarrow> fan \<Rightarrow> nat \<Rightarrow> fan \<Rightarrow> bool" for g s0 where
  init: "fan_reach g s0 0 s0"
| step: "fan_reach g s0 n s \<Longrightarrow> fan_step g s s' \<Longrightarrow> fan_reach g s0 (Suc n) s'"

inductive_cases fan_stepE: "fan_step g s s'"

definition fan_init :: "string list \<Rightarrow> DirectBlockCache option \<Rightarrow> fan" where
  "fan_init launched bc = \<lparr>pending = launched, chan = [], coll = empty_collector bc\<rparr>"

text \<open>The channel is closed and drained: every goroutine is done and every result received.\<close>

definition fan_done :: "fan \<Rightarrow> bool" where
  "fan_done s \<longleftrightarrow> pending s = [] \<and> chan s = []"

definition fan_work :: "fan \<Rightarrow> nat" where
  "fan_work s = 2 * length (pending s) + length (chan s)"

abbreviation labels :: "(instant \<times> directResult) list \<Rightarrow> string list" where
  "labels xs \<equiv> map (label \<circ> snd) xs"

definition fan_inv :: "collect_cfg \<Rightarrow> string list \<Rightarrow> DirectBlockCache option \<Rightarrow> fan \<Rightarrow> bool" where
  "fan_inv g launched bc s \<longleftrightarrow> (\<exists>processed. coll s = collectResults g bc processed
     \<and> mset (labels processed) + mset (labels (chan s)) + mset (pending s) = mset launched)"

lemma fan_inv_init: "fan_inv g launched bc (fan_init launched bc)"
  unfolding fan_inv_def fan_init_def by (intro exI[of _ "[]"]) simp

lemma fan_inv_step:
  assumes "fan_inv g launched bc s" "fan_step g s s'"
  shows "fan_inv g launched bc s'"
proof -
  obtain p where p: "coll s = collectResults g bc p"
    "mset (labels p) + mset (labels (chan s)) + mset (pending s) = mset launched"
    using assms(1) by (auto simp: fan_inv_def)
  from assms(2) show ?thesis
  proof (cases rule: fan_step.cases)
    case (finish xs l ys r now)
    with p show ?thesis unfolding fan_inv_def by (intro exI[of _ p]) (auto simp: ac_simps)
  next
    case (recv x rest)
    with p show ?thesis unfolding fan_inv_def
      by (intro exI[of _ "p @ [x]"]) (auto simp: collect_snoc ac_simps)
  qed
qed

lemma fan_inv_reach: "fan_reach g (fan_init launched bc) n s \<Longrightarrow> fan_inv g launched bc s"
  by (induction rule: fan_reach.induct) (auto intro: fan_inv_init fan_inv_step)

lemma fan_work_step: "fan_step g s s' \<Longrightarrow> Suc (fan_work s') = fan_work s"
  by (auto simp: fan_work_def elim!: fan_stepE)

lemma fan_progress: "\<not> fan_done s \<Longrightarrow> \<exists>s'. fan_step g s s'"
proof (cases "chan s")
  case Nil
  assume "\<not> fan_done s"
  with Nil obtain l ys where "pending s = [] @ l # ys" by (cases "pending s") (auto simp: fan_done_def)
  from fan_step.finish[OF this, of "\<lparr>label = l, results = [], err = None, dur = 0\<rparr>"] show ?thesis by auto
next
  case (Cons x rest)
  from fan_step.recv[OF this] show ?thesis by blast
qed

interpretation fan: work_system "fan_step g" "fan_inv g launched bc" fan_done fan_work for g launched bc
  by unfold_locales (auto intro: fan_inv_step fan_progress dest: fan_work_step simp: fan_done_def fan_work_def)

lemma fan_reach_steps: "fan_reach g s0 n s \<Longrightarrow> (fan_step g ^^ n) s0 s"
  by (induction rule: fan_reach.induct) auto

lemma fan_inv_bound: "fan_inv g launched bc s \<Longrightarrow> length (chan s) \<le> length launched"
proof -
  assume "fan_inv g launched bc s"
  then obtain p where p: "mset (labels p) + mset (labels (chan s)) + mset (pending s) = mset launched"
    unfolding fan_inv_def by blast
  have "size (mset (labels p) + mset (labels (chan s)) + mset (pending s)) = length launched" unfolding p by simp
  then show ?thesis by simp
qed


text \<open>A run of one source, for the witnesses.\<close>

definition lab_collect :: collect_cfg where
  "lab_collect = \<lparr>has_metrics = False, earlyAt = 1, oxEscalate = []\<rparr>"

lemma lab_fan_run: "\<exists>s. fan_reach lab_collect (fan_init [''ddg''] None) 2 s \<and> fan_done s"
proof -
  let ?r = "\<lparr>label = ''ddg'', results = [], err = None, dur = 0\<rparr>"
  let ?s0 = "fan_init [''ddg''] None"
  let ?s1 = "?s0\<lparr>pending := [] @ [], chan := chan ?s0 @ [(0, ?r)]\<rparr>"
  let ?s2 = "?s1\<lparr>chan := [], coll := collect_step lab_collect (0, ?r) (coll ?s1)\<rparr>"
  have 1: "fan_step lab_collect ?s0 ?s1" by (rule fan_step.finish[where l = "''ddg''"]) (simp_all add: fan_init_def)
  have 2: "fan_step lab_collect ?s1 ?s2" by (rule fan_step.recv) (simp add: fan_init_def)
  have "fan_reach lab_collect ?s0 2 ?s2"
    using fan_reach.step[OF fan_reach.step[OF fan_reach.init 1] 2] by (simp add: numeral_2_eq_2)
  moreover have "fan_done ?s2" by (simp add: fan_done_def fan_init_def)
  ultimately show ?thesis by blast
qed


text \<open>When the fan-out is done, each launched source has delivered exactly one result
  and each is counted once: attempted plus shed is the number of launched
  sources, whatever the interleaving and whatever the sources answered.\<close>

theorem fanout_counts_each_source:
  assumes "fan_reach g (fan_init launched bc) n s" "fan_done s"
  shows "\<exists>arrivals. coll s = collectResults g bc arrivals \<and> mset (labels arrivals) = mset launched
    \<and> Attempted (stats (coll s)) + Shed (stats (coll s)) = length launched"
proof -
  obtain p where p: "coll s = collectResults g bc p" "mset (labels p) = mset launched"
    using fan_inv_reach[OF assms(1)] assms(2) by (auto simp: fan_inv_def fan_done_def)
  have "length p = length launched" using p(2) by (metis length_map mset_eq_length)
  moreover have "Attempted (stats (collectResults g bc p)) + Shed (stats (collectResults g bc p)) = length p"
    unfolding collect_stats by (induction p) auto
  ultimately show ?thesis using p by auto
qed

theorem fanout_counts_each_source_witness:
  "\<exists>(s::fan) arrivals. coll s = collectResults lab_collect None arrivals
     \<and> mset (labels arrivals) = mset [''ddg''] \<and> Attempted (stats (coll s)) + Shed (stats (coll s)) = length [''ddg'']"
  using lab_fan_run fanout_counts_each_source by blast

end
