(* ===== verification/Text_Chunk.thy ===== *)
theory Text_Chunk
  imports Go_Trim
begin

text \<open>
  \<open>text/chunker.go\<close>, \<open>text/token.go\<close>, \<open>text/clean.go\<close>,
  \<open>webtext/clean.go\<close> and \<open>webtext/truncate.go\<close>: splitting text into
  overlapping chunks, token budgets, truncation and cleaning.  A Go slice
  expression out of range panics; the operations that can reach one return
  \<open>None\<close> there.
\<close>

subsection \<open>Chunking\<close>

record CharacterChunker =
  chunkSize :: int
  overlap :: int

text \<open>Go's integer division truncates toward zero.\<close>

definition go_div :: "int \<Rightarrow> int \<Rightarrow> int" where
  "go_div a b = sgn a * sgn b * (\<bar>a\<bar> div \<bar>b\<bar>)"

definition NewCharacterChunker :: "int \<Rightarrow> int \<Rightarrow> CharacterChunker" where
  "NewCharacterChunker sz ov =
     \<lparr>chunkSize = sz, overlap = (if ov \<ge> sz then go_div sz 4 else ov)\<rparr>"

definition NeedsChunking :: "CharacterChunker \<Rightarrow> string \<Rightarrow> bool" where
  "NeedsChunking c s \<longleftrightarrow> int (RuneCount s) > chunkSize c"

text \<open>The scan backward over \<open>[halfPoint, end)\<close>; \<open>None\<close> is the source's -1.\<close>

definition findWordBoundary :: "CharacterChunker \<Rightarrow> rune list \<Rightarrow> nat \<Rightarrow> nat \<Rightarrow> nat option" where
  "findWordBoundary c rs pos e =
     find (\<lambda>i. rs ! i = 32) (rev [nat (int pos + go_div (chunkSize c) 2)..<e])"

definition slice :: "rune list \<Rightarrow> nat \<Rightarrow> nat \<Rightarrow> rune list" where
  "slice rs a b = take (b - a) (drop a rs)"

definition forward :: "nat \<Rightarrow> int \<Rightarrow> nat" where
  "forward pos nxt = (if nxt \<le> int pos then pos + 1 else nat nxt)"

text \<open>The window of runes of the chunk at \<open>pos\<close> and the next position, for a
  non-negative chunk size.\<close>

definition chunk_window :: "CharacterChunker \<Rightarrow> rune list \<Rightarrow> nat \<Rightarrow> nat \<times> nat" where
  "chunk_window c rs pos =
     (let e = pos + nat (chunkSize c)
      in if e \<ge> length rs then (length rs, length rs)
         else case findWordBoundary c rs pos e of
           Some splitAt \<Rightarrow> (splitAt, forward pos (int splitAt + 1 - overlap c))
         | None \<Rightarrow> (e, forward pos (int e - overlap c)))"

definition nextChunk :: "CharacterChunker \<Rightarrow> rune list \<Rightarrow> nat \<Rightarrow> string \<times> nat" where
  "nextChunk c rs pos =
     (let (e, nxt) = chunk_window c rs pos in (TrimSpace (of_runes (slice rs pos e)), nxt))"

lemma nextChunk_progress: "pos < length rs \<Longrightarrow> pos < snd (nextChunk c rs pos)"
  by (auto simp: nextChunk_def chunk_window_def forward_def Let_def split: option.splits)

function chunk_loop :: "CharacterChunker \<Rightarrow> rune list \<Rightarrow> nat \<Rightarrow> string list" where
  "chunk_loop c rs pos =
     (if pos < length rs
      then let (chunk, nxt) = nextChunk c rs pos
           in (if chunk \<noteq> '''' then [chunk] else []) @ chunk_loop c rs nxt
      else [])"
  by pat_completeness auto
termination
proof (relation "measure (\<lambda>(_, rs, pos). length rs - pos)")
  fix c :: CharacterChunker and rs :: "rune list" and pos x chunk nxt
  assume "pos < length rs" "x = nextChunk c rs pos" "(chunk, nxt) = x"
  then have "pos < nxt" using nextChunk_progress[of pos rs c] by (metis snd_conv)
  then show "((c, rs, nxt), (c, rs, pos)) \<in> measure (\<lambda>(_, rs, pos). length rs - pos)"
    using \<open>pos < length rs\<close> by auto
qed simp

declare chunk_loop.simps [simp del]

definition Chunk :: "CharacterChunker \<Rightarrow> string \<Rightarrow> string list option" where
  "Chunk c s =
     (let t = TrimSpace s
      in if t = '''' then Some []
         else if int (length (runes t)) \<le> chunkSize c then Some [t]
         else if chunkSize c < 0 then None
         else Some (chunk_loop c (runes t) 0))"

lemma find_rev_upt_Some:
  "find P (rev [a..<b]) = Some i \<Longrightarrow> a \<le> i \<and> i < b \<and> P i"
  by (auto simp: find_Some_iff rev_nth)

lemma chunk_window_bounds:
  assumes "pos < length rs" "0 \<le> overlap c" "0 \<le> chunkSize c" "chunk_window c rs pos = (e, nxt)"
  shows "e \<le> length rs \<and> e - pos \<le> nat (chunkSize c) \<and> nxt \<le> length rs
    \<and> (nxt \<le> e \<or> nxt = pos + 1 \<or> nxt = e + 1 \<and> e < length rs \<and> rs ! e = 32)
    \<and> (chunkSize c \<noteq> 0 \<longrightarrow> pos \<le> e) \<and> (e = pos \<and> chunkSize c \<noteq> 0 \<longrightarrow> rs ! pos = 32)"
proof -
  have half: "pos \<le> nat (int pos + go_div (chunkSize c) 2)"
    using assms(3) by (simp add: go_div_def sgn_if) linarith
  show ?thesis
  proof (cases "pos + nat (chunkSize c) \<ge> length rs")
    case True
    with assms show ?thesis by (auto simp: chunk_window_def)
  next
    case False
    show ?thesis
    proof (cases "findWordBoundary c rs pos (pos + nat (chunkSize c))")
      case None
      with False assms show ?thesis by (auto simp: chunk_window_def forward_def Let_def split: if_splits)
    next
      case (Some i)
      then have "pos \<le> i" "i < pos + nat (chunkSize c)" "rs ! i = 32"
        using find_rev_upt_Some[OF Some[unfolded findWordBoundary_def]] half by auto
      with Some False assms show ?thesis
        by (auto simp: chunk_window_def forward_def Let_def split: if_splits)
    qed
  qed
qed

lemma slice_length: "length (slice rs a b) \<le> b - a"
  by (simp add: slice_def)

lemma slice_valid: "list_all valid_rune rs \<Longrightarrow> list_all valid_rune (slice rs a b)"
  unfolding slice_def list_all_iff by (meson in_set_dropD in_set_takeD)

lemma chunk_loop_bounded:
  assumes "0 \<le> overlap c" "0 \<le> chunkSize c" "list_all valid_rune rs" "x \<in> set (chunk_loop c rs pos)"
  shows "x \<noteq> '''' \<and> length (runes x) \<le> nat (chunkSize c) \<and> TrimSpace x = x"
  using assms
proof (induction c rs pos rule: chunk_loop.induct)
  case (1 c rs pos)
  show ?case
  proof (cases "pos < length rs")
    case True
    obtain e nxt where w: "chunk_window c rs pos = (e, nxt)" by (cases "chunk_window c rs pos")
    then have nc: "nextChunk c rs pos = (TrimSpace (of_runes (slice rs pos e)), nxt)"
      by (simp add: nextChunk_def)
    have len: "length (runes (TrimSpace (of_runes (slice rs pos e)))) \<le> nat (chunkSize c)"
      using chunk_window_bounds[OF True 1(2,3) w] slice_length[of rs pos e]
        length_trim_runes[of "slice rs pos e"] slice_valid[OF 1(4), of pos e]
      by (simp add: runes_TrimSpace_of_runes)
    from 1(5) True nc have "x = TrimSpace (of_runes (slice rs pos e)) \<and> x \<noteq> '''' \<or> x \<in> set (chunk_loop c rs nxt)"
      by (subst (asm) chunk_loop.simps) (auto split: if_splits)
    with 1(1)[OF True nc[symmetric] refl 1(2-4)] len show ?thesis by auto
  qed (use 1(5) in \<open>simp add: chunk_loop.simps\<close>)
qed

text \<open>Chunking always returns for a non-negative size; every chunk is non-empty,
  free of white space at its ends, and at most \<open>chunkSize\<close> runes long.\<close>

theorem Chunk_bounds:
  assumes "0 \<le> sz" "0 \<le> ov"
  shows "\<exists>xs. Chunk (NewCharacterChunker sz ov) s = Some xs
    \<and> list_all (\<lambda>x. x \<noteq> '''' \<and> int (RuneCount x) \<le> sz \<and> TrimSpace x = x) xs"
proof -
  let ?c = "NewCharacterChunker sz ov"
  have "0 \<le> overlap ?c" "chunkSize ?c = sz"
    using assms by (auto simp: NewCharacterChunker_def go_div_def sgn_if)
  then show ?thesis
    using assms chunk_loop_bounded[of ?c "runes (TrimSpace s)" _ 0, OF _ _ list_all_valid_runes]
    by (fastforce simp: Chunk_def Let_def list_all_iff RuneCount_def)
qed

theorem Chunk_bounds_witness:
  "\<exists>xs. Chunk (NewCharacterChunker 4 9) ''one two three'' = Some xs
    \<and> list_all (\<lambda>x. x \<noteq> '''' \<and> int (RuneCount x) \<le> 4 \<and> TrimSpace x = x) xs"
  by (rule Chunk_bounds) simp_all

lemma trim_nonempty:
  assumes "list_all valid_rune rs" "r \<in> set rs" "\<not> IsSpace r"
  shows "TrimSpace (of_runes rs) \<noteq> ''''"
proof -
  have "r \<in> set (dropWhile IsSpace rs)"
    using assms(2,3) by (metis UnE set_append set_takeWhileD takeWhile_dropWhile_id)
  then have "r \<in> set (dropWhile IsSpace (rev (dropWhile IsSpace rs)))"
    using assms(3) by (metis UnE set_append set_rev set_takeWhileD takeWhile_dropWhile_id)
  then have "trim_runes rs \<noteq> []" unfolding trim_runes_def by (metis empty_iff empty_set rev_is_Nil_conv)
  then show ?thesis
    using runes_TrimSpace_of_runes[OF assms(1)] runes_eq_Nil[of "TrimSpace (of_runes rs)"] by auto
qed

lemma chunk_loop_covers:
  assumes "0 \<le> overlap c" "0 < chunkSize c" "list_all valid_rune rs"
    "pos \<le> i" "i < length rs" "\<not> IsSpace (rs ! i)"
  shows "\<exists>a b. a \<le> i \<and> i < b \<and> b \<le> length rs \<and> b - a \<le> nat (chunkSize c)
    \<and> TrimSpace (of_runes (slice rs a b)) \<in> set (chunk_loop c rs pos)"
  using assms
proof (induction c rs pos rule: chunk_loop.induct)
  case (1 c rs pos)
  then have True: "pos < length rs" by simp
  have cs: "0 \<le> chunkSize c" "chunkSize c \<noteq> 0" using 1(3) by auto
  obtain e nxt where w: "chunk_window c rs pos = (e, nxt)" by (cases "chunk_window c rs pos")
  then have nc: "nextChunk c rs pos = (TrimSpace (of_runes (slice rs pos e)), nxt)"
    by (simp add: nextChunk_def)
  note B = chunk_window_bounds[OF True 1(2) cs(1) w]
  have unfold: "chunk_loop c rs pos =
      (if TrimSpace (of_runes (slice rs pos e)) \<noteq> '''' then [TrimSpace (of_runes (slice rs pos e))] else [])
      @ chunk_loop c rs nxt"
    using True nc by (subst chunk_loop.simps) simp
  show ?case
  proof (cases "i < e")
    case True
    have "slice rs pos e ! (i - pos) = rs ! i" "i - pos < length (slice rs pos e)"
      using True 1(5,6) B by (auto simp: slice_def)
    then have "rs ! i \<in> set (slice rs pos e)" by (metis nth_mem)
    then have "TrimSpace (of_runes (slice rs pos e)) \<noteq> ''''"
      using trim_nonempty[OF slice_valid[OF 1(4)]] 1(7) by blast
    with True 1(5) B unfold show ?thesis by auto
  next
    case False
    have sp: "IsSpace 32" by (simp add: IsSpace_def space_runes_def)
    have "nxt \<le> i"
    proof (rule ccontr)
      assume "\<not> nxt \<le> i"
      with False B 1(5) have "i = e \<and> rs ! e = 32 \<or> i = pos \<and> e = pos" using cs by auto
      with B cs sp 1(7) show False by auto
    qed
    from 1(1)[OF True nc[symmetric] refl 1(2-4) this 1(6,7)] show ?thesis
      unfolding unfold by auto
  qed
qed

text \<open>C37: No text is lost: when the trimmed text is longer than a chunk, every rune of it
  that is not white space lies in a window of at most \<open>chunkSize\<close> consecutive
  runes whose trimmed text is one of the chunks.\<close>

theorem Chunk_covers:
  assumes "0 < sz" "0 \<le> ov" "int (length (runes (TrimSpace s))) > sz"
    "i < length (runes (TrimSpace s))" "\<not> IsSpace (runes (TrimSpace s) ! i)"
  shows "\<exists>xs a b. Chunk (NewCharacterChunker sz ov) s = Some xs \<and> a \<le> i \<and> i < b
    \<and> int (b - a) \<le> sz
    \<and> TrimSpace (of_runes (slice (runes (TrimSpace s)) a b)) \<in> set xs"
proof -
  let ?c = "NewCharacterChunker sz ov"
  have c: "0 \<le> overlap ?c" "chunkSize ?c = sz"
    using assms by (auto simp: NewCharacterChunker_def go_div_def sgn_if)
  obtain a b where "a \<le> i" "i < b" "b - a \<le> nat sz"
    "TrimSpace (of_runes (slice (runes (TrimSpace s)) a b)) \<in> set (chunk_loop ?c (runes (TrimSpace s)) 0)"
    using chunk_loop_covers[of ?c "runes (TrimSpace s)" 0 i, OF c(1) _ list_all_valid_runes] assms c by auto
  moreover have "TrimSpace s \<noteq> ''''" using assms(4) by auto
  ultimately show ?thesis using assms c
    by (intro exI[of _ "chunk_loop ?c (runes (TrimSpace s)) 0"] exI[of _ a] exI[of _ b])
      (auto simp: Chunk_def Let_def)
qed

theorem Chunk_covers_witness:
  "\<exists>xs a b. Chunk (NewCharacterChunker 4 1) ''one two three'' = Some xs \<and> a \<le> 4 \<and> 4 < b
    \<and> int (b - a) \<le> 4 \<and> TrimSpace (of_runes (slice (runes (TrimSpace ''one two three'')) a b)) \<in> set xs"
proof (rule Chunk_covers)
  have t: "runes (TrimSpace ''one two three'') = map byte ''one two three''"
    by (subst runes_TrimSpace_ascii) (simp_all add: is_ascii_def trim_runes_def IsSpace_low)
  show "4 < length (runes (TrimSpace ''one two three''))" "int (length (runes (TrimSpace ''one two three''))) > 4"
    unfolding t by simp_all
  show "\<not> IsSpace (runes (TrimSpace ''one two three'') ! 4)" unfolding t by (simp add: IsSpace_low)
qed simp_all

subsection \<open>Token budgets and truncation\<close>

definition EstimateTokens :: "string \<Rightarrow> real \<Rightarrow> int" where
  "EstimateTokens s charsPerToken =
     (if s = '''' \<or> charsPerToken \<le> 0 then 0 else \<lceil>real (length s) / charsPerToken\<rceil>)"

text \<open>\<open>utf8.RuneStart\<close> and the walk back to a rune boundary.\<close>

definition RuneStart :: "char \<Rightarrow> bool" where
  "RuneStart c \<longleftrightarrow> \<not> cont (byte c)"

fun back_to_start :: "string \<Rightarrow> nat \<Rightarrow> nat" where
  "back_to_start s 0 = 0"
| "back_to_start s (Suc n) = (if \<not> RuneStart (s ! Suc n) then back_to_start s n else Suc n)"

text \<open>\<open>int(float64(maxTokens) * charsPerToken)\<close> truncates toward zero; a negative
  ratio makes the slice expression panic.\<close>

definition TruncateToTokenBudget :: "string \<Rightarrow> int \<Rightarrow> real \<Rightarrow> string option" where
  "TruncateToTokenBudget s maxTokens charsPerToken =
     (if maxTokens \<le> 0 \<or> s = '''' then Some ''''
      else let x = real_of_int maxTokens * charsPerToken;
               maxBytes = (if x < 0 then \<lceil>x\<rceil> else \<lfloor>x\<rfloor>)
           in if int (length s) \<le> maxBytes then Some s
              else if maxBytes < 0 then None
              else Some (take (back_to_start s (nat maxBytes)) s))"

text \<open>\<open>webtext.Truncate\<close>.\<close>

definition webtext_Truncate :: "string \<Rightarrow> int \<Rightarrow> string" where
  "webtext_Truncate s n =
     (if n \<le> 0 \<or> int (length s) \<le> n then s else take (back_to_start s (nat n)) s)"

text \<open>\<open>text.Truncate\<close>: the first \<open>n\<close> bytes; a negative \<open>n\<close> panics.\<close>

definition text_Truncate :: "string \<Rightarrow> int \<Rightarrow> string option" where
  "text_Truncate s n =
     (if int (length s) \<le> n then Some s else if n < 0 then None else Some (take (nat n) s))"

definition TruncateRunes :: "string \<Rightarrow> int \<Rightarrow> string \<Rightarrow> string option" where
  "TruncateRunes s limit sfx =
     (if int (length (runes s)) \<le> limit then Some s
      else if limit < 0 then None
      else Some (of_runes (take (nat limit) (runes s)) @ sfx))"

definition TruncateAtWord :: "string \<Rightarrow> int \<Rightarrow> string option" where
  "TruncateAtWord s maxLen =
     (if int (length (runes s)) \<le> maxLen then Some s
      else if maxLen < 0 then None
      else let truncated = of_runes (take (nat maxLen) (runes s))
           in case LastIndex truncated '' '' of
                None \<Rightarrow> Some (truncated @ ''...'')
              | Some cutAt \<Rightarrow>
                  if cutAt < length truncated div 2 then Some (truncated @ ''...'')
                  else Some (take cutAt truncated @ ''...''))"

text \<open>A string whose bytes are the encoding of its runes.\<close>

definition utf8_valid :: "string \<Rightarrow> bool" where
  "utf8_valid s \<longleftrightarrow> of_runes (runes s) = s"

lemma back_to_start_le: "back_to_start s n \<le> n"
  by (induction s n rule: back_to_start.induct) auto

lemma back_to_start_stops: "back_to_start s n = 0 \<or> RuneStart (s ! back_to_start s n)"
  by (induction s n rule: back_to_start.induct) auto

lemma utf8_valid_of_runes: "list_all valid_rune rs \<Longrightarrow> utf8_valid (of_runes rs)"
  by (simp add: utf8_valid_def map_idI list_all_iff)

text \<open>Cutting the encoding of runes before a byte that starts a rune leaves the
  encoding of a prefix of the runes.\<close>

lemma cut_at_start:
  assumes "list_all valid_rune rs" "n < length (of_runes rs)" "RuneStart (of_runes rs ! n)"
  shows "\<exists>k. take n (of_runes rs) = of_runes (take k rs)"
  using assms
proof (induction rs arbitrary: n)
  case (Cons r rs)
  then have v: "valid_rune r" by simp
  obtain c cs where e: "encode_rune r = c # cs" "list_all (cont \<circ> byte) cs"
    using encode_rune_shape[OF v] by metis
  show ?case
  proof (cases "n < length (encode_rune r)")
    case True
    have "n = 0"
    proof (rule ccontr)
      assume "n \<noteq> 0"
      with True e have "(of_runes (r # rs)) ! n \<in> set cs" by (cases n) (auto simp: nth_append)
      with e(2) Cons.prems(3) show False by (auto simp: RuneStart_def list_all_iff)
    qed
    then show ?thesis by (intro exI[of _ 0]) simp
  next
    case False
    define m where "m = n - length (encode_rune r)"
    have n: "n = length (encode_rune r) + m" using False by (simp add: m_def)
    have "of_runes (r # rs) ! n = of_runes rs ! m" by (simp add: n nth_append)
    with Cons.IH[of m] Cons.prems n obtain k where "take m (of_runes rs) = of_runes (take k rs)" by auto
    then show ?thesis by (intro exI[of _ "Suc k"]) (simp add: n)
  qed
qed simp

lemma take_back_valid:
  assumes "utf8_valid s" "n < length s"
  shows "utf8_valid (take (back_to_start s n) s)"
proof -
  let ?rs = "runes s"
  have s: "of_runes ?rs = s" using assms(1) by (simp add: utf8_valid_def)
  have lt: "back_to_start s n < length s" using back_to_start_le[of s n] assms(2) by simp
  show ?thesis
  proof (cases "back_to_start s n = 0")
    case True
    then show ?thesis by (simp add: utf8_valid_def)
  next
    case False
    then have "RuneStart (s ! back_to_start s n)" using back_to_start_stops[of s n] by simp
    with cut_at_start[OF list_all_valid_runes[of s]] s lt
    obtain k where "take (back_to_start s n) s = of_runes (take k ?rs)" by metis
    moreover have "list_all valid_rune (take k ?rs)"
      using list_all_valid_runes[of s] by (metis append_take_drop_id list_all_append)
    ultimately show ?thesis using utf8_valid_of_runes by simp
  qed
qed

text \<open>Truncation to a token budget returns a prefix of the text whose estimate is
  within the budget, and never cuts a character in two.\<close>

theorem TruncateToTokenBudget_fits:
  assumes "0 < m" "0 < r" "utf8_valid s"
  shows "\<exists>t. TruncateToTokenBudget s m r = Some t \<and> prefix t s \<and> EstimateTokens t r \<le> m \<and> utf8_valid t"
proof -
  define n where "n = \<lfloor>real_of_int m * r\<rfloor>"
  have n0: "0 \<le> n" using assms(1,2) by (simp add: n_def)
  have nn: "\<not> real_of_int m * r < 0" using assms(1,2) by (simp add: not_less)
  have est: "EstimateTokens t r \<le> m" if "int (length t) \<le> n" for t
  proof -
    have "real (length t) \<le> real_of_int m * r" using that by (simp add: n_def le_floor_iff)
    then have "real (length t) / r \<le> real_of_int m" using assms(2) by (simp add: divide_le_eq)
    then show ?thesis using assms by (simp add: EstimateTokens_def ceiling_le_iff)
  qed
  show ?thesis
  proof (cases "int (length s) \<le> n")
    case True
    moreover have "TruncateToTokenBudget s m r = Some s"
      using True assms nn by (simp add: TruncateToTokenBudget_def n_def Let_def)
    ultimately show ?thesis using est assms(3) by auto
  next
    case False
    let ?t = "take (back_to_start s (nat n)) s"
    have "TruncateToTokenBudget s m r = Some ?t"
      using False assms(1) n0 nn by (auto simp: TruncateToTokenBudget_def n_def Let_def)
    moreover have "int (length ?t) \<le> n" using back_to_start_le[of s "nat n"] n0 by simp
    moreover have "utf8_valid ?t" using False n0 assms(3) by (intro take_back_valid) auto
    ultimately show ?thesis using est take_is_prefix by blast
  qed
qed

theorem TruncateToTokenBudget_fits_witness:
  "\<exists>t. TruncateToTokenBudget (of_runes [0x442, 0x435, 0x441, 0x442]) 1 (7/2) = Some t
    \<and> prefix t (of_runes [0x442, 0x435, 0x441, 0x442])
    \<and> EstimateTokens t (7/2) \<le> 1 \<and> utf8_valid t"
  by (rule TruncateToTokenBudget_fits)
    (simp_all add: utf8_valid_of_runes valid_rune_def del: of_runes_simps)

lemma webtext_Truncate_valid:
  "utf8_valid s \<Longrightarrow> utf8_valid (webtext_Truncate s n) \<and> prefix (webtext_Truncate s n) s
     \<and> (0 < n \<longrightarrow> int (length (webtext_Truncate s n)) \<le> n)"
  using back_to_start_le[of s "nat n"]
  by (auto simp: webtext_Truncate_def take_back_valid take_is_prefix)

lemma TruncateRunes_bound:
  "0 \<le> limit \<Longrightarrow> \<exists>t. TruncateRunes s limit '''' = Some t \<and> int (length (runes t)) \<le> limit"
  by (auto simp: TruncateRunes_def)

subsection \<open>Cleaning\<close>

text \<open>Removing the matches of \<open><[^>]*>\<close>: from a \<open><\<close> to the next
  \<open>></\<close>.\<close>

function strip_tags :: "string \<Rightarrow> string" where
  "strip_tags s =
     (case s of
        [] \<Rightarrow> []
      | c # cs \<Rightarrow>
          if c = CHR ''<'' then
            (case IndexByte cs (CHR ''>'') of
               Some i \<Rightarrow> strip_tags (drop (i + 1) cs)
             | None \<Rightarrow> c # strip_tags cs)
          else c # strip_tags cs)"
  by pat_completeness auto
termination
  by (relation "measure length") auto

declare strip_tags.simps [simp del]

definition CleanHTML :: "string \<Rightarrow> string" where
  "CleanHTML s = TrimSpace (strip_tags s)"

text \<open>\<open>text.CleanLines\<close>.\<close>

definition CleanLines :: "string \<Rightarrow> string" where
  "CleanLines s =
     Join (filter (\<lambda>l. l \<noteq> '''') (map TrimSpace (Split s [CHR 0x0A]))) [CHR 0x0A]"

text \<open>The class \<open>\s\<close> of Go's regular expressions is ASCII.\<close>

definition re_space :: "char \<Rightarrow> bool" where
  "re_space c \<longleftrightarrow> byte c \<in> {9, 10, 12, 13, 32}"

text \<open>\<open>\n\s*\n\<close> replaced by a newline: greedy, to the last newline of the run
  of white space.\<close>

function squash_empty :: "string \<Rightarrow> string" where
  "squash_empty s =
     (case s of
        [] \<Rightarrow> []
      | c # cs \<Rightarrow>
          if c = CHR 0x0A then
            (case LastIndex (takeWhile re_space cs) [CHR 0x0A] of
               Some i \<Rightarrow> c # squash_empty (drop (i + 1) cs)
             | None \<Rightarrow> c # squash_empty cs)
          else c # squash_empty cs)"
  by pat_completeness auto
termination
  by (relation "measure length") auto

declare squash_empty.simps [simp del]

definition webtext_CleanLines :: "string \<Rightarrow> string" where
  "webtext_CleanLines s = CleanLines (squash_empty s)"

text \<open>\<open>\s{2,}\<close> replaced by a space.\<close>

function squash_spaces :: "string \<Rightarrow> string" where
  "squash_spaces s =
     (case s of
        [] \<Rightarrow> []
      | c # cs \<Rightarrow>
          if re_space c \<and> takeWhile re_space cs \<noteq> []
          then CHR '' '' # squash_spaces (dropWhile re_space cs)
          else c # squash_spaces cs)"
  by pat_completeness auto
termination
  by (relation "measure length") (auto simp: le_imp_less_Suc length_dropWhile_le)

declare squash_spaces.simps [simp del]

definition NormalizeSpaces :: "string \<Rightarrow> string" where
  "NormalizeSpaces s = TrimSpace (squash_spaces s)"

lemma strip_tags_Nil [simp]: "strip_tags [] = []"
  by (simp add: strip_tags.simps)

lemma strip_tags_set: "set (strip_tags s) \<subseteq> set s"
proof (induction s rule: strip_tags.induct)
  case (1 s)
  show ?case
  proof (cases s)
    case (Cons c cs)
    consider (none) "c = CHR ''<''" "IndexByte cs (CHR ''>'') = None"
      | (some) i where "c = CHR ''<''" "IndexByte cs (CHR ''>'') = Some i" | (other) "c \<noteq> CHR ''<''"
      by (cases "IndexByte cs (CHR ''>'')") auto
    then show ?thesis
    proof cases
      case none
      with 1(1)[OF Cons none(1,2)] Cons show ?thesis
        by (subst strip_tags.simps) (auto simp del: IndexByte_None)
    next
      case some
      with 1(2)[OF Cons some(1,2)] Cons set_drop_subset[of "i + 1" cs] show ?thesis
        by (subst strip_tags.simps) auto
    next
      case other
      with 1(3)[OF Cons other] Cons show ?thesis by (subst strip_tags.simps) auto
    qed
  qed simp
qed

lemma strip_tags_no_tag:
  "strip_tags s = a @ CHR ''<'' # b \<Longrightarrow> CHR ''>'' \<notin> set b"
proof (induction s arbitrary: a rule: strip_tags.induct)
  case (1 s)
  show ?case
  proof (cases s)
    case (Cons c cs)
    show ?thesis
    proof (cases "c = CHR ''<''")
      case True
      show ?thesis
      proof (cases "IndexByte cs (CHR ''>'')")
        case None
        then have "CHR ''>'' \<notin> set (strip_tags cs)" using strip_tags_set[of cs] by auto
        moreover have "strip_tags s = CHR ''<'' # strip_tags cs"
          using Cons True None by (subst strip_tags.simps) (simp del: IndexByte_None)
        moreover from this 1(4) have "b = strip_tags cs \<or> strip_tags cs = tl a @ CHR ''<'' # b"
          by (cases a) auto
        then have "set b \<subseteq> set (strip_tags cs)" by auto
        ultimately show ?thesis by blast
      next
        case (Some i)
        then have "strip_tags s = strip_tags (drop (i + 1) cs)" using Cons True by (subst strip_tags.simps) simp
        with 1(2)[OF Cons True Some] 1(4) show ?thesis by simp
      qed
    next
      case False
      then have "strip_tags s = c # strip_tags cs" using Cons by (subst strip_tags.simps) simp
      with 1(4) False obtain a' where "strip_tags cs = a' @ CHR ''<'' # b" by (cases a) auto
      with 1(3)[OF Cons False] show ?thesis by blast
    qed
  qed (use 1(4) in simp)
qed

text \<open>Cleaned HTML contains no complete tag: after any \<open><\<close> left in it there is
  no closing bracket; and it has no white space at its ends.\<close>

theorem CleanHTML_no_tags:
  assumes "CleanHTML s = a @ CHR ''<'' # b"
  shows "CHR ''>'' \<notin> set b \<and> TrimSpace (CleanHTML s) = CleanHTML s"
proof -
  obtain p q where "strip_tags s = p @ CleanHTML s @ q"
    using TrimSpace_sublist[of "strip_tags s"] by (auto simp: CleanHTML_def sublist_def)
  then have "strip_tags s = (p @ a) @ CHR ''<'' # (b @ q)" using assms by simp
  then have "CHR ''>'' \<notin> set (b @ q)" by (rule strip_tags_no_tag)
  then show ?thesis by (simp add: CleanHTML_def)
qed

theorem CleanHTML_no_tags_witness:
  "CleanHTML ''x<b>1<2'' = ''x1'' @ CHR ''<'' # ''2'' \<and> CHR ''>'' \<notin> set ''2''"
proof -
  have i: "IndexByte ''b>1<2'' (CHR ''>'') = Some 1" "IndexByte ''2'' (CHR ''>'') = None"
    by (simp_all add: IndexByte_def)
  have "strip_tags ''x<b>1<2'' = ''x1<2''"
    using i by (simp add: strip_tags.simps del: IndexByte_None)
  then have e: "CleanHTML ''x<b>1<2'' = ''x1'' @ CHR ''<'' # ''2''"
    unfolding CleanHTML_def
    by (simp add: TrimSpace_ascii_id is_ascii_def trim_runes_def IsSpace_low)
  from CleanHTML_no_tags[OF e] e show ?thesis by blast
qed

lemma CleanLines_lines:
  assumes "x \<in> set (filter (\<lambda>l. l \<noteq> '''') (map TrimSpace (Split s [CHR 0x0A])))"
  shows "x \<noteq> '''' \<and> CHR 0x0A \<notin> set x"
proof -
  from assms obtain l where l: "l \<in> set (Split s [CHR 0x0A])" "x = TrimSpace l" "x \<noteq> ''''" by auto
  have "CHR 0x0A \<notin> set l" using Split_no_sep[OF _ l(1)] by simp
  moreover obtain p q where "l = p @ x @ q" using l(2) TrimSpace_sublist[of l] by (auto simp: sublist_def)
  ultimately show ?thesis using l(3) by auto
qed

end
