(* ===== verification/Go_Net.thy ===== *)
theory Go_Net
  imports Go_Trim Text_Chunk "HOL-Library.List_Lexorder" "HOL-Library.Char_ord"
begin

text \<open>
  What the engines use of \<open>net/url\<close> and \<open>time\<close>: the two escaping
  functions, \<open>url.Values.Encode\<close>, and the calendar behind
  \<open>time.Time.Format\<close>.  A time is a number of nanoseconds since the Unix
  epoch; the calendar is the proleptic Gregorian one, in a fixed zone offset.
\<close>

subsection \<open>Escaping\<close>

definition hex_digit :: "nat \<Rightarrow> char" where
  "hex_digit n = ''0123456789ABCDEF'' ! (n mod 16)"

definition percent :: "char \<Rightarrow> string" where
  "percent c = [CHR ''%'', hex_digit (byte c div 16), hex_digit (byte c)]"

definition alnum :: "char \<Rightarrow> bool" where
  "alnum c \<longleftrightarrow> (let b = byte c in 48 \<le> b \<and> b \<le> 57 \<or> 65 \<le> b \<and> b \<le> 90 \<or> 97 \<le> b \<and> b \<le> 122)"

definition unreserved :: "char \<Rightarrow> bool" where
  "unreserved c \<longleftrightarrow> alnum c \<or> c \<in> set ''-_.~''"

definition query_byte :: "char \<Rightarrow> string" where
  "query_byte c = (if unreserved c then [c] else if c = CHR '' '' then ''+'' else percent c)"

definition QueryEscape :: "string \<Rightarrow> string" where
  "QueryEscape s = concat (map query_byte s)"

text \<open>In a path segment the reserved characters \<open>$ & + = : @\<close> stay.\<close>

definition path_byte :: "char \<Rightarrow> string" where
  "path_byte c = (if unreserved c \<or> c \<in> set ''$&+=:@'' then [c] else percent c)"

definition PathEscape :: "string \<Rightarrow> string" where
  "PathEscape s = concat (map path_byte s)"

text \<open>\<open>url.Values.Encode\<close> for one value per key: sorted by key.\<close>

definition Encode :: "(string, string) gomap \<Rightarrow> string" where
  "Encode vs = Join (map (\<lambda>(k, v). QueryEscape k @ ''='' @ QueryEscape v) (sort_key fst vs)) ''&''"

text \<open>The inverse used on the receiving side, for the round trip.\<close>

definition hex_val :: "char \<Rightarrow> nat" where
  "hex_val c = (if byte c \<le> 57 then byte c - 48 else byte c - 55)"

fun unescape :: "bool \<Rightarrow> string \<Rightarrow> string" where
  "unescape q [] = []"
| "unescape q [a] = (if q \<and> a = CHR ''+'' then '' '' else [a])"
| "unescape q [a, b] = (if q \<and> a = CHR ''+'' then '' '' else [a]) @ unescape q [b]"
| "unescape q (a # b # c # s) =
     (if a = CHR ''%'' then mkbyte (16 * hex_val b + hex_val c) # unescape q s
      else (if q \<and> a = CHR ''+'' then CHR '' '' else a) # unescape q (b # c # s))"

lemma hex_val_digit: "hex_val (hex_digit n) = n mod 16"
proof -
  have "\<forall>k \<in> {0..<16}. hex_val (''0123456789ABCDEF'' ! k) = k" by code_simp
  moreover have "n mod 16 \<in> {0..<16}" by simp
  ultimately show ?thesis unfolding hex_digit_def by blast
qed

lemma hex_digit_plain: "hex_digit n \<in> set ''0123456789ABCDEF''"
  unfolding hex_digit_def by (rule nth_mem) simp

lemma unescape_percent: "unescape q (percent c @ s) = c # unescape q s"
proof -
  have "16 * (byte c div 16 mod 16) + byte c mod 16 = byte c"
    using nat_of_char_less_256[of c] by (simp add: less_mult_imp_div_less)
  then show ?thesis by (simp add: percent_def hex_val_digit)
qed

lemma unescape_plain:
  "a \<noteq> CHR ''%'' \<Longrightarrow> unescape q (a # s) = (if q \<and> a = CHR ''+'' then CHR '' '' else a) # unescape q s"
  by (cases s rule: list.exhaust; cases "tl s") auto

lemma unreserved_not_special: "unreserved c \<Longrightarrow> c \<noteq> CHR ''%'' \<and> c \<noteq> CHR ''+'' \<and> c \<noteq> CHR ''&'' \<and> c \<noteq> CHR ''=''"
  by (auto simp: unreserved_def alnum_def)

lemma unescape_QueryEscape: "unescape True (QueryEscape s) = s"
proof (induction s)
  case (Cons c s)
  then show ?case
    using unreserved_not_special[of c]
    by (auto simp: QueryEscape_def query_byte_def unescape_plain unescape_percent simp del: unescape.simps(2-))
qed (simp add: QueryEscape_def)

lemma unescape_PathEscape: "unescape False (PathEscape s) = s"
proof (induction s)
  case (Cons c s)
  then show ?case
    using unreserved_not_special[of c]
    by (auto simp: PathEscape_def path_byte_def unescape_plain unescape_percent simp del: unescape.simps(2-))
qed (simp add: PathEscape_def)

text \<open>The characters an escaped string can hold.\<close>

definition query_safe :: "char \<Rightarrow> bool" where
  "query_safe c \<longleftrightarrow> unreserved c \<or> c \<in> {CHR ''%'', CHR ''+''}"

lemma hex_unreserved: "c \<in> set ''0123456789ABCDEF'' \<Longrightarrow> unreserved c"
proof -
  have "list_all unreserved ''0123456789ABCDEF''" by (simp add: unreserved_def alnum_def)
  then show "c \<in> set ''0123456789ABCDEF'' \<Longrightarrow> unreserved c" by (simp only: list_all_iff)
qed

lemma percent_safe: "x \<in> set (percent c) \<Longrightarrow> x = CHR ''%'' \<or> unreserved x"
  using hex_digit_plain hex_unreserved by (auto simp: percent_def)

lemma QueryEscape_safe: "list_all query_safe (QueryEscape s)"
  by (auto simp: list_all_iff QueryEscape_def query_byte_def query_safe_def dest: percent_safe split: if_splits)

definition path_safe :: "char \<Rightarrow> bool" where
  "path_safe c \<longleftrightarrow> unreserved c \<or> c \<in> set ''%$&+=:@''"

lemma PathEscape_safe: "list_all path_safe (PathEscape s)"
  by (auto simp: list_all_iff PathEscape_def path_byte_def path_safe_def dest: percent_safe split: if_splits)

subsection \<open>The calendar\<close>

definition day_ns :: int where
  "day_ns = 86400000000000"

text \<open>Year, month and day of a day number counted from 1970-01-01.\<close>

definition civil :: "int \<Rightarrow> int \<times> int \<times> int" where
  "civil z =
     (let z = z + 719468;
          era = z div 146097;
          doe = z mod 146097;
          yoe = (doe - doe div 1460 + doe div 36524 - doe div 146096) div 365;
          doy = doe - (365 * yoe + yoe div 4 - yoe div 100);
          mp = (5 * doy + 2) div 153;
          d = doy - (153 * mp + 2) div 5 + 1;
          m = (if mp < 10 then mp + 3 else mp - 9);
          y = yoe + era * 400
      in (if m \<le> 2 then y + 1 else y, m, d))"

definition pad :: "nat \<Rightarrow> int \<Rightarrow> string" where
  "pad n i = (let s = Itoa i in replicate (n - length s) (CHR ''0'') @ s)"

definition day_of :: "duration \<Rightarrow> instant \<Rightarrow> int" where
  "day_of tz t = (t + tz) div day_ns"

text \<open>The layouts \<open>2006-01-02\<close>, \<open>20060102\<close> and \<open>time.RFC3339\<close> in UTC.\<close>

definition format_date :: "int \<Rightarrow> string" where
  "format_date z = (let (y, m, d) = civil z in pad 4 y @ ''-'' @ pad 2 m @ ''-'' @ pad 2 d)"

definition format_compact :: "int \<Rightarrow> string" where
  "format_compact z = (let (y, m, d) = civil z in pad 4 y @ pad 2 m @ pad 2 d)"

definition format_rfc3339 :: "instant \<Rightarrow> string" where
  "format_rfc3339 t =
     (let s = (t div 1000000000) mod 86400
      in format_date (day_of 0 t) @ ''T'' @ pad 2 (s div 3600) @ '':'' @ pad 2 (s div 60 mod 60)
         @ '':'' @ pad 2 (s mod 60) @ ''Z'')"

end
