(* ===== verification/Ws_Http.thy ===== *)
theory Ws_Http
  imports Go_Net Ws_Results
begin

text \<open>
  What the search engines share: the request and answer of a
  \<open>BrowserDoer\<close>, the browser headers, the tests for a rate-limited answer
  (\<open>websearch/helpers.go\<close>, \<open>brave.go\<close>, \<open>bing.go\<close> and their copies in
  \<open>search/helpers.go\<close>), the recency parameters (\<open>websearch/time.go\<close>) and
  the address builders.
\<close>

subsection \<open>Requests\<close>

type_synonym headers = "(string, string) gomap"

record http_request =
  Method :: string
  Url :: string
  Headers :: headers
  Body :: "string option"

text \<open>\<open>Do\<close> answers body, headers and status, or an error; \<open>'w\<close> is the world.\<close>

type_synonym http_answer = "string \<times> headers \<times> int"
type_synonym 'w doer = "http_request \<Rightarrow> 'w \<Rightarrow> http_answer result \<times> 'w"

text \<open>The user agent is the one of the client's identity when the doer is a
  \<open>*stealth.BrowserClient\<close> (\<open>Some ua\<close>), else the one of the default profile.\<close>

definition resolveUserAgent :: "string \<Rightarrow> string option \<Rightarrow> string" where
  "resolveUserAgent defaultUA d = (case d of Some ua \<Rightarrow> ua | None \<Rightarrow> defaultUA)"

definition ChromeHeadersFor :: "string \<Rightarrow> string option \<Rightarrow> headers" where
  "ChromeHeadersFor defaultUA d =
     [(''accept'', ''text/html,application/xhtml+xml,application/xml;q=0.9,image/avif,image/webp,*/*;q=0.8''),
      (''accept-language'', ''en-US,en;q=0.9''),
      (''accept-encoding'', ''gzip, deflate, br''),
      (''user-agent'', resolveUserAgent defaultUA d)]"

definition acceptJSON :: string where
  "acceptJSON = ''application/json''"

definition acceptHTML :: string where
  "acceptHTML = ''text/html,application/xhtml+xml,application/xml;q=0.9,*/*;q=0.8''"

definition acceptFormURLEncoded :: string where
  "acceptFormURLEncoded = ''application/x-www-form-urlencoded''"

definition with_headers :: "(string \<times> string) list \<Rightarrow> headers \<Rightarrow> headers" where
  "with_headers kvs h = fold (\<lambda>(k, v). AList.update k v) kvs h"

record SearchOpts =
  Language :: string
  TimeRange :: string
  Region :: string
  Engines :: string
  Limit :: int

definition no_opts :: SearchOpts where
  "no_opts = \<lparr>Language = '''', TimeRange = '''', Region = '''', Engines = '''', Limit = 0\<rparr>"

definition applyLimit :: "'a list \<Rightarrow> int \<Rightarrow> 'a list" where
  "applyLimit results n = (if n > 0 \<and> int (length results) > n then take (nat n) results else results)"

lemma length_applyLimit:
  "int (length (applyLimit xs n)) = (if n > 0 then min n (int (length xs)) else int (length xs))"
  by (auto simp: applyLimit_def)

lemma prefix_applyLimit: "prefix (applyLimit xs n) xs"
  by (simp add: applyLimit_def take_is_prefix)

lemma set_applyLimit: "set (applyLimit xs n) \<subseteq> set xs"
  by (rule set_mono_prefix[OF prefix_applyLimit])

subsection \<open>Rate-limit detection\<close>

definition isRateLimitStatus :: "int \<Rightarrow> bool" where
  "isRateLimitStatus status \<longleftrightarrow> status = 429 \<or> status = 403"

definition has_marker :: "string list \<Rightarrow> string \<Rightarrow> bool" where
  "has_marker ms low \<longleftrightarrow> list_ex (\<lambda>m. Contains low m) ms"

definition ddgMarkers :: "string list" where
  "ddgMarkers = [''please try again'', ''not a robot'', ''unusual traffic'', ''blocked'']"

definition IsDDGRateLimited :: "unicode_tables \<Rightarrow> string \<Rightarrow> bool" where
  "IsDDGRateLimited U body =
     (let low = ToLower U body
      in has_marker ddgMarkers low
         \<or> Contains low ''action=\"/d.js\"'' \<and> Contains low ''type=\"hidden\"'')"

definition startpageMarkers :: "string list" where
  "startpageMarkers = [''rate limited'', ''too many requests'', ''g-recaptcha'', ''captcha'']"

definition isStartpageRateLimited :: "unicode_tables \<Rightarrow> string \<Rightarrow> bool" where
  "isStartpageRateLimited U body = has_marker startpageMarkers (ToLower U body)"

definition bingMarkers :: "string list" where
  "bingMarkers = [''captcha'', ''rate limit'', ''too many requests'', ''unusual traffic'']"

definition IsBingRateLimited :: "unicode_tables \<Rightarrow> string \<Rightarrow> bool" where
  "IsBingRateLimited U body = has_marker bingMarkers (ToLower U body)"

definition captchaContextLeading :: nat where
  "captchaContextLeading = 20"

definition captchaContextTrailing :: nat where
  "captchaContextTrailing = 30"

abbreviation captcha :: string where
  "captcha \<equiv> ''captcha''"

text \<open>The window around an occurrence, and whether it looks like a JSON key and value.\<close>

definition captcha_context :: "string \<Rightarrow> nat \<Rightarrow> string" where
  "captcha_context lower pos =
     (let start = pos - captchaContextLeading;
          stop = min (length lower) (pos + captchaContextTrailing)
      in take (stop - start) (drop start lower))"

definition json_context :: "string \<Rightarrow> bool" where
  "json_context ctx \<longleftrightarrow> Contains ctx ''\":\"'' \<or> Contains ctx ''\": \"''"

function i18n_scan :: "string \<Rightarrow> nat \<Rightarrow> bool" where
  "i18n_scan lower idx =
     (case Index (drop idx lower) captcha of
        None \<Rightarrow> True
      | Some p \<Rightarrow>
          if \<not> json_context (captcha_context lower (p + idx)) then False
          else i18n_scan lower (p + idx + length captcha))"
  by pat_completeness auto
termination
proof (relation "measure (\<lambda>(l, i). length l - i)")
  fix lower :: string and idx p
  assume "Index (drop idx lower) captcha = Some p"
  from Index_Some_bound[OF this]
  show "((lower, p + idx + length captcha), (lower, idx)) \<in> measure (\<lambda>(l, i). length l - i)" by simp
qed simp

declare i18n_scan.simps [simp del]

definition isCaptchaInI18nContext :: "string \<Rightarrow> bool" where
  "isCaptchaInI18nContext lower = i18n_scan lower 0"

definition braveStrongMarkers :: "string list" where
  "braveStrongMarkers = [''rate limit'', ''too many requests'', ''unusual traffic'', ''are you a robot'',
     ''please verify you are human'', ''please solve the captcha'']"

definition IsBraveRateLimited :: "unicode_tables \<Rightarrow> string \<Rightarrow> bool" where
  "IsBraveRateLimited U body =
     (let lower = ToLower U body
      in has_marker braveStrongMarkers lower
         \<or> Contains lower captcha \<and> \<not> isCaptchaInI18nContext lower)"

lemma Index_first:
  "Index s sub = Some i \<Longrightarrow> j < i \<Longrightarrow> \<not> prefix sub (drop j s)"
proof (induction s arbitrary: i j)
  case (Cons c cs)
  then show ?case by (cases j) (auto simp: HasPrefix_iff split: if_splits option.splits)
qed (auto split: if_splits)

lemma Index_None_drop: "Index s sub = None \<Longrightarrow> \<not> prefix sub (drop j s)"
proof
  assume "Index s sub = None" "prefix sub (drop j s)"
  moreover from this(2) have "sublist sub s"
    by (meson suffix_drop prefix_imp_sublist sublist_order.order.trans suffix_imp_sublist)
  ultimately show False by (simp add: Index_None_iff)
qed

lemma captcha_no_overlap:
  assumes "prefix captcha (drop p s)" "p < q" "q < p + 7"
  shows "\<not> prefix captcha (drop q s)"
proof
  assume q: "prefix captcha (drop q s)"
  from assms(2,3) obtain k where k: "q = p + k" "0 < k" "k < 7" by (metis add_less_cancel_left less_imp_add_positive)
  from assms(1) obtain t where t: "drop p s = captcha @ t" by (auto simp: prefix_def)
  have "drop q s = drop k (captcha @ t)" using k t by (metis add.commute drop_drop)
  with q have "prefix captcha (drop k (captcha @ t))" by simp
  moreover have "k \<in> {1,2,3,4,5,6}" using k by auto
  ultimately show False by auto
qed

lemma i18n_scan_iff:
  "i18n_scan lower idx \<longleftrightarrow>
     (\<forall>p \<ge> idx. prefix captcha (drop p lower) \<longrightarrow> json_context (captcha_context lower p))"
proof (induction lower idx rule: i18n_scan.induct)
  case (1 lower idx)
  show ?case
  proof (cases "Index (drop idx lower) captcha")
    case None
    have "\<not> prefix captcha (drop p lower)" if "p \<ge> idx" for p
      using Index_None_drop[OF None, of "p - idx"] that by simp
    with None show ?thesis by (subst i18n_scan.simps) auto
  next
    case (Some q)
    have here: "prefix captcha (drop (q + idx) lower)"
      using Index_Some_drop[OF Some] by (simp add: add.commute)
    have early: "\<not> prefix captcha (drop p lower)" if "p \<ge> idx" "p < q + idx" for p
      using Index_first[OF Some, of "p - idx"] that by (simp add: less_diff_conv2)
    have mid: "\<not> prefix captcha (drop p lower)" if "q + idx < p" "p < q + idx + 7" for p
      by (rule captcha_no_overlap[OF here that])
    have split_p: "p < q + idx \<or> p = q + idx \<or> q + idx < p \<and> p < q + idx + 7 \<or> q + idx + 7 \<le> p" for p
      by arith
    have "(\<forall>p \<ge> idx. prefix captcha (drop p lower) \<longrightarrow> json_context (captcha_context lower p))
      \<longleftrightarrow> json_context (captcha_context lower (q + idx))
        \<and> (\<forall>p \<ge> q + idx + 7. prefix captcha (drop p lower) \<longrightarrow> json_context (captcha_context lower p))"
      (is "?L \<longleftrightarrow> ?R")
    proof
      assume ?L
      then show ?R using here by auto
    next
      assume R: ?R
      show ?L
      proof (intro allI impI)
        fix p
        assume "idx \<le> p" "prefix captcha (drop p lower)"
        with R early[of p] mid[of p] split_p[of p] show "json_context (captcha_context lower p)" by blast
      qed
    qed
    then show ?thesis using 1[OF Some] Some by (subst i18n_scan.simps) auto
  qed
qed

text \<open>A Brave page is taken as blocked exactly when it has a strong marker or some
  occurrence of the word captcha that is not inside a translation string; every
  occurrence is inspected.\<close>

theorem brave_captcha_context:
  "IsBraveRateLimited U body \<longleftrightarrow>
     (\<exists>m \<in> set braveStrongMarkers. sublist m (ToLower U body))
     \<or> (\<exists>p. prefix captcha (drop p (ToLower U body))
           \<and> \<not> json_context (captcha_context (ToLower U body) p))"
proof -
  let ?l = "ToLower U body"
  have "Contains ?l captcha" if "prefix captcha (drop p ?l)" for p
    using that Index_None_drop by (auto simp: Contains_def)
  then have "(Contains ?l captcha \<and> \<not> isCaptchaInI18nContext ?l)
    \<longleftrightarrow> (\<exists>p. prefix captcha (drop p ?l) \<and> \<not> json_context (captcha_context ?l p))"
    unfolding isCaptchaInI18nContext_def i18n_scan_iff by auto
  then show ?thesis
    by (simp add: IsBraveRateLimited_def Let_def has_marker_def list_ex_iff Contains_iff)
qed

subsection \<open>Recency\<close>

text \<open>The default branch of every switch answers the empty string.\<close>

definition timeRangeToBing :: "unicode_tables \<Rightarrow> duration \<Rightarrow> instant \<Rightarrow> string \<Rightarrow> string" where
  "timeRangeToBing U tz now tr =
     (let t = ToLower U tr in
      if t = ''day'' then ''Day'' else if t = ''week'' then ''Week'' else if t = ''month'' then ''Month''
      else if t = ''year'' then format_date (day_of tz now - 365) @ ''..'' @ format_date (day_of tz now)
      else '''')"

definition timeRangeToBrave :: "unicode_tables \<Rightarrow> string \<Rightarrow> string" where
  "timeRangeToBrave U tr =
     (let t = ToLower U tr in
      if t = ''day'' then ''pd'' else if t = ''week'' then ''pw'' else if t = ''month'' then ''pm''
      else if t = ''year'' then ''py'' else '''')"

definition timeRangeToDDG :: "unicode_tables \<Rightarrow> string \<Rightarrow> string" where
  "timeRangeToDDG U tr =
     (let t = ToLower U tr in
      if t = ''day'' then ''d'' else if t = ''week'' then ''w'' else if t = ''month'' then ''m''
      else if t = ''year'' then ''y'' else '''')"

definition timeRangeToStartpage :: "unicode_tables \<Rightarrow> string \<Rightarrow> string" where
  "timeRangeToStartpage U tr = timeRangeToDDG U tr"

definition timeRangeToReddit :: "unicode_tables \<Rightarrow> string \<Rightarrow> string" where
  "timeRangeToReddit U tr =
     (let t = ToLower U tr in if t \<in> {''day'', ''week'', ''month'', ''year''} then t else '''')"

definition yep_offset :: "string \<Rightarrow> int option" where
  "yep_offset t =
     (if t = ''day'' then Some 1 else if t = ''week'' then Some 7 else if t = ''month'' then Some 30
      else if t = ''year'' then Some 365 else None)"

definition timeRangeToYepStart :: "unicode_tables \<Rightarrow> instant \<Rightarrow> string \<Rightarrow> string" where
  "timeRangeToYepStart U now tr =
     (case yep_offset (ToLower U tr) of
        Some n \<Rightarrow> format_rfc3339 (now - n * day_ns)
      | None \<Rightarrow> '''')"

definition timeRangeToYandexDate :: "unicode_tables \<Rightarrow> duration \<Rightarrow> instant \<Rightarrow> string \<Rightarrow> string" where
  "timeRangeToYandexDate U tz now tr =
     (case yep_offset (ToLower U tr) of
        Some n \<Rightarrow> ''date:'' @ format_compact (day_of tz now - n) @ ''..'' @ format_compact (day_of tz now)
      | None \<Rightarrow> '''')"

subsection \<open>Address builders\<close>

definition DDGHTMLURL :: "unicode_tables \<Rightarrow> string \<Rightarrow> string \<Rightarrow> string" where
  "DDGHTMLURL U query tr =
     (let u = ''https://html.duckduckgo.com/html/'' @ ''?q='' @ QueryEscape query; df = timeRangeToDDG U tr
      in if df \<noteq> '''' then u @ ''&df='' @ df else u)"

definition BraveSearchURL :: "unicode_tables \<Rightarrow> string \<Rightarrow> string \<Rightarrow> string" where
  "BraveSearchURL U query tr =
     (let u = ''https://search.brave.com/search'' @ ''?q='' @ QueryEscape query @ ''&source=web'';
          tf = timeRangeToBrave U tr
      in if tf \<noteq> '''' then u @ ''&tf='' @ tf else u)"

definition BingSearchURL :: "unicode_tables \<Rightarrow> duration \<Rightarrow> instant \<Rightarrow> string \<Rightarrow> string \<Rightarrow> string" where
  "BingSearchURL U tz now query tr =
     (let u = ''https://www.bing.com/search'' @ ''?q='' @ QueryEscape query;
          freshness = timeRangeToBing U tz now tr
      in if freshness \<noteq> '''' then u @ ''&freshness='' @ QueryEscape freshness else u)"

text \<open>The value of the first query parameter of an address: what stands between
  \<open>?q=\<close> and the next ampersand.\<close>

definition first_param :: "string \<Rightarrow> string \<Rightarrow> string" where
  "first_param endpoint u = takeWhile (\<lambda>c. c \<noteq> CHR ''&'') (drop (length endpoint + 3) u)"

lemma QueryEscape_no_amp: "x \<in> set (QueryEscape s) \<Longrightarrow> x \<noteq> CHR ''&''"
proof -
  assume "x \<in> set (QueryEscape s)"
  then have "query_safe x" using QueryEscape_safe[of s] by (simp add: list_all_iff)
  then show ?thesis using unreserved_not_special[of x] by (auto simp: query_safe_def)
qed

lemma first_param_end: "first_param e (e @ ''?q='' @ QueryEscape s) = QueryEscape s"
  using QueryEscape_no_amp[of _ s] by (simp add: first_param_def takeWhile_eq_all_conv)

lemma first_param_more: "first_param e (e @ ''?q='' @ QueryEscape s @ CHR ''&'' # r) = QueryEscape s"
proof -
  have "takeWhile (\<lambda>c. c \<noteq> CHR ''&'') (QueryEscape s @ CHR ''&'' # r) = QueryEscape s"
    using QueryEscape_no_amp[of _ s] by (subst takeWhile_append2) simp_all
  then show ?thesis by (simp add: first_param_def)
qed

text \<open>Whatever the user's query holds, it reaches the engine as the first parameter and
  nothing else of the address depends on it: decoding that parameter gives the
  query back, so no query can add or change another parameter.\<close>

theorem serp_urls_carry_query:
  "unescape True (first_param ''https://html.duckduckgo.com/html/'' (DDGHTMLURL U q tr)) = q
   \<and> unescape True (first_param ''https://search.brave.com/search'' (BraveSearchURL U q tr)) = q
   \<and> unescape True (first_param ''https://www.bing.com/search'' (BingSearchURL U tz now q tr)) = q"
proof (intro conjI)
  define d where "d = ''https://html.duckduckgo.com/html/''"
  have "DDGHTMLURL U q tr = d @ ''?q='' @ QueryEscape q
    \<or> (\<exists>r. DDGHTMLURL U q tr = d @ ''?q='' @ QueryEscape q @ CHR ''&'' # r)"
    unfolding DDGHTMLURL_def Let_def d_def[symmetric] by auto
  then show "unescape True (first_param ''https://html.duckduckgo.com/html/'' (DDGHTMLURL U q tr)) = q"
    unfolding d_def[symmetric] using first_param_end[of d q] first_param_more[of d q] unescape_QueryEscape[of q] by metis
next
  define d where "d = ''https://search.brave.com/search''"
  have "\<exists>r. BraveSearchURL U q tr = d @ ''?q='' @ QueryEscape q @ CHR ''&'' # r"
    unfolding BraveSearchURL_def Let_def d_def[symmetric] by auto
  then show "unescape True (first_param ''https://search.brave.com/search'' (BraveSearchURL U q tr)) = q"
    unfolding d_def[symmetric] using first_param_more[of d q] unescape_QueryEscape[of q] by metis
next
  define d where "d = ''https://www.bing.com/search''"
  have "BingSearchURL U tz now q tr = d @ ''?q='' @ QueryEscape q
    \<or> (\<exists>r. BingSearchURL U tz now q tr = d @ ''?q='' @ QueryEscape q @ CHR ''&'' # r)"
    unfolding BingSearchURL_def Let_def d_def[symmetric] by auto
  then show "unescape True (first_param ''https://www.bing.com/search'' (BingSearchURL U tz now q tr)) = q"
    unfolding d_def[symmetric] using first_param_end[of d q] first_param_more[of d q] unescape_QueryEscape[of q] by metis
qed

end
