(* ===== verification/Ws_Parse.thy ===== *)
theory Ws_Parse
  imports Ws_Http
begin

text \<open>
  Turning an engine's answer into results: \<open>ddg_parse.go\<close>, the parsing parts of
  \<open>brave.go\<close>, \<open>bing.go\<close>, \<open>startpage.go\<close>, \<open>yep.go\<close>,
  \<open>reddit.go\<close>, \<open>arxiv.go\<close>, \<open>yandex_parse.go\<close>, \<open>stackoverflow.go\<close>
  of package \<open>websearch\<close>, and \<open>mojeek.go\<close>, \<open>wikipedia.go\<close>,
  \<open>marginalia.go\<close>, \<open>brave_api.go\<close> of package \<open>search\<close>.

  The HTML library is a parameter: a \<open>dom\<close> gives the document of a text, the
  nodes a selector finds below a node, a node's text and its attributes.  A
  selection is a list of nodes.  Likewise each JSON or XML decoder is a parameter
  that answers the Go struct, decoding errors as \<open>Inl\<close>.
\<close>

record 'n dom =
  NewDocument :: "string \<Rightarrow> 'n result"
  Find :: "string \<Rightarrow> 'n \<Rightarrow> 'n list"
  Text :: "'n \<Rightarrow> string"
  Attr :: "string \<Rightarrow> 'n \<Rightarrow> string option"

definition First :: "'n list \<Rightarrow> 'n list" where
  "First s = take 1 s"

definition sel_text :: "'n dom \<Rightarrow> 'n list \<Rightarrow> string" where
  "sel_text D s = concat (map (Text D) s)"

definition sel_attr :: "'n dom \<Rightarrow> string \<Rightarrow> 'n list \<Rightarrow> string option" where
  "sel_attr D a s = (case s of [] \<Rightarrow> None | n # _ \<Rightarrow> Attr D a n)"

definition directResultScore :: real where
  "directResultScore = 1"

definition engine_result :: "string \<Rightarrow> string \<Rightarrow> string \<Rightarrow> string \<Rightarrow> Result" where
  "engine_result eng t content u =
     \<lparr>Title = t, URL = u, Content = content, Score = directResultScore, Metadata = [(''engine'', eng)]\<rparr>"

definition each_node ::
  "string \<Rightarrow> 'n dom \<Rightarrow> string \<Rightarrow> ('n \<Rightarrow> Result option) \<Rightarrow> string \<Rightarrow> Result list result" where
  "each_node ctx D sel f body =
     (case NewDocument D body of
        Inl e \<Rightarrow> Inl (ErrWrap ctx e)
      | Inr doc \<Rightarrow> Inr (List.map_filter f (Find D sel doc)))"

subsection \<open>DuckDuckGo\<close>

text \<open>\<open>query_of\<close> is \<open>url.Parse\<close> followed by \<open>Query().Get\<close>: \<open>None\<close> when
  parsing fails, the empty string when the key is absent.\<close>

definition DDGUnwrapURL :: "(string \<Rightarrow> string \<Rightarrow> string option) \<Rightarrow> string \<Rightarrow> string" where
  "DDGUnwrapURL query_of href =
     (let plain = (if HasPrefix href ''http'' then href else '''')
      in if Contains href ''duckduckgo.com/l/'' \<or> Contains href ''uddg='' then
           (case query_of href ''uddg'' of
              Some uddg \<Rightarrow> if uddg \<noteq> '''' then uddg else plain
            | None \<Rightarrow> plain)
         else plain)"

definition ddg_node :: "(string \<Rightarrow> string \<Rightarrow> string option) \<Rightarrow> 'n dom \<Rightarrow> 'n \<Rightarrow> Result option" where
  "ddg_node query_of D s =
     (let link = First (Find D ''a.result__a, .result__title a, a.result-link'' s);
          title = TrimSpace (sel_text D link)
      in case sel_attr D ''href'' link of
           None \<Rightarrow> None
         | Some href \<Rightarrow>
             if title = '''' then None
             else let href = DDGUnwrapURL query_of href
                  in if href = '''' then None
                     else Some (engine_result ''ddg'' title
                       (TrimSpace (sel_text D (First (Find D ''.result__snippet, .result__body'' s)))) href))"

definition ParseDDGHTML ::
  "(string \<Rightarrow> string \<Rightarrow> string option) \<Rightarrow> 'n dom \<Rightarrow> string \<Rightarrow> Result list result" where
  "ParseDDGHTML query_of D = each_node ''goquery parse: '' D ''.result, .web-result'' (ddg_node query_of D)"

record ddgResult =
  ddg_T :: string
  ddg_A :: string
  ddg_U :: string
  ddg_C :: string

definition ddgDJSTruncateLen :: nat where
  "ddgDJSTruncateLen = 200"

text \<open>From the first \<open>[\<close> to the last \<open>]\<close> of the trimmed body.\<close>

definition strip_jsonp :: "string \<Rightarrow> string" where
  "strip_jsonp body =
     (case Index body ''['' of
        None \<Rightarrow> body
      | Some i \<Rightarrow>
          (case LastIndex body '']'' of
             Some e \<Rightarrow> if e > i then take (e + 1 - i) (drop i body) else body
           | None \<Rightarrow> body))"

definition ddg_item :: "ddgResult \<Rightarrow> Result option" where
  "ddg_item r =
     (let u = (if ddg_U r = '''' then ddg_C r else ddg_U r)
      in if u = '''' \<or> ddg_T r = '''' then None
         else if HasPrefix u ''https://duckduckgo.com/'' then None
         else Some (engine_result ''ddg'' (CleanHTML (ddg_T r)) (CleanHTML (ddg_A r)) u))"

definition ParseDDGResponse :: "(string \<Rightarrow> ddgResult list result) \<Rightarrow> string \<Rightarrow> Result list result" where
  "ParseDDGResponse dec data =
     (let body = strip_jsonp (TrimSpace data)
      in case dec body of
           Inl e \<Rightarrow> Inl (ErrWrap (''ddg json parse (first 200 bytes: '' @ take ddgDJSTruncateLen body @ '')'') e)
         | Inr raw \<Rightarrow> Inr (List.map_filter ddg_item raw))"

text \<open>The three patterns of \<open>vqdPatterns\<close>; each gives its leftmost match.\<close>

fun leftmost :: "(string \<Rightarrow> string option) \<Rightarrow> string \<Rightarrow> string option" where
  "leftmost f [] = f []"
| "leftmost f (c # cs) = (case f (c # cs) of Some x \<Rightarrow> Some x | None \<Rightarrow> leftmost f cs)"

definition vqd_quoted :: "char \<Rightarrow> string \<Rightarrow> string option" where
  "vqd_quoted q s =
     (if HasPrefix s (''vqd='' @ [q]) then
        (let r = drop 5 s; x = takeWhile (\<lambda>c. c \<noteq> q) r
         in if x \<noteq> '''' \<and> length x < length r then Some x else None)
      else None)"

definition vqd_char :: "char \<Rightarrow> bool" where
  "vqd_char c \<longleftrightarrow> alnum c \<or> c = CHR ''_'' \<or> c = CHR ''-''"

definition vqd_bare :: "string \<Rightarrow> string option" where
  "vqd_bare s =
     (if HasPrefix s ''vqd='' then
        (let x = takeWhile vqd_char (drop 4 s) in if x \<noteq> '''' then Some x else None)
      else None)"

definition ExtractVQD :: "string \<Rightarrow> string" where
  "ExtractVQD body =
     (case first_some (\<lambda>f. leftmost f body) [vqd_quoted (CHR 0x27), vqd_quoted (CHR 0x22), vqd_bare] of
        Some x \<Rightarrow> x
      | None \<Rightarrow> '''')"

subsection \<open>Brave, Startpage, Mojeek\<close>

definition brave_node :: "'n dom \<Rightarrow> 'n \<Rightarrow> Result option" where
  "brave_node D s =
     (let title = TrimSpace (sel_text D (First (Find D ''.title'' s)))
      in case sel_attr D ''href'' (First (Find D ''a[href^='http']'' s)) of
           None \<Rightarrow> None
         | Some href \<Rightarrow>
             if title = '''' \<or> href = '''' then None
             else Some (engine_result ''brave'' title
               (TrimSpace (sel_text D (First (Find D ''[class*='content'][class*='t-primary']'' s)))) href))"

definition ParseBraveHTML :: "'n dom \<Rightarrow> string \<Rightarrow> Result list result" where
  "ParseBraveHTML D = each_node ''goquery parse: '' D ''[data-pos]'' (brave_node D)"

definition startpage_node :: "'n dom \<Rightarrow> 'n \<Rightarrow> Result option" where
  "startpage_node D s =
     (let link = First (Find D ''a.w-gl__result-title, h3 a, a.result-link'' s);
          title = TrimSpace (sel_text D link)
      in case sel_attr D ''href'' link of
           None \<Rightarrow> None
         | Some href \<Rightarrow>
             if title = '''' then None
             else if href = '''' \<or> Contains href ''startpage.com/do/'' then None
             else Some (engine_result ''startpage'' title
               (TrimSpace (sel_text D
                 (First (Find D ''p.w-gl__description, .w-gl__description, p.result-description'' s)))) href))"

definition ParseStartpageHTML :: "'n dom \<Rightarrow> string \<Rightarrow> Result list result" where
  "ParseStartpageHTML D = each_node ''goquery parse: '' D ''.w-gl__result, .result'' (startpage_node D)"

definition mojeek_node :: "'n dom \<Rightarrow> 'n \<Rightarrow> Result option" where
  "mojeek_node D s =
     (let a = Find D ''h2 a.title'' s;
          title = TrimSpace (sel_text D a);
          href = (case sel_attr D ''href'' a of Some h \<Rightarrow> h | None \<Rightarrow> '''')
      in if title = '''' \<or> href = '''' then None
         else Some (engine_result ''mojeek'' title (TrimSpace (sel_text D (Find D ''p.s'' s))) href))"

definition ParseMojeekHTML :: "'n dom \<Rightarrow> string \<Rightarrow> Result list result" where
  "ParseMojeekHTML D = each_node ''mojeek: html parse: '' D ''ul.results-standard li'' (mojeek_node D)"

subsection \<open>Bing\<close>

text \<open>\<open>base64.RawURLEncoding.DecodeString\<close>: no padding, the URL alphabet, line
  breaks skipped.  The trailing bits of a partial group are dropped.\<close>

definition b64_url :: string where
  "b64_url = ''ABCDEFGHIJKLMNOPQRSTUVWXYZabcdefghijklmnopqrstuvwxyz0123456789-_''"

definition b64_std :: string where
  "b64_std = ''ABCDEFGHIJKLMNOPQRSTUVWXYZabcdefghijklmnopqrstuvwxyz0123456789+/''"

definition b64_val :: "string \<Rightarrow> char \<Rightarrow> nat option" where
  "b64_val alphabet c = IndexByte alphabet c"

fun b64_groups :: "nat list \<Rightarrow> string option" where
  "b64_groups [] = Some []"
| "b64_groups [a] = None"
| "b64_groups [a, b] = Some [mkbyte (4 * a + b div 16)]"
| "b64_groups [a, b, c] = Some [mkbyte (4 * a + b div 16), mkbyte ((b mod 16) * 16 + c div 4)]"
| "b64_groups (a # b # c # d # vs) =
     (case b64_groups vs of
        Some s \<Rightarrow> Some (mkbyte (4 * a + b div 16) # mkbyte ((b mod 16) * 16 + c div 4)
                    # mkbyte ((c mod 4) * 64 + d) # s)
      | None \<Rightarrow> None)"

fun opt_list :: "'a option list \<Rightarrow> 'a list option" where
  "opt_list [] = Some []"
| "opt_list (x # xs) = (case (x, opt_list xs) of (Some a, Some as) \<Rightarrow> Some (a # as) | _ \<Rightarrow> None)"

definition RawURL_Decode :: "string \<Rightarrow> string option" where
  "RawURL_Decode s =
     (case opt_list (map (b64_val b64_url) (filter (\<lambda>c. byte c \<noteq> 10 \<and> byte c \<noteq> 13) s)) of
        Some vs \<Rightarrow> b64_groups vs
      | None \<Rightarrow> None)"

fun b64_encode :: "string \<Rightarrow> nat list \<Rightarrow> string" where
  "b64_encode al [] = []"
| "b64_encode al [x] = [al ! (x div 4), al ! ((x mod 4) * 16)]"
| "b64_encode al [x, y] = [al ! (x div 4), al ! ((x mod 4) * 16 + y div 16), al ! ((y mod 16) * 4)]"
| "b64_encode al (x # y # z # s) =
     [al ! (x div 4), al ! ((x mod 4) * 16 + y div 16), al ! ((y mod 16) * 4 + z div 64), al ! (z mod 64)]
     @ b64_encode al s"

definition bingUnwrapURL :: "(string \<Rightarrow> string \<Rightarrow> string option) \<Rightarrow> string \<Rightarrow> string" where
  "bingUnwrapURL query_of rawURL =
     (if \<not> Contains rawURL ''bing.com/ck/a'' then rawURL
      else case query_of rawURL ''u'' of
        None \<Rightarrow> rawURL
      | Some encoded \<Rightarrow>
          if encoded = '''' then rawURL
          else
            let encoded = (if length encoded > 2 \<and> encoded ! 0 = CHR ''a'' \<and> is_digit_byte (encoded ! 1)
                           then drop 2 encoded else encoded)
            in case RawURL_Decode encoded of Some d \<Rightarrow> d | None \<Rightarrow> rawURL)"

definition parseBingTilkFallback :: "'n dom \<Rightarrow> 'n \<Rightarrow> string \<Rightarrow> (string \<times> string) option" where
  "parseBingTilkFallback D s titleIn =
     (let tilk = First (Find D ''a.tilk'' s);
          citeText = TrimSpace (sel_text D (First (Find D ''cite'' s)));
          tilkHref = (case sel_attr D ''href'' tilk of Some h \<Rightarrow> h | None \<Rightarrow> '''');
          label = TrimSpace (case sel_attr D ''aria-label'' tilk of Some l \<Rightarrow> l | None \<Rightarrow> '''');
          title = (if titleIn = '''' then (if label = '''' then citeText else label) else titleIn)
      in if tilkHref = '''' then
           (if citeText = '''' then None
            else Some (if HasPrefix citeText ''http'' then citeText else ''https://'' @ citeText, title))
         else Some (tilkHref, title))"

definition parseBingResult :: "(string \<Rightarrow> string \<Rightarrow> string option) \<Rightarrow> 'n dom \<Rightarrow> 'n \<Rightarrow> Result option" where
  "parseBingResult query_of D s =
     (let link = First (Find D ''h2 a'' s);
          title = TrimSpace (sel_text D link);
          href = sel_attr D ''href'' link;
          pick = (if href = None \<or> title = '''' \<or> href = Some '''' then parseBingTilkFallback D s title
                  else Some (the href, title))
      in case pick of
           None \<Rightarrow> None
         | Some (href, title) \<Rightarrow>
             if title = '''' \<or> href = '''' then None
             else Some (engine_result ''bing'' title
               (TrimSpace (sel_text D
                 (First (Find D ''.b_caption p, p.b_lineclamp2, p.b_lineclamp3, p.b_lineclamp4'' s))))
               (bingUnwrapURL query_of href)))"

definition ParseBingHTML ::
  "(string \<Rightarrow> string \<Rightarrow> string option) \<Rightarrow> 'n dom \<Rightarrow> string \<Rightarrow> Result list result" where
  "ParseBingHTML query_of D =
     each_node ''goquery parse: '' D ''#b_results > li.b_algo'' (parseBingResult query_of D)"

subsection \<open>JSON and XML engines\<close>

record yepResult =
  yep_URL :: string
  yep_Title :: string
  yep_Snippet :: string
  yep_Type :: string

definition yep_item :: "yepResult \<Rightarrow> Result option" where
  "yep_item r =
     (if yep_Type r \<noteq> ''Organic'' \<or> yep_URL r = '''' \<or> yep_Title r = '''' then None
      else Some (engine_result ''yep'' (yep_Title r) (yep_Snippet r) (yep_URL r)))"

text \<open>The three decodings of \<open>["Ok", {"results": [...]}]\<close>: the envelope, its first
  element as a string, its second as the body.\<close>

definition ParseYepJSON ::
  "(string \<Rightarrow> string list result) \<Rightarrow> (string \<Rightarrow> string result) \<Rightarrow> (string \<Rightarrow> yepResult list result)
   \<Rightarrow> string \<Rightarrow> Result list result" where
  "ParseYepJSON dec_env dec_str dec_body data =
     (case dec_env data of
        Inl e \<Rightarrow> Inl (ErrWrap ''unmarshal envelope: '' e)
      | Inr raw \<Rightarrow>
          if length raw < 2 then Inl (ErrNew (''unexpected response length '' @ Itoa (int (length raw))))
          else if dec_str (raw ! 0) \<noteq> Inr ''Ok'' then Inl (ErrNew (''yep status: '' @ raw ! 0))
          else case dec_body (raw ! 1) of
            Inl e \<Rightarrow> Inl (ErrWrap ''unmarshal body: '' e)
          | Inr items \<Rightarrow> Inr (List.map_filter yep_item items))"

record redditPost =
  rp_Title :: string
  rp_Permalink :: string
  rp_Selftext :: string
  rp_Score :: int
  rp_NumComments :: int
  rp_Subreddit :: string

definition redditMaxSelftext :: nat where
  "redditMaxSelftext = 300"

definition reddit_item :: "redditPost \<Rightarrow> Result option" where
  "reddit_item p =
     (if rp_Title p = '''' \<or> rp_Permalink p = '''' then None
      else
        let selftext = take redditMaxSelftext (rp_Selftext p);
            content = ''r/'' @ rp_Subreddit p @ '' | '' @ Itoa (rp_Score p) @ '' pts | ''
              @ Itoa (rp_NumComments p) @ '' comments'' @ [CHR 0x0A] @ TrimSpace selftext
        in Some \<lparr>Title = rp_Title p, URL = ''https://www.reddit.com'' @ rp_Permalink p,
                 Content = TrimSpace content, Score = directResultScore,
                 Metadata = [(''engine'', ''reddit''), (''subreddit'', rp_Subreddit p)]\<rparr>)"

definition ParseRedditJSON :: "(string \<Rightarrow> redditPost list result) \<Rightarrow> string \<Rightarrow> Result list result" where
  "ParseRedditJSON dec data =
     (case dec data of
        Inl e \<Rightarrow> Inl (ErrWrap ''json decode: '' e)
      | Inr posts \<Rightarrow> Inr (List.map_filter reddit_item posts))"

text \<open>\<open>strings.EqualFold\<close> against an ASCII text: beyond the two cases of a letter, the
  Kelvin sign folds to k and the long s to s.\<close>

definition fold_eq :: "rune \<Rightarrow> char \<Rightarrow> bool" where
  "fold_eq r c \<longleftrightarrow> r < 128 \<and> lower_byte (mkbyte r) = lower_byte c
     \<or> r = 0x212A \<and> lower_byte c = CHR ''k'' \<or> r = 0x17F \<and> lower_byte c = CHR ''s''"

definition EqualFold :: "string \<Rightarrow> string \<Rightarrow> bool" where
  "EqualFold s t \<longleftrightarrow> list_all2 fold_eq (runes s) t"

text \<open>The decoder answers the number in \<open>error\<close>, if it is one, and \<open>message\<close>.\<close>

definition isRedditRateLimited :: "(string \<Rightarrow> (real option \<times> string) option) \<Rightarrow> string \<Rightarrow> bool" where
  "isRedditRateLimited dec data =
     (case dec data of
        None \<Rightarrow> False
      | Some (err, msg) \<Rightarrow>
          (case err of Some v \<Rightarrow> 429 \<le> v \<and> v < 430 | None \<Rightarrow> False)
          \<or> EqualFold msg ''Too Many Requests'')"

record arxivEntry =
  ax_Title :: string
  ax_ID :: string
  ax_Summary :: string
  ax_Authors :: "string list"

definition arxiv_item :: "arxivEntry \<Rightarrow> Result option" where
  "arxiv_item e =
     (let title = TrimSpace (ax_Title e);
          authors = filter (\<lambda>n. n \<noteq> '''') (map TrimSpace (ax_Authors e));
          content = TrimSpace (ax_Summary e)
      in if title = '''' \<or> ax_ID e = '''' then None
         else Some (engine_result ''arxiv'' title
           (if authors \<noteq> [] then ''Authors: '' @ Join authors '', '' @ [CHR 0x0A] @ content else content)
           (TrimSpace (ax_ID e))))"

definition ParseArxivAtom :: "(string \<Rightarrow> arxivEntry list result) \<Rightarrow> string \<Rightarrow> Result list result" where
  "ParseArxivAtom dec data =
     (case dec data of
        Inl e \<Rightarrow> Inl (ErrWrap ''parse atom: '' e)
      | Inr es \<Rightarrow> Inr (List.map_filter arxiv_item es))"

record yandexXMLDoc =
  yx_URL :: string
  yx_Title :: string
  yx_Headline :: string
  yx_Passages :: "string list"

text \<open>A decoded Yandex answer: its error element, if any, and its groups of documents.\<close>

datatype yandex_answer = YandexXMLError int string | YandexGroups "yandexXMLDoc list list"

definition cleanXMLText :: "string \<Rightarrow> string" where
  "cleanXMLText s = TrimSpace (ReplaceAll (ReplaceAll s ''<hlword>'' '''') ''</hlword>'' '''')"

definition yandex_item :: "yandexXMLDoc \<Rightarrow> Result option" where
  "yandex_item d =
     (if yx_URL d = '''' then None
      else
        let title = cleanXMLText (yx_Title d);
            title = (if title = '''' then yx_Headline d else title);
            content = (if yx_Passages d \<noteq> [] then Join (yx_Passages d) '' '' else yx_Headline d)
        in Some (engine_result ''yandex'' title (cleanXMLText content) (yx_URL d)))"

definition ParseYandexXML :: "(string \<Rightarrow> yandex_answer result) \<Rightarrow> string \<Rightarrow> Result list result" where
  "ParseYandexXML dec data =
     (case dec data of
        Inl e \<Rightarrow> Inl (ErrWrap ''xml unmarshal: '' e)
      | Inr (YandexXMLError c m) \<Rightarrow> Inl (ErrNew (''yandex error '' @ Itoa c @ '': '' @ m))
      | Inr (YandexGroups gs) \<Rightarrow> Inr (concat (map (List.map_filter yandex_item) gs)))"

record soItem =
  so_Title :: string
  so_Link :: string
  so_Score :: int
  so_AnswerCount :: int
  so_Tags :: "string list"
  so_IsAnswered :: bool

definition so_item :: "soItem \<Rightarrow> Result option" where
  "so_item i =
     (if so_Title i = '''' \<or> so_Link i = '''' then None
      else Some (engine_result ''stackoverflow'' (so_Title i)
        (''['' @ Join (so_Tags i) '', '' @ ''] | '' @ Itoa (so_Score i) @ '' pts | '' @ Itoa (so_AnswerCount i)
         @ '' answers | '' @ (if so_IsAnswered i then ''answered'' else ''unanswered''))
        (so_Link i)))"

definition ParseStackOverflowJSON :: "(string \<Rightarrow> soItem list result) \<Rightarrow> string \<Rightarrow> Result list result" where
  "ParseStackOverflowJSON dec data =
     (case dec data of
        Inl e \<Rightarrow> Inl (ErrWrap ''parse json: '' e)
      | Inr is \<Rightarrow> Inr (List.map_filter so_item is))"

definition wikipedia_item :: "string \<Rightarrow> string \<times> string \<Rightarrow> Result option" where
  "wikipedia_item lang i =
     (let (title, snippet) = i
      in if title = '''' then None
         else Some (engine_result ''wikipedia'' title (CleanHTML snippet)
           (''https://'' @ lang @ ''.wikipedia.org/wiki/'' @ PathEscape (ReplaceAll title '' '' ''_''))))"

definition ParseWikipediaJSON ::
  "(string \<Rightarrow> (string \<times> string) list result) \<Rightarrow> string \<Rightarrow> string \<Rightarrow> Result list result" where
  "ParseWikipediaJSON dec data lang =
     (case dec data of
        Inl e \<Rightarrow> Inl (ErrWrap ''wikipedia: json decode: '' e)
      | Inr is \<Rightarrow> Inr (List.map_filter (wikipedia_item lang) is))"

record marginaliaItem =
  mg_URL :: string
  mg_Title :: string
  mg_Description :: string

definition marginalia_item :: "string \<Rightarrow> marginaliaItem \<Rightarrow> Result option" where
  "marginalia_item license i =
     (if mg_URL i = '''' \<or> mg_Title i = '''' then None
      else Some \<lparr>Title = mg_Title i, URL = mg_URL i, Content = mg_Description i, Score = 1,
        Metadata = [(''engine'', ''marginalia''), (''source_url'', ''https://search.marginalia.nu/''),
                    (''license'', license)]\<rparr>)"

definition ParseMarginaliaJSON ::
  "(string \<Rightarrow> (string \<times> marginaliaItem list) result) \<Rightarrow> string \<Rightarrow> Result list result" where
  "ParseMarginaliaJSON dec data =
     (case dec data of
        Inl e \<Rightarrow> Inl (ErrWrap ''marginalia: json decode: '' e)
      | Inr (license, is) \<Rightarrow> Inr (List.map_filter (marginalia_item license) is))"

subsection \<open>What the parsers deliver\<close>

text \<open>A usable result has a title and an address and names its engine.\<close>

definition usable :: "string \<Rightarrow> Result \<Rightarrow> bool" where
  "usable eng r \<longleftrightarrow> Title r \<noteq> '''' \<and> URL r \<noteq> '''' \<and> Score r = 1
     \<and> map_of (Metadata r) ''engine'' = Some eng"

definition all_usable :: "string \<Rightarrow> Result list result \<Rightarrow> bool" where
  "all_usable eng x \<longleftrightarrow> (case x of Inl _ \<Rightarrow> True | Inr rs \<Rightarrow> list_all (usable eng) rs)"

lemma usable_engine_result:
  "usable eng (engine_result eng t c u) \<longleftrightarrow> t \<noteq> '''' \<and> u \<noteq> ''''"
  by (simp add: usable_def engine_result_def directResultScore_def)

lemma map_filter_usable:
  "(\<And>x r. f x = Some r \<Longrightarrow> P r) \<Longrightarrow> list_all P (List.map_filter f xs)"
  by (induction xs) (auto simp: List.map_filter_def)

lemma each_node_usable:
  "(\<And>n r. f n = Some r \<Longrightarrow> usable eng r) \<Longrightarrow> all_usable eng (each_node ctx D sel f body)"
  by (auto simp: all_usable_def each_node_def map_filter_usable split: sum.splits)

lemma ddg_node_usable: "ddg_node q D n = Some r \<Longrightarrow> usable ''ddg'' r"
  by (auto simp: ddg_node_def Let_def usable_engine_result split: option.splits if_splits)

lemma brave_node_usable: "brave_node D n = Some r \<Longrightarrow> usable ''brave'' r"
  by (auto simp: brave_node_def Let_def usable_engine_result split: option.splits if_splits)

lemma startpage_node_usable: "startpage_node D n = Some r \<Longrightarrow> usable ''startpage'' r"
  by (auto simp: startpage_node_def Let_def usable_engine_result split: option.splits if_splits)

lemma mojeek_node_usable: "mojeek_node D n = Some r \<Longrightarrow> usable ''mojeek'' r"
  by (auto simp: mojeek_node_def Let_def usable_engine_result split: option.splits if_splits)

lemma yep_item_usable: "yep_item i = Some r \<Longrightarrow> usable ''yep'' r"
  by (auto simp: yep_item_def usable_engine_result split: if_splits)

lemma reddit_item_usable: "reddit_item i = Some r \<Longrightarrow> usable ''reddit'' r"
  by (auto simp: reddit_item_def usable_def directResultScore_def Let_def split: if_splits)

lemma so_item_usable: "so_item i = Some r \<Longrightarrow> usable ''stackoverflow'' r"
  by (auto simp: so_item_def usable_engine_result split: if_splits)

lemma wikipedia_item_usable: "wikipedia_item l i = Some r \<Longrightarrow> usable ''wikipedia'' r"
  by (auto simp: wikipedia_item_def usable_engine_result split: prod.splits if_splits)

lemma marginalia_item_usable: "marginalia_item l i = Some r \<Longrightarrow> usable ''marginalia'' r"
  by (auto simp: marginalia_item_def usable_def split: if_splits)


text \<open>In the JSON path of DuckDuckGo the emptiness test is on the title before its tags are
  removed, so a title made of tags only gives a result with an empty title.\<close>

lemma ddg_title_may_be_empty:
  "ddg_item \<lparr>ddg_T = ''<b></b>'', ddg_A = '''', ddg_U = ''https://a.b/'', ddg_C = ''''\<rparr>
   = Some (engine_result ''ddg'' '''' '''' ''https://a.b/'')"
proof -
  have "strip_tags ''<b></b>'' = ''''"
    by (simp add: strip_tags.simps IndexByte_def)
  moreover have "strip_tags '''' = ''''" by (simp add: strip_tags.simps)
  ultimately show ?thesis
    by (simp add: ddg_item_def CleanHTML_def TrimSpace_ascii is_ascii_def trim_runes_def of_runes_def)
qed

subsection \<open>Unwrapping\<close>

lemma LastIndex_single:
  "c \<notin> set g \<Longrightarrow> LastIndex (f @ c # g) [c] = Some (length f)"
proof (induction f)
  case Nil
  have "LastIndex g [c] = None" if "c \<notin> set g" for g
    using that by (induction g) (auto simp: HasPrefix_iff)
  with Nil show ?case by (simp add: HasPrefix_iff)
next
  case (Cons a f)
  then show ?case by simp
qed

lemma Index_single: "c \<notin> set f \<Longrightarrow> Index (f @ c # g) [c] = Some (length f)"
  by (induction f) (auto simp: HasPrefix_iff)

text \<open>The callback wrapper of a d.js answer is removed, whatever its name and tail, and a
  bare array is left as it is.\<close>

lemma strip_jsonp_wrapped:
  assumes "CHR ''['' \<notin> set f" "CHR '']'' \<notin> set g"
  shows "strip_jsonp (f @ ''['' @ x @ '']'' @ g) = ''['' @ x @ '']''"
proof -
  have i: "Index (f @ CHR ''['' # x @ CHR '']'' # g) ''['' = Some (length f)"
    by (rule Index_single[OF assms(1)])
  have e: "LastIndex (f @ CHR ''['' # x @ CHR '']'' # g) '']'' = Some (length f + Suc (length x))"
    using LastIndex_single[OF assms(2), of "f @ CHR ''['' # x"] by simp
  show ?thesis using i e by (simp add: strip_jsonp_def)
qed

text \<open>A base64 alphabet: 64 distinct characters, none of them a line break.\<close>

definition b64_ok :: "string \<Rightarrow> bool" where
  "b64_ok al \<longleftrightarrow> length al = 64 \<and> distinct al \<and> CHR 0x0A \<notin> set al \<and> CHR 0x0D \<notin> set al"

lemma b64_alphabet: "b64_ok b64_url" "b64_ok b64_std"
  by (simp_all add: b64_ok_def b64_url_def b64_std_def)

lemma IndexByte_nth: "distinct al \<Longrightarrow> i < length al \<Longrightarrow> IndexByte al (al ! i) = Some i"
proof -
  assume d: "distinct al" and i: "i < length al"
  then obtain k where k: "IndexByte al (al ! i) = Some k"
    using IndexByte_None[of al "al ! i"] nth_mem by (cases "IndexByte al (al ! i)") auto
  from IndexByte_Some[OF k] have "k < length al" "al ! k = al ! i" by auto
  with d i k show ?thesis by (simp add: nth_eq_iff_index_eq)
qed

lemma b64_val_nth: "b64_ok al \<Longrightarrow> i < 64 \<Longrightarrow> b64_val al (al ! i) = Some i"
  by (simp add: b64_val_def IndexByte_nth b64_ok_def)

lemma b64_nth_kept: "b64_ok al \<Longrightarrow> i < 64 \<Longrightarrow> byte (al ! i) \<noteq> 10 \<and> byte (al ! i) \<noteq> 13"
proof -
  assume ok: "b64_ok al" and "i < 64"
  then have "al ! i \<in> set al" by (simp add: b64_ok_def)
  then have "al ! i \<noteq> CHR 0x0A" "al ! i \<noteq> CHR 0x0D" using ok unfolding b64_ok_def by metis+
  moreover have "byte c = byte (CHR 0x0A) \<longleftrightarrow> c = CHR 0x0A" "byte c = byte (CHR 0x0D) \<longleftrightarrow> c = CHR 0x0D" for c
    by (rule of_char_eq_iff)+
  ultimately show ?thesis by simp
qed

text \<open>The six-bit groups of a byte string.\<close>

fun sextets :: "nat list \<Rightarrow> nat list" where
  "sextets [] = []"
| "sextets [x] = [x div 4, (x mod 4) * 16]"
| "sextets [x, y] = [x div 4, (x mod 4) * 16 + y div 16, (y mod 16) * 4]"
| "sextets (x # y # z # s) =
     [x div 4, (x mod 4) * 16 + y div 16, (y mod 16) * 4 + z div 64, z mod 64] @ sextets s"

lemma b64_encode_sextets: "b64_encode al bs = map ((!) al) (sextets bs)"
  by (induction bs rule: sextets.induct) simp_all

lemma sextets_bound: "list_all (\<lambda>b. b < 256) bs \<Longrightarrow> list_all (\<lambda>v. v < 64) (sextets bs)"
  by (induction bs rule: sextets.induct) auto

lemma b64_groups_sextets: "list_all (\<lambda>b. b < 256) bs \<Longrightarrow> b64_groups (sextets bs) = Some (map mkbyte bs)"
proof (induction bs rule: sextets.induct)
  case (4 x y z s)
  have "(x mod 4 * 16 + y div 16) div 16 = x mod 4" "(x mod 4 * 16 + y div 16) mod 16 = y div 16"
    "(y mod 16 * 4 + z div 64) div 4 = y mod 16" "(y mod 16 * 4 + z div 64) mod 4 = z div 64"
    using 4(2) by auto
  with 4 show ?case by simp
qed (auto simp: mult.commute)

lemma opt_list_map: "(\<And>x. x \<in> set xs \<Longrightarrow> f x = Some (g x)) \<Longrightarrow> opt_list (map f xs) = Some (map g xs)"
  by (induction xs) auto

text \<open>Encoded text has no line break, and its characters read back as the groups of the bytes.\<close>

lemma b64_encoded_reads:
  assumes "b64_ok al"
  shows "filter (\<lambda>c. byte c \<noteq> 10 \<and> byte c \<noteq> 13) (b64_encode al (map byte s)) = b64_encode al (map byte s)"
    and "opt_list (map (b64_val al) (b64_encode al (map byte s))) = Some (sextets (map byte s))"
    and "b64_groups (sextets (map byte s)) = Some s"
proof -
  let ?v = "sextets (map byte s)"
  have b: "list_all (\<lambda>b. b < 256) (map byte s)" by (simp add: list_all_iff)
  then have v: "\<forall>i \<in> set ?v. i < 64" using sextets_bound[OF b] by (simp add: list_all_iff)
  then show "filter (\<lambda>c. byte c \<noteq> 10 \<and> byte c \<noteq> 13) (b64_encode al (map byte s)) = b64_encode al (map byte s)"
    unfolding b64_encode_sextets using b64_nth_kept[OF assms] by (simp add: filter_id_conv)
  have "opt_list (map (b64_val al \<circ> (!) al) ?v) = Some (map (\<lambda>i. i) ?v)"
    by (rule opt_list_map) (use v b64_val_nth[OF assms] in auto)
  then show "opt_list (map (b64_val al) (b64_encode al (map byte s))) = Some ?v"
    by (simp add: b64_encode_sextets)
  show "b64_groups ?v = Some s" using b64_groups_sextets[OF b] by (simp add: comp_def)
qed

lemma RawURL_roundtrip: "RawURL_Decode (b64_encode b64_url (map byte s)) = Some s"
  by (simp only: RawURL_Decode_def b64_encoded_reads[OF b64_alphabet(1)] option.case)

lemma b64_encode_not_Nil: "s \<noteq> [] \<Longrightarrow> b64_encode al s \<noteq> []"
  by (cases "(al, s)" rule: b64_encode.cases) auto

text \<open>C40: A Bing redirect link whose parameter is the encoded destination, behind the version
  prefix Bing uses, is unwrapped to exactly that destination; a link that is not a
  redirect is kept.\<close>

theorem bing_unwrap_roundtrip:
  assumes "dest \<noteq> ''''" "Contains raw ''bing.com/ck/a''" "k < 10"
    and "query_of raw ''u'' = Some (''a'' @ [mkbyte (48 + k)] @ b64_encode b64_url (map byte dest))"
  shows "bingUnwrapURL query_of raw = dest"
proof -
  have ne: "b64_encode b64_url (map byte dest) \<noteq> []" using assms(1) by (intro b64_encode_not_Nil) simp
  have dig: "is_digit_byte (mkbyte (48 + k))" using assms(3) by (simp add: is_digit_byte_def)
  show ?thesis using assms(2,4) ne dig RawURL_roundtrip[of dest]
    by (auto simp: bingUnwrapURL_def Let_def)
qed

theorem bing_unwrap_roundtrip_witness:
  "bingUnwrapURL (\<lambda>_ _. Some (''a'' @ [mkbyte (48 + 1)] @ b64_encode b64_url (map byte ''https://a.b/'')))
     ''https://www.bing.com/ck/a?u=x'' = ''https://a.b/''"
  by (rule bing_unwrap_roundtrip[where k = 1]) (simp_all add: Contains_def)

end
