(* ===== verification/Ws_Engines.thy ===== *)
theory Ws_Engines
  imports Ws_Parse
begin

text \<open>
  The providers of package \<open>websearch\<close>: their \<open>Search\<close> methods over a
  \<open>BrowserDoer\<close> or an HTTP client, and the combinators \<open>Fallback\<close> and
  \<open>RateLimited\<close>.  \<open>ws_env\<close> holds what is outside the package: the clock,
  the context, the HTML library and the decoders.  The contract of a provider is
  the locale \<open>provider\<close>; every engine is an instance, and the combinators
  preserve it.
\<close>

record ('w, 'n) ws_env =
  ws_U :: unicode_tables
  ws_tz :: duration
  ws_now :: "'w \<Rightarrow> instant"
  ws_ctxErr :: "'w \<Rightarrow> go_error option"
  ws_defaultUA :: string
  ws_dom :: "'n dom"
  ws_query_of :: "string \<Rightarrow> string \<Rightarrow> string option"
  ws_dec_ddg :: "string \<Rightarrow> ddgResult list result"
  ws_dec_yep_env :: "string \<Rightarrow> string list result"
  ws_dec_string :: "string \<Rightarrow> string result"
  ws_dec_yep :: "string \<Rightarrow> yepResult list result"
  ws_dec_reddit :: "string \<Rightarrow> redditPost list result"
  ws_dec_reddit_err :: "string \<Rightarrow> (real option \<times> string) option"

text \<open>A doer with the identity of its client, if it is a stealth client.\<close>

record 'w browser =
  Do :: "'w doer"
  identity :: "string option"

type_synonym 'w search = "string \<Rightarrow> SearchOpts \<Rightarrow> 'w \<Rightarrow> Result list result \<times> 'w"

definition get :: "string \<Rightarrow> headers \<Rightarrow> http_request" where
  "get u h = \<lparr>Method = ''GET'', Url = u, Headers = h, Body = None\<rparr>"

definition post_form :: "string \<Rightarrow> headers \<Rightarrow> string \<Rightarrow> http_request" where
  "post_form u h body = \<lparr>Method = ''POST'', Url = u, Headers = h, Body = Some body\<rparr>"

definition chrome :: "('w, 'n) ws_env \<Rightarrow> 'w browser \<Rightarrow> (string \<times> string) list \<Rightarrow> headers" where
  "chrome E b kvs = with_headers kvs (ChromeHeadersFor (ws_defaultUA E) (identity b))"

text \<open>What Brave, Bing and Startpage do with an answer: statuses 403 and 429 and a body with
  block markers are rate limiting, other statuses are errors, the rest is parsed.\<close>

definition serp_answer ::
  "string \<Rightarrow> (string \<Rightarrow> bool) \<Rightarrow> (string \<Rightarrow> Result list result) \<Rightarrow> int \<Rightarrow> http_answer result
   \<Rightarrow> Result list result" where
  "serp_answer eng limited parse n ans =
     (case ans of
        Inl e \<Rightarrow> Inl (ErrWrap (eng @ '' request: '') e)
      | Inr (data, _, status) \<Rightarrow>
          if isRateLimitStatus status then Inl (ErrRateLimited eng 0)
          else if status \<noteq> 200 then Inl (ErrNew (eng @ '' status '' @ Itoa status))
          else if limited data then Inl (ErrRateLimited eng 0)
          else case parse data of
            Inl e \<Rightarrow> Inl (ErrWrap (eng @ '' parse: '') e)
          | Inr rs \<Rightarrow> Inr (applyLimit rs n))"

definition Brave_Search :: "('w, 'n) ws_env \<Rightarrow> 'w browser option \<Rightarrow> 'w search" where
  "Brave_Search E br query opts w =
     (case br of
        None \<Rightarrow> (Inl (ErrNew ''brave: BrowserDoer is required (use WithBraveBrowser)''), w)
      | Some b \<Rightarrow>
          (case ws_ctxErr E w of
             Some e \<Rightarrow> (Inl e, w)
           | None \<Rightarrow>
               let u = BraveSearchURL (ws_U E) query (TimeRange opts);
                   h = chrome E b [(''referer'', ''https://search.brave.com/''), (''accept'', acceptHTML)];
                   (ans, w1) = Do b (get u h) w
               in (serp_answer ''brave'' (IsBraveRateLimited (ws_U E)) (ParseBraveHTML (ws_dom E))
                     (Limit opts) ans, w1)))"

definition Bing_Search :: "('w, 'n) ws_env \<Rightarrow> 'w browser option \<Rightarrow> 'w search" where
  "Bing_Search E br query opts w =
     (case br of
        None \<Rightarrow> (Inl (ErrNew ''bing: BrowserDoer is required (use WithBingBrowser)''), w)
      | Some b \<Rightarrow>
          (case ws_ctxErr E w of
             Some e \<Rightarrow> (Inl e, w)
           | None \<Rightarrow>
               let u = BingSearchURL (ws_U E) (ws_tz E) (ws_now E w) query (TimeRange opts);
                   h = chrome E b [(''referer'', ''https://www.bing.com/''), (''accept'', acceptHTML)];
                   (ans, w1) = Do b (get u h) w
               in (serp_answer ''bing'' (IsBingRateLimited (ws_U E))
                     (ParseBingHTML (ws_query_of E) (ws_dom E)) (Limit opts) ans, w1)))"

definition startpageDefaultLang :: string where
  "startpageDefaultLang = ''english''"

definition Startpage_Search :: "('w, 'n) ws_env \<Rightarrow> 'w browser option \<Rightarrow> string \<Rightarrow> 'w search" where
  "Startpage_Search E br language query opts w =
     (case br of
        None \<Rightarrow> (Inl (ErrNew ''startpage: BrowserDoer is required (use WithStartpageBrowser)''), w)
      | Some b \<Rightarrow>
          (case ws_ctxErr E w of
             Some e \<Rightarrow> (Inl e, w)
           | None \<Rightarrow>
               let lang = (if Language opts \<noteq> '''' then Language opts else language);
                   withDate = timeRangeToStartpage (ws_U E) (TimeRange opts);
                   form = ''query='' @ QueryEscape query @ ''&cat=web&language='' @ QueryEscape lang
                     @ (if withDate \<noteq> '''' then ''&with_date='' @ withDate else '''');
                   h = chrome E b ([(''referer'', ''https://www.startpage.com/''),
                         (''content-type'', acceptFormURLEncoded), (''accept'', acceptHTML)]
                         @ (if withDate \<noteq> '''' then [(''cookie'', ''date_time=world'')] else []));
                   (ans, w1) = Do b (post_form ''https://www.startpage.com/sp/search'' h form) w
               in (serp_answer ''startpage'' (isStartpageRateLimited (ws_U E)) (ParseStartpageHTML (ws_dom E))
                     (Limit opts) ans, w1)))"

subsection \<open>DuckDuckGo\<close>

definition ddg_searchHTML ::
  "('w, 'n) ws_env \<Rightarrow> 'w browser \<Rightarrow> string \<Rightarrow> string \<Rightarrow> string \<Rightarrow> 'w \<Rightarrow> Result list result \<times> 'w" where
  "ddg_searchHTML E b query region timeRange w =
     (case ws_ctxErr E w of
        Some e \<Rightarrow> (Inl e, w)
      | None \<Rightarrow>
          let df = timeRangeToDDG (ws_U E) timeRange;
              form = ''q='' @ QueryEscape query @ ''&kl='' @ QueryEscape region @ ''&df='' @ QueryEscape df;
              h = chrome E b [(''referer'', ''https://html.duckduckgo.com/''), (''content-type'', acceptFormURLEncoded)];
              (ans, w1) = Do b (post_form ''https://html.duckduckgo.com/html/'' h form) w
          in (case ans of
                Inl e \<Rightarrow> Inl e
              | Inr (data, _, status) \<Rightarrow>
                  if isRateLimitStatus status then Inl (ErrRateLimited ''ddg'' 0)
                  else if status \<noteq> 200 then Inl (ErrNew (''ddg html status '' @ Itoa status))
                  else if IsDDGRateLimited (ws_U E) data then Inl (ErrRateLimited ''ddg'' 0)
                  else ParseDDGHTML (ws_query_of E) (ws_dom E) data, w1))"

definition ddg_getVQD :: "('w, 'n) ws_env \<Rightarrow> 'w browser \<Rightarrow> string \<Rightarrow> 'w \<Rightarrow> string result \<times> 'w" where
  "ddg_getVQD E b query w =
     (case ws_ctxErr E w of
        Some e \<Rightarrow> (Inl e, w)
      | None \<Rightarrow>
          let u = ''https://duckduckgo.com/'' @ ''?q='' @ QueryEscape query;
              h = chrome E b [(''referer'', ''https://duckduckgo.com/'')];
              (ans, w1) = Do b (get u h) w
          in (case ans of
                Inl e \<Rightarrow> Inl e
              | Inr (data, _, status) \<Rightarrow>
                  if status \<noteq> 200 then Inl (ErrNew (''ddg homepage status '' @ Itoa status))
                  else let vqd = ExtractVQD data
                       in if vqd \<noteq> '''' then Inr vqd
                          else Inl (ErrNew (''vqd token not found ('' @ Itoa (int (length data)) @ '' bytes)'')), w1))"

definition ddg_searchDJS ::
  "('w, 'n) ws_env \<Rightarrow> 'w browser \<Rightarrow> string \<Rightarrow> string \<Rightarrow> string \<Rightarrow> string \<Rightarrow> 'w \<Rightarrow> Result list result \<times> 'w" where
  "ddg_searchDJS E b query vqd region timeRange w =
     (case ws_ctxErr E w of
        Some e \<Rightarrow> (Inl e, w)
      | None \<Rightarrow>
          let df = timeRangeToDDG (ws_U E) timeRange;
              params = [(''q'', query), (''vqd'', vqd), (''kl'', region), (''l'', ''us-en''), (''o'', ''json'')]
                @ (if df \<noteq> '''' then [(''df'', df)] else []);
              u = ''https://links.duckduckgo.com/d.js'' @ ''?'' @ Encode params;
              h = chrome E b [(''referer'', ''https://duckduckgo.com/''),
                    (''accept'', ''application/json, text/javascript, */*; q=0.01'')];
              (ans, w1) = Do b (get u h) w
          in (case ans of
                Inl e \<Rightarrow> Inl e
              | Inr (data, _, status) \<Rightarrow>
                  if isRateLimitStatus status then Inl (ErrRateLimited ''ddg'' 0)
                  else if status \<noteq> 200 \<and> status \<noteq> 202 then Inl (ErrNew (''ddg d.js status '' @ Itoa status))
                  else ParseDDGResponse (ws_dec_ddg E) data, w1))"

definition ddgDefaultRegion :: string where
  "ddgDefaultRegion = ''wt-wt''"

text \<open>The JSON fallback of \<open>Search\<close>, entered when the HTML page failed or held nothing.\<close>

definition ddg_fallback ::
  "('w, 'n) ws_env \<Rightarrow> 'w browser \<Rightarrow> string \<Rightarrow> string \<Rightarrow> SearchOpts \<Rightarrow> 'w \<Rightarrow> Result list result \<times> 'w" where
  "ddg_fallback E b query region opts w =
     (case ddg_getVQD E b query w of
        (Inl e, w1) \<Rightarrow> (Inl (ErrWrap ''ddg vqd: '' e), w1)
      | (Inr vqd, w1) \<Rightarrow>
          (case ddg_searchDJS E b query vqd region (TimeRange opts) w1 of
             (Inl e, w2) \<Rightarrow> (Inl (ErrWrap ''ddg d.js: '' e), w2)
           | (Inr rs, w2) \<Rightarrow> (Inr (applyLimit rs (Limit opts)), w2)))"

definition DDG_Search :: "('w, 'n) ws_env \<Rightarrow> 'w browser \<Rightarrow> string \<Rightarrow> 'w search" where
  "DDG_Search E b region query opts w =
     (let region = (if Region opts \<noteq> '''' then Region opts else region)
      in case ddg_searchHTML E b query region (TimeRange opts) w of
           (Inr (r # rs), w1) \<Rightarrow> (Inr (applyLimit (r # rs) (Limit opts)), w1)
         | (_, w1) \<Rightarrow> ddg_fallback E b query region opts w1)"

text \<open>\<open>NewDDG\<close> refuses a nil browser.\<close>

definition NewDDG :: "'w browser option \<Rightarrow> string \<Rightarrow> ('w browser \<times> string) result" where
  "NewDDG br region =
     (case br of
        None \<Rightarrow> Inl (ErrNew ''ddg: BrowserDoer is required (use WithDDGBrowser)'')
      | Some b \<Rightarrow> Inr (b, region))"

subsection \<open>Yep and Reddit\<close>

definition Yep_Search :: "('w, 'n) ws_env \<Rightarrow> 'w browser option \<Rightarrow> 'w search" where
  "Yep_Search E br query opts w =
     (case br of
        None \<Rightarrow> (Inl (ErrNew ''yep: BrowserDoer is required (use WithYepBrowser)''), w)
      | Some b \<Rightarrow>
          (case ws_ctxErr E w of
             Some e \<Rightarrow> (Inl e, w)
           | None \<Rightarrow>
               let start = timeRangeToYepStart (ws_U E) (ws_now E w) (TimeRange opts);
                   args = [(''query'', query), (''safeSearch'', ''off''), (''type'', ''web'')]
                     @ (if start \<noteq> ''''
                        then [(''start_crawl_date'', start), (''end_crawl_date'', format_rfc3339 (ws_now E w))] else []);
                   u = ''https://api.yep.com/search'' @ ''?'' @ Encode args;
                   h = chrome E b [(''accept'', acceptJSON), (''referer'', ''https://yep.com/'')];
                   (ans, w1) = Do b (get u h) w
               in (case ans of
                     Inl e \<Rightarrow> Inl (ErrWrap ''yep request: '' e)
                   | Inr (data, _, status) \<Rightarrow>
                       if status \<noteq> 200 then Inl (ErrNew (''yep status '' @ Itoa status))
                       else case ParseYepJSON (ws_dec_yep_env E) (ws_dec_string E) (ws_dec_yep E) data of
                         Inl e \<Rightarrow> Inl (ErrWrap ''yep parse: '' e)
                       | Inr rs \<Rightarrow> Inr (applyLimit rs (Limit opts)), w1)))"

definition Reddit_Search :: "('w, 'n) ws_env \<Rightarrow> 'w browser option \<Rightarrow> 'w search" where
  "Reddit_Search E br query opts w =
     (case br of
        None \<Rightarrow> (Inl (ErrNew ''reddit: BrowserDoer is required (use WithRedditBrowser)''), w)
      | Some b \<Rightarrow>
          (case ws_ctxErr E w of
             Some e \<Rightarrow> (Inl e, w)
           | None \<Rightarrow>
               let rt = timeRangeToReddit (ws_U E) (TimeRange opts);
                   t = (if rt \<noteq> '''' then rt else ''all'');
                   u = ''https://www.reddit.com/search.json'' @ ''?q='' @ QueryEscape query
                     @ ''&limit=10&sort=relevance&t='' @ t;
                   h = chrome E b [(''accept'', acceptJSON)];
                   (ans, w1) = Do b (get u h) w
               in (case ans of
                     Inl e \<Rightarrow> Inl (ErrWrap ''reddit request: '' e)
                   | Inr (data, _, status) \<Rightarrow>
                       if isRateLimitStatus status then Inl (ErrRateLimited ''reddit'' 0)
                       else if isRedditRateLimited (ws_dec_reddit_err E) data then Inl (ErrRateLimited ''reddit'' 0)
                       else if status \<noteq> 200 then Inl (ErrNew (''reddit status '' @ Itoa status))
                       else case ParseRedditJSON (ws_dec_reddit E) data of
                         Inl e \<Rightarrow> Inl (ErrWrap ''reddit parse: '' e)
                       | Inr rs \<Rightarrow> Inr (applyLimit rs (Limit opts)), w1)))"

subsection \<open>Combinators\<close>

text \<open>\<open>Fallback\<close>: the first provider without an error; otherwise all errors joined.\<close>

fun fallback_loop :: "'w search list \<Rightarrow> go_error list \<Rightarrow> 'w search" where
  "fallback_loop [] errs query opts w = (Inl (ErrWrap ''all providers failed: '' (ErrJoin errs)), w)"
| "fallback_loop (p # ps) errs query opts w =
     (case p query opts w of
        (Inr rs, w1) \<Rightarrow> (Inr rs, w1)
      | (Inl e, w1) \<Rightarrow> fallback_loop ps (errs @ [e]) query opts w1)"

definition Fallback_Search :: "'w search list \<Rightarrow> 'w search" where
  "Fallback_Search ps = fallback_loop ps []"

text \<open>\<open>RateLimited\<close>: \<open>wait\<close> is the limiter's \<open>Wait\<close>.\<close>

definition RateLimited_Search :: "('w \<Rightarrow> go_error option \<times> 'w) \<Rightarrow> 'w search \<Rightarrow> 'w search" where
  "RateLimited_Search wait inner query opts w =
     (case wait w of
        (Some e, w1) \<Rightarrow> (Inl (ErrWrap ''rate limit: '' e), w1)
      | (None, w1) \<Rightarrow> inner query opts w1)"

subsection \<open>The contract of a provider\<close>

text \<open>A provider called under a finished context sends nothing and reports the context's
  error; and it honours a positive limit.\<close>

locale provider =
  fixes ctxErr :: "'w \<Rightarrow> go_error option"
    and search :: "'w search"
  assumes cancelled: "ctxErr w = Some e \<Longrightarrow> \<exists>e'. search q opts w = (Inl e', w) \<and> errors_Is e' e"
    and limited: "search q opts w = (Inr rs, w') \<Longrightarrow> Limit opts > 0 \<Longrightarrow> int (length rs) \<le> Limit opts"
begin

lemma cancelled_world: "ctxErr w = Some e \<Longrightarrow> snd (search q opts w) = w"
  using cancelled[of w e q opts] by auto

lemma cancelled_error: "ctxErr w = Some e \<Longrightarrow> \<not> is_ok (fst (search q opts w))"
  using cancelled[of w e q opts] by auto

lemma rate_limited_cancelled:
  assumes "\<And>w e. ctxErr w = Some e \<Longrightarrow> \<exists>e'. wait w = (Some e', w) \<and> errors_Is e' e"
  shows "provider ctxErr (RateLimited_Search wait search)"
proof
  fix w e q opts
  assume "ctxErr w = Some e"
  from assms[OF this] obtain e' where "wait w = (Some e', w)" "errors_Is e' e" by blast
  then show "\<exists>e'. RateLimited_Search wait search q opts w = (Inl e', w) \<and> errors_Is e' e"
    by (auto simp: RateLimited_Search_def)
next
  fix q opts w rs w'
  assume "RateLimited_Search wait search q opts w = (Inr rs, w')" "Limit opts > 0"
  then show "int (length rs) \<le> Limit opts"
    using limited by (auto simp: RateLimited_Search_def split: prod.splits option.splits)
qed

end

lemma applyLimit_bound: "n > 0 \<Longrightarrow> int (length (applyLimit xs n)) \<le> n"
  by (simp add: length_applyLimit)

lemma serp_answer_limited: "serp_answer eng l p n ans = Inr rs \<Longrightarrow> n > 0 \<Longrightarrow> int (length rs) \<le> n"
  by (auto simp: serp_answer_def applyLimit_bound split: sum.splits prod.splits if_splits)

interpretation brave: provider "ws_ctxErr E" "Brave_Search E (Some b)" for E b
  by unfold_locales
    (auto simp: Brave_Search_def errors_Is_refl Let_def split: option.splits prod.splits dest!: serp_answer_limited)

interpretation bing: provider "ws_ctxErr E" "Bing_Search E (Some b)" for E b
  by unfold_locales
    (auto simp: Bing_Search_def errors_Is_refl Let_def split: option.splits prod.splits dest!: serp_answer_limited)

interpretation startpage: provider "ws_ctxErr E" "Startpage_Search E (Some b) l" for E b l
  by unfold_locales
    (auto simp: Startpage_Search_def errors_Is_refl Let_def split: option.splits prod.splits if_splits
      dest!: serp_answer_limited)

interpretation yep: provider "ws_ctxErr E" "Yep_Search E (Some b)" for E b
  by unfold_locales
    (auto simp: Yep_Search_def errors_Is_refl Let_def applyLimit_bound
      split: option.splits prod.splits sum.splits if_splits)

interpretation reddit: provider "ws_ctxErr E" "Reddit_Search E (Some b)" for E b
  by unfold_locales
    (auto simp: Reddit_Search_def errors_Is_refl Let_def applyLimit_bound
      split: option.splits prod.splits sum.splits if_splits)

lemma ddg_cancelled:
  "ws_ctxErr E w = Some e \<Longrightarrow> DDG_Search E b r q opts w = (Inl (ErrWrap ''ddg vqd: '' e), w)"
  by (simp add: DDG_Search_def ddg_searchHTML_def ddg_fallback_def ddg_getVQD_def Let_def)

lemma ddg_limited:
  "DDG_Search E b r q opts w = (Inr rs, w') \<Longrightarrow> Limit opts > 0 \<Longrightarrow> int (length rs) \<le> Limit opts"
  by (auto simp: DDG_Search_def ddg_fallback_def Let_def applyLimit_bound
    split: prod.splits sum.splits list.splits)

interpretation ddg: provider "ws_ctxErr E" "DDG_Search E b r" for E b r
  by unfold_locales (auto simp: ddg_cancelled errors_Is_refl dest: ddg_limited)

text \<open>A small environment for evaluation: an empty world, no decodable answer.\<close>

definition still_env :: "go_error option \<Rightarrow> (unit, unit) ws_env" where
  "still_env ctx =
     \<lparr>ws_U = ascii_tables, ws_tz = 0, ws_now = (\<lambda>_. 0), ws_ctxErr = (\<lambda>_. ctx), ws_defaultUA = '''',
      ws_dom = \<lparr>NewDocument = (\<lambda>_. Inr ()), Find = (\<lambda>_ _. []), Text = (\<lambda>_. ''''), Attr = (\<lambda>_ _. None)\<rparr>,
      ws_query_of = (\<lambda>_ _. None), ws_dec_ddg = (\<lambda>_. Inr []), ws_dec_yep_env = (\<lambda>_. Inr []),
      ws_dec_string = (\<lambda>_. Inr ''''), ws_dec_yep = (\<lambda>_. Inr []), ws_dec_reddit = (\<lambda>_. Inr []),
      ws_dec_reddit_err = (\<lambda>_. None)\<rparr>"

definition still_browser :: "http_answer result \<Rightarrow> unit browser" where
  "still_browser ans = \<lparr>Do = (\<lambda>_ w. (ans, w)), identity = None\<rparr>"

text \<open>The combinator \<open>Fallback\<close> over providers is a provider.\<close>

lemma fallback_cancelled:
  assumes "\<forall>p \<in> set ps. provider ctxErr p" "ctxErr w = Some e" "ps \<noteq> [] \<or> list_ex (\<lambda>e'. errors_Is e' e) errs"
  shows "\<exists>e'. fallback_loop ps errs q opts w = (Inl e', w) \<and> errors_Is e' e"
  using assms
proof (induction ps arbitrary: errs)
  case Nil
  then show ?case by (auto simp: list_ex_iff)
next
  case (Cons p ps)
  then have "provider ctxErr p" by simp
  from provider.cancelled[OF this Cons.prems(2), of q opts]
  obtain e' where p: "p q opts w = (Inl e', w)" "errors_Is e' e" by blast
  from Cons.IH[of "errs @ [e']"] Cons.prems p show ?case by (simp add: list_ex_iff)
qed

lemma fallback_limited:
  assumes "\<forall>p \<in> set ps. provider ctxErr p" "fallback_loop ps errs q opts w = (Inr rs, w')" "Limit opts > 0"
  shows "int (length rs) \<le> Limit opts"
  using assms
proof (induction ps arbitrary: errs w)
  case (Cons p ps)
  then have "provider ctxErr p" by simp
  from provider.limited[OF this] Cons show ?case by (auto split: prod.splits sum.splits)
qed simp

lemma fallback_provider:
  assumes "ps \<noteq> []" "\<forall>p \<in> set ps. provider ctxErr p"
  shows "provider ctxErr (Fallback_Search ps)"
  using fallback_cancelled[OF assms(2)] fallback_limited[OF assms(2)] assms(1)
  unfolding Fallback_Search_def by unfold_locales blast+

text \<open>A chain of the browser engines under a finished context contacts no engine: the
  world is unchanged and the reported error carries the context's error, for any
  order and number of engines.\<close>

theorem fallback_chain_respects_cancel:
  assumes "ps \<noteq> []" "ws_ctxErr E w = Some e"
    and "set ps \<subseteq> {Brave_Search E (Some b), Bing_Search E (Some b), Startpage_Search E (Some b) l,
                   Yep_Search E (Some b), Reddit_Search E (Some b), DDG_Search E b r}"
  shows "\<exists>e'. Fallback_Search ps q opts w = (Inl e', w) \<and> errors_Is e' e"
proof -
  have "\<forall>p \<in> set ps. provider (ws_ctxErr E) p"
    using assms(3) brave.provider_axioms bing.provider_axioms startpage.provider_axioms
      yep.provider_axioms reddit.provider_axioms ddg.provider_axioms by blast
  from provider.cancelled[OF fallback_provider[OF assms(1) this] assms(2)] show ?thesis by blast
qed

theorem fallback_chain_respects_cancel_witness:
  "\<exists>e'. Fallback_Search [Brave_Search (still_env (Some Canceled)) (Some (still_browser (Inl Canceled)))]
     ''q'' no_opts () = (Inl e', ()) \<and> errors_Is e' Canceled"
  by (rule fallback_chain_respects_cancel[where E = "still_env (Some Canceled)" and b = "still_browser (Inl Canceled)"])
    (simp_all add: still_env_def)

text \<open>The chain returns the answer of the first engine that does not fail, and the later
  ones are not asked.\<close>

lemma fallback_first_success:
  assumes "p q opts w = (Inr rs, w1)"
  shows "Fallback_Search (p # ps) q opts w = (Inr rs, w1)"
  using assms by (simp add: Fallback_Search_def)

lemma fallback_skips_failure:
  assumes "p q opts w = (Inl e, w1)" "Fallback_Search ps q opts w1 = (Inr rs, w2)"
  shows "Fallback_Search (p # ps) q opts w = (Inr rs, w2)"
proof -
  have "fallback_loop ps es q opts w1 = (Inr rs, w2) \<longleftrightarrow> fallback_loop ps es' q opts w1 = (Inr rs, w2)" for es es' w1
    by (induction ps arbitrary: es es' w1) (auto split: prod.splits sum.splits)
  from this[of "[]" w1 "[e]"] assms show ?thesis unfolding Fallback_Search_def by simp
qed

subsection \<open>Blocked engines\<close>

lemma isRateLimitStatus_cases: "isRateLimitStatus st \<Longrightarrow> st \<noteq> 200"
  by (auto simp: isRateLimitStatus_def)

lemma serp_blocked: "isRateLimitStatus st \<Longrightarrow> serp_answer eng l p n (Inr (d, h, st)) = Inl (ErrRateLimited eng 0)"
  by (simp add: serp_answer_def)

text \<open>An engine that answers every request with 403 or 429 is reported as rate limited by
  Brave, Bing, Startpage and Reddit.  Not so for DuckDuckGo: the verdict of its
  HTML page is dropped, the token page's status becomes a plain error, and the
  caller sees no rate limit.\<close>

theorem blocked_engine_classification:
  assumes "\<And>rq. Do b rq w = (Inr (d, h, st), w)" "isRateLimitStatus st" "ws_ctxErr E w = None"
  shows "Brave_Search E (Some b) q opts w = (Inl (ErrRateLimited ''brave'' 0), w)
    \<and> Bing_Search E (Some b) q opts w = (Inl (ErrRateLimited ''bing'' 0), w)
    \<and> Startpage_Search E (Some b) l q opts w = (Inl (ErrRateLimited ''startpage'' 0), w)
    \<and> Reddit_Search E (Some b) q opts w = (Inl (ErrRateLimited ''reddit'' 0), w)
    \<and> (\<exists>e. DDG_Search E b r q opts w = (Inl e, w) \<and> As_RateLimited e = None)"
  using assms isRateLimitStatus_cases[OF assms(2)]
  by (simp add: Brave_Search_def Bing_Search_def Startpage_Search_def Reddit_Search_def serp_blocked
    DDG_Search_def ddg_searchHTML_def ddg_fallback_def ddg_getVQD_def Let_def)


theorem blocked_engine_classification_witness:
  "\<exists>e. DDG_Search (still_env None) (still_browser (Inr ('''', [], 429))) ddgDefaultRegion ''q'' no_opts () = (Inl e, ())
     \<and> As_RateLimited e = None"
  using blocked_engine_classification[of "still_browser (Inr ('''', [], 429))" "()" "''''" "[]" 429 "still_env None"
      "''q''" no_opts startpageDefaultLang ddgDefaultRegion]
  by (simp add: still_browser_def still_env_def isRateLimitStatus_def)

end
