(* ===== verification/Search_Ox.thy ===== *)
theory Search_Ox
  imports Search_Fanout Ws_Engines
begin

text \<open>
  The escalation tier of \<open>SearchDirect\<close> (\<open>runOxEscalation\<close> and below in
  \<open>search/direct_runners.go\<close>): after the fan-out, engines that are marked as
  blocked are tried through the stealth browser.  The browser's \<open>/fetch\<close> is a
  parameter.  Admission is sequential; the admitted engines then run at the same
  time, and a run is described by the order in which they finish.
\<close>

subsection \<open>One engine\<close>

type_synonym 'w ox_fetch = "string \<Rightarrow> 'w \<Rightarrow> string result \<times> 'w"

definition ox_page ::
  "(string \<Rightarrow> bool) \<Rightarrow> (string \<Rightarrow> Result list result) \<Rightarrow> string result \<Rightarrow> Result list \<times> string" where
  "ox_page limited parse html =
     (case html of
        Inl e \<Rightarrow> ([], ''fail'')
      | Inr page \<Rightarrow>
          (case parse page of
             Inl e \<Rightarrow> ([], ''fail'')
           | Inr rs \<Rightarrow>
               if rs = [] then ([], if limited page then ''captcha'' else ''empty'')
               else (rs, ''ok'')))"

definition runOxDDG :: "('w, 'n) ws_env \<Rightarrow> 'w ox_fetch \<Rightarrow> string \<Rightarrow> string \<Rightarrow> 'w \<Rightarrow> (Result list \<times> string) \<times> 'w" where
  "runOxDDG E fetch tr query w =
     (let (html, w1) = fetch (DDGHTMLURL (ws_U E) query tr) w
      in (ox_page (IsDDGRateLimited (ws_U E)) (ParseDDGHTML (ws_query_of E) (ws_dom E)) html, w1))"

definition runOxBrave :: "('w, 'n) ws_env \<Rightarrow> 'w ox_fetch \<Rightarrow> string \<Rightarrow> string \<Rightarrow> 'w \<Rightarrow> (Result list \<times> string) \<times> 'w" where
  "runOxBrave E fetch tr query w =
     (let (html, w1) = fetch (BraveSearchURL (ws_U E) query tr) w
      in (ox_page (IsBraveRateLimited (ws_U E)) (ParseBraveHTML (ws_dom E)) html, w1))"

definition runOxBing :: "('w, 'n) ws_env \<Rightarrow> 'w ox_fetch \<Rightarrow> string \<Rightarrow> string \<Rightarrow> 'w \<Rightarrow> (Result list \<times> string) \<times> 'w" where
  "runOxBing E fetch tr query w =
     (let (html, w1) = fetch (BingSearchURL (ws_U E) (ws_tz E) (ws_now E w) query tr) w
      in (ox_page (IsBingRateLimited (ws_U E)) (ParseBingHTML (ws_query_of E) (ws_dom E)) html, w1))"

definition runOxEngine ::
  "('w, 'n) ws_env \<Rightarrow> 'w ox_fetch \<Rightarrow> string \<Rightarrow> string \<Rightarrow> string \<Rightarrow> 'w \<Rightarrow> (Result list \<times> string) \<times> 'w" where
  "runOxEngine E fetch tr query l w =
     (if l = ''ddg'' then runOxDDG E fetch tr query w
      else if l = ''brave'' then runOxBrave E fetch tr query w
      else if l = ''bing'' then runOxBing E fetch tr query w
      else (([], ''fail''), w))"

definition defaultOxRenderDeadline :: duration where
  "defaultOxRenderDeadline = 8000000000"

definition ox_deadline :: "duration \<Rightarrow> duration" where
  "ox_deadline d = (if d \<le> 0 then defaultOxRenderDeadline else d)"

subsection \<open>Admission\<close>

text \<open>The labels of the allowlist that the cache reports as blocked; each query may drop an
  expired entry.\<close>

fun ox_eligible :: "(nat \<Rightarrow> instant) \<Rightarrow> nat \<Rightarrow> string list \<Rightarrow> DirectBlockCache \<Rightarrow> string list \<times> DirectBlockCache" where
  "ox_eligible clk i [] c = ([], c)"
| "ox_eligible clk i (l # ls) c =
     (let (blocked, c1) = IsBlocked (clk i) l c; (rest, c2) = ox_eligible clk (Suc i) ls c1
      in (if blocked then l # rest else rest, c2))"

text \<open>The semaphore: \<open>used\<close> slots of \<open>sem\<close> are taken; nobody releases one here.\<close>

fun acquireOxSlots :: "bool \<Rightarrow> nat \<Rightarrow> nat \<Rightarrow> string list \<Rightarrow> string list \<times> sr_event list" where
  "acquireOxSlots m sem used [] = ([], [])"
| "acquireOxSlots m sem used (l # ls) =
     (if used < sem
      then let (acq, ev) = acquireOxSlots m sem (Suc used) ls in (l # acq, ev)
      else let (acq, ev) = acquireOxSlots m sem used ls
           in (acq, (if m then [OxEscalation l ''skipped''] else []) @ ev))"

definition ox_concurrency :: "int \<Rightarrow> nat" where
  "ox_concurrency n = (if n \<le> 0 then 2 else nat n)"

subsection \<open>Completion\<close>

text \<open>What a finished goroutine leaves behind: its outcome is recorded, its results are
  appended in the order of completion, and an engine without results is unmarked.\<close>

record ox_state =
  ox_all :: "Result list"
  ox_events :: "sr_event list"
  ox_cache :: DirectBlockCache

definition ox_finish :: "bool \<Rightarrow> string \<times> Result list \<times> string \<Rightarrow> ox_state \<Rightarrow> ox_state" where
  "ox_finish m x s =
     (let (l, res, outcome) = x;
          s = s\<lparr>ox_events := ox_events s @ (if m then [OxEscalation l outcome] else [])\<rparr>
      in if res \<noteq> [] then s\<lparr>ox_all := ox_all s @ res\<rparr>
         else s\<lparr>ox_cache := Unmark l (ox_cache s)\<rparr>)"

text \<open>The engines the tier would try, with the cache after asking it: nothing when the tier
  is not configured or the fan-out already delivered enough.\<close>

definition ox_admitted ::
  "DirectConfig \<Rightarrow> (nat \<Rightarrow> instant) \<Rightarrow> int \<Rightarrow> int \<Rightarrow> DirectBlockCache option
   \<Rightarrow> string list \<times> sr_event list \<times> DirectBlockCache option" where
  "ox_admitted cfg clk mergedLen thr bc =
     (case bc of
        None \<Rightarrow> ([], [], None)
      | Some c \<Rightarrow>
          if \<not> hasOxFetch cfg \<or> OxEscalate cfg = [] \<or> mergedLen \<ge> thr then ([], [], Some c)
          else let (eligible, c1) = ox_eligible clk 0 (OxEscalate cfg) c;
                   (acq, ev) = acquireOxSlots (hasMetrics cfg) (ox_concurrency (OxConcurrency cfg)) 0 eligible
               in (acq, ev, Some c1))"

text \<open>The whole tier, for the engines finishing in the order of \<open>finished\<close>.\<close>

definition runOxEscalation ::
  "DirectConfig \<Rightarrow> (nat \<Rightarrow> instant) \<Rightarrow> int \<Rightarrow> int \<Rightarrow> DirectBlockCache option
   \<Rightarrow> (string \<times> Result list \<times> string) list \<Rightarrow> Result list \<times> sr_event list \<times> DirectBlockCache option" where
  "runOxEscalation cfg clk mergedLen thr bc finished =
     (case ox_admitted cfg clk mergedLen thr bc of
        (acq, ev, None) \<Rightarrow> ([], ev, None)
      | (acq, ev, Some c) \<Rightarrow>
          if acq = [] then ([], ev, Some c)
          else let s = fold (ox_finish (hasMetrics cfg)) finished \<lparr>ox_all = [], ox_events = ev, ox_cache = c\<rparr>
               in (ox_all s, ox_events s, Some (ox_cache s)))"

text \<open>The schedules the tier can have: each admitted engine finishes once.\<close>

definition ox_schedule ::
  "DirectConfig \<Rightarrow> (nat \<Rightarrow> instant) \<Rightarrow> int \<Rightarrow> int \<Rightarrow> DirectBlockCache option
   \<Rightarrow> (string \<times> Result list \<times> string) list \<Rightarrow> bool" where
  "ox_schedule cfg clk mergedLen thr bc finished \<longleftrightarrow>
     mset (map fst finished) = mset (fst (ox_admitted cfg clk mergedLen thr bc))"

subsection \<open>What the tier guarantees\<close>

text \<open>Dormant by default: without a browser, an allowlist or a cache, or when the fan-out
  reached the early-return threshold, the tier admits no engine, returns nothing,
  records nothing and leaves the cache as it was.\<close>

theorem ox_dormant:
  assumes "\<not> hasOxFetch cfg \<or> OxEscalate cfg = [] \<or> bc = None \<or> mergedLen \<ge> thr"
    and "ox_schedule cfg clk mergedLen thr bc finished"
  shows "finished = [] \<and> runOxEscalation cfg clk mergedLen thr bc finished = ([], [], bc)"
  using assms by (auto simp: ox_schedule_def runOxEscalation_def ox_admitted_def split: option.splits if_splits)

lemma acquire_take:
  "used \<le> sem \<Longrightarrow> acquireOxSlots m sem used ls = (take (sem - used) ls,
     if m then map (\<lambda>l. OxEscalation l ''skipped'') (drop (sem - used) ls) else [])"
proof (induction ls arbitrary: used)
  case (Cons l ls)
  show ?case
  proof (cases "used < sem")
    case True
    then have "sem - used = Suc (sem - Suc used)" by simp
    with True Cons.IH[of "Suc used"] show ?thesis by simp
  next
    case False
    with Cons.IH[of used] Cons.prems show ?thesis by simp
  qed
qed simp

lemma eligible_blocked:
  "distinct ls \<Longrightarrow> fst (ox_eligible (\<lambda>_. now) i ls c) = filter (\<lambda>l. fst (IsBlocked now l c)) ls"
proof (induction ls arbitrary: i c)
  case (Cons l ls)
  have "fst (ox_eligible (\<lambda>_. now) (Suc i) ls (snd (IsBlocked now l c)))
      = filter (\<lambda>l'. fst (IsBlocked now l' (snd (IsBlocked now l c)))) ls"
    using Cons by simp
  also have "\<dots> = filter (\<lambda>l'. fst (IsBlocked now l' c)) ls"
    by (rule filter_cong[OF refl], rule dbc.query_other) (use Cons.prems in auto)
  finally show ?case by (simp add: split_def Let_def)
qed simp

text \<open>Admission is deterministic: of the allowlisted engines that are blocked, in the order
  of the allowlist, the first \<open>OxConcurrency\<close> (two by default) get a slot and
  every other one is recorded as skipped, whatever the goroutines do.\<close>

theorem ox_admission:
  assumes "hasOxFetch cfg" "OxEscalate cfg \<noteq> []" "mergedLen < thr" "distinct (OxEscalate cfg)"
  shows "\<exists>c'. ox_admitted cfg (\<lambda>_. now) mergedLen thr (Some c) =
    (let blocked = filter (\<lambda>l. fst (IsBlocked now l c)) (OxEscalate cfg);
         n = (if OxConcurrency cfg \<le> 0 then 2 else nat (OxConcurrency cfg))
     in (take n blocked,
         if hasMetrics cfg then map (\<lambda>l. OxEscalation l ''skipped'') (drop n blocked) else [],
         Some c'))"
proof -
  obtain el c1 where e: "ox_eligible (\<lambda>_. now) 0 (OxEscalate cfg) c = (el, c1)" by force
  have el: "el = filter (\<lambda>l. fst (IsBlocked now l c)) (OxEscalate cfg)"
    using eligible_blocked[OF assms(4), of now 0 c] e by simp
  show ?thesis using assms(1-3) e
    by (simp add: ox_admitted_def acquire_take ox_concurrency_def el Let_def)
qed

subsection \<open>Marks after the tier\<close>

lemma eligible_sub: "set (fst (ox_eligible clk i ls c)) \<subseteq> set ls"
  by (induction ls arbitrary: i c) (auto simp: split_def Let_def)

lemma ox_finish_cache:
  "ox_cache (ox_finish m (l, res, out) s) = (if res = [] then Unmark l (ox_cache s) else ox_cache s)"
  by (simp add: ox_finish_def Let_def)

lemma ox_fold_blocked:
  "fst (IsBlocked now h (ox_cache (fold (ox_finish m) fin s))) \<longleftrightarrow>
     fst (IsBlocked now h (ox_cache s)) \<and> (\<forall>(l, res, out) \<in> set fin. l = h \<longrightarrow> res \<noteq> [])"
proof (induction fin arbitrary: s)
  case (Cons x fin)
  obtain l res out where x: "x = (l, res, out)" by (cases x)
  have "fst (IsBlocked now h (Unmark l c)) \<longleftrightarrow> h \<noteq> l \<and> fst (IsBlocked now h c)" for c
    using dbc.not_blocked_after_unmark[of now l c] dbc.unmark_other[of h l now c] by auto
  with Cons x show ?case by (auto simp: ox_finish_cache)
qed simp

lemma ox_fold_all:
  "ox_all (fold (ox_finish m) fin s) = ox_all s @ concat (map (fst \<circ> snd) fin)"
proof (induction fin arbitrary: s)
  case (Cons x fin)
  then show ?case by (cases x) (simp add: ox_finish_def Let_def)
qed simp

text \<open>C25: After the tier has run, whatever the order in which its engines finished: an engine
  that delivered results keeps its mark, an engine that delivered none has lost it
  and will be tried directly next time, and the results are those of the engines,
  in the order they finished.\<close>

theorem ox_self_heal:
  assumes "ox_admitted cfg clk mergedLen thr bc = (acq, ev, Some c)"
    and "ox_schedule cfg clk mergedLen thr bc finished"
    and "runOxEscalation cfg clk mergedLen thr bc finished = (res, ev', bc')"
  shows "res = concat (map (fst \<circ> snd) finished) \<and>
    (\<exists>c'. bc' = Some c' \<and> (\<forall>now h. fst (IsBlocked now h c') =
      (fst (IsBlocked now h c) \<and> h \<notin> {l. \<exists>out. (l, [], out) \<in> set finished})))"
proof (cases "acq = []")
  case True
  then have "finished = []" using assms(1,2) by (simp add: ox_schedule_def)
  with True assms(1,3) show ?thesis by (auto simp: runOxEscalation_def)
next
  case False
  let ?s0 = "\<lparr>ox_all = [], ox_events = ev, ox_cache = c\<rparr>"
  let ?s = "fold (ox_finish (hasMetrics cfg)) finished ?s0"
  have r: "res = ox_all ?s" "bc' = Some (ox_cache ?s)"
    using assms(1,3) False by (auto simp: runOxEscalation_def Let_def)
  have "fst (IsBlocked now h (ox_cache ?s)) =
      (fst (IsBlocked now h c) \<and> h \<notin> {l. \<exists>out. (l, [], out) \<in> set finished})" for now h
    by (auto simp: ox_fold_blocked)
  then show ?thesis using r by (auto simp: ox_fold_all)
qed

subsection \<open>A configuration for evaluation\<close>

definition lab_cfg :: DirectConfig where
  "lab_cfg = \<lparr>hasBrowser = True, DDG = True, Startpage = False, Brave = True, Reddit = False, Bing = False,
     Yep = False, Wikipedia = False, Marginalia = False, Mojeek = False, YandexKey = '''', DirectTimeRange = '''',
     PerSourceTimeout = 0, EarlyReturnAt = 0, OxEscalate = [''ddg'', ''brave''], OxConcurrency = 1,
     hasOxFetch = True, hasMetrics = True\<rparr>"

definition lab_cache :: DirectBlockCache where
  "lab_cache = Mark 0 ''brave'' (Mark 0 ''ddg'' (NewDirectBlockCache 100 10))"

lemma lab_cache_items:
  "map_of (items lab_cache) ''ddg'' = Some 100" "map_of (items lab_cache) ''brave'' = Some 100"
  by (simp_all add: lab_cache_def Mark_def NewDirectBlockCache_def Let_def)

lemma lab_admitted:
  "ox_admitted lab_cfg (\<lambda>_. 5) 0 10 (Some lab_cache)
     = ([''ddg''], [OxEscalation ''brave'' ''skipped''], Some lab_cache)"
  by (simp add: ox_admitted_def lab_cfg_def IsBlocked_def lab_cache_items ox_concurrency_def)

theorem ox_dormant_witness:
  "[] = ([] :: (string \<times> Result list \<times> string) list)
   \<and> runOxEscalation (lab_cfg\<lparr>hasOxFetch := False\<rparr>) (\<lambda>_. 5) 0 10 (Some lab_cache) [] = ([], [], Some lab_cache)"
  by (rule ox_dormant) (simp_all add: ox_schedule_def ox_admitted_def)

theorem ox_admission_witness:
  "\<exists>c'. ox_admitted lab_cfg (\<lambda>_. 5) 0 10 (Some lab_cache) =
    (let blocked = filter (\<lambda>l. fst (IsBlocked 5 l lab_cache)) (OxEscalate lab_cfg);
         n = (if OxConcurrency lab_cfg \<le> 0 then 2 else nat (OxConcurrency lab_cfg))
     in (take n blocked,
         if hasMetrics lab_cfg then map (\<lambda>l. OxEscalation l ''skipped'') (drop n blocked) else [],
         Some c'))"
  by (rule ox_admission) (simp_all add: lab_cfg_def)

theorem ox_self_heal_witness:
  "\<exists>c'. \<not> fst (IsBlocked 5 ''ddg'' c') \<and> fst (IsBlocked 5 ''brave'' c')"
proof -
  let ?r = "runOxEscalation lab_cfg (\<lambda>_. 5) 0 10 (Some lab_cache) [(''ddg'', [], ''empty'')]"
  obtain res ev bc where r: "?r = (res, ev, bc)" by (cases ?r)
  have s: "ox_schedule lab_cfg (\<lambda>_. 5) 0 10 (Some lab_cache) [(''ddg'', [], ''empty'')]"
    by (simp add: ox_schedule_def lab_admitted)
  have b: "fst (IsBlocked 5 ''brave'' lab_cache)" by (simp add: IsBlocked_def lab_cache_items)
  from ox_self_heal[OF lab_admitted s r] obtain c' where
    "\<forall>now h. fst (IsBlocked now h c') =
      (fst (IsBlocked now h lab_cache) \<and> h \<notin> {l. \<exists>out. (l, [], out) \<in> set [(''ddg'', []::Result list, ''empty'')]})"
    by blast
  with b show ?thesis by (intro exI[of _ c']) simp
qed

subsection \<open>The whole of SearchDirect\<close>

definition no_stats :: DirectStats where
  "no_stats = \<lparr>Attempted = 0, OK = 0, Empty = 0, Failed = 0, Shed = 0\<rparr>"

record direct_outcome =
  merged :: "Result list"
  dstats :: DirectStats
  devents :: "sr_event list"
  dcache :: "DirectBlockCache option"

text \<open>\<open>arrivals\<close> is the order in which the launched sources answered, \<open>finished\<close> the
  order in which the escalated engines did.\<close>

definition SearchDirect ::
  "DirectConfig \<Rightarrow> (string \<Rightarrow> instant) \<Rightarrow> (nat \<Rightarrow> instant) \<Rightarrow> DirectBlockCache option
   \<Rightarrow> (instant \<times> directResult) list \<Rightarrow> (string \<times> Result list \<times> string) list \<Rightarrow> direct_outcome" where
  "SearchDirect cfg clk oclk bc arrivals finished =
     (if \<not> hasBrowser cfg \<or> enabled_labels cfg = []
      then \<lparr>merged = [], dstats = no_stats, devents = [], dcache = bc\<rparr>
      else
        let (launched, bc1) = launch_jobs clk (direct_jobs cfg) bc;
            g = collect_cfg_of cfg;
            c = collectResults g bc1 arrivals;
            (ox, ev, bc2) = runOxEscalation cfg oclk (int (length (all c))) (earlyAt g) (cache c) finished
        in \<lparr>merged = all c @ ox, dstats = stats c, devents = events c @ ev, dcache = bc2\<rparr>)"

definition direct_schedule ::
  "DirectConfig \<Rightarrow> (string \<Rightarrow> instant) \<Rightarrow> (nat \<Rightarrow> instant) \<Rightarrow> DirectBlockCache option
   \<Rightarrow> (instant \<times> directResult) list \<Rightarrow> (string \<times> Result list \<times> string) list \<Rightarrow> bool" where
  "direct_schedule cfg clk oclk bc arrivals finished \<longleftrightarrow>
     (let (launched, bc1) = launch_jobs clk (direct_jobs cfg) bc;
          g = collect_cfg_of cfg;
          c = collectResults g bc1 arrivals
      in mset (labels arrivals) = mset launched
         \<and> ox_schedule cfg oclk (int (length (all c))) (earlyAt g) (cache c) finished)"

lemma ox_results:
  assumes "ox_schedule cfg oclk n t bc fin"
  shows "fst (runOxEscalation cfg oclk n t bc fin) = concat (map (fst \<circ> snd) fin)"
proof -
  obtain acq ev b where a: "ox_admitted cfg oclk n t bc = (acq, ev, b)" by (cases "ox_admitted cfg oclk n t bc")
  have "acq = [] \<Longrightarrow> fin = []" using assms a by (simp add: ox_schedule_def)
  moreover have "b = None \<Longrightarrow> acq = []" using a by (auto simp: ox_admitted_def split: option.splits if_splits prod.splits)
  ultimately show ?thesis using a
    by (auto simp: runOxEscalation_def Let_def ox_fold_all split: option.splits)
qed

lemma okay_nonempty: "is_okay r \<Longrightarrow> results r \<noteq> []"
  by (simp add: is_okay_def)



end
