(* ===== verification/Dual_Browser.thy ===== *)
theory Dual_Browser
  imports Ws_Engines
begin

text \<open>
  \<open>search/dual_browser.go\<close>: the browser that tries a primary doer and falls back to a
  second one, and the test for typed-nil interface values.
  An interface value is nil, holds a nil pointer, or holds an object; a method
  call on the first two panics.  A panic is not an error value: it leaves every
  caller, so it is kept apart from the errors that trigger the fallback.
\<close>

datatype 'a iface = NilIface | TypedNil | Iface 'a

definition isNilInterface :: "'a iface \<Rightarrow> bool" where
  "isNilInterface v = (case v of NilIface \<Rightarrow> True | TypedNil \<Rightarrow> True | Iface _ \<Rightarrow> False)"

text \<open>Go's \<open>v == nil\<close>.\<close>

definition eq_nil :: "'a iface \<Rightarrow> bool" where
  "eq_nil v = (case v of NilIface \<Rightarrow> True | _ \<Rightarrow> False)"

definition nil_panic :: go_error where
  "nil_panic = GoPanic ''invalid memory address or nil pointer dereference''"

definition is_panic :: "'a result \<Rightarrow> bool" where
  "is_panic r = (case r of Inl (GoPanic _) \<Rightarrow> True | _ \<Rightarrow> False)"

fun iface_Do :: "'w browser iface \<Rightarrow> 'w doer" where
  "iface_Do (Iface b) rq w = Do b rq w"
| "iface_Do _ rq w = (Inl nil_panic, w)"

definition shouldFallback :: "int \<Rightarrow> bool" where
  "shouldFallback status \<longleftrightarrow> status \<in> {402, 407, 502, 503, 504}"

definition fallbackReason :: "int \<Rightarrow> go_error option \<Rightarrow> string" where
  "fallbackReason status e =
     (if e \<noteq> None then ''net_err''
      else if status = 402 then ''402'' else if status = 407 then ''407''
      else if status \<in> {502, 503, 504} then ''5xx'' else Itoa status)"

text \<open>A body is nil or a reader, which gives its content or fails.\<close>

definition snapshotBody :: "string result option \<Rightarrow> string option result" where
  "snapshotBody body =
     (case body of None \<Rightarrow> Inr None | Some (Inl e) \<Rightarrow> Inl e | Some (Inr s) \<Rightarrow> Inr (Some s))"

text \<open>\<open>log\<close> is the reason written before the fallback is asked.\<close>

definition dual_Do ::
  "'w browser iface \<Rightarrow> 'w browser iface \<Rightarrow> http_request \<Rightarrow> string result option \<Rightarrow> 'w
   \<Rightarrow> (http_answer result \<times> string option) \<times> 'w" where
  "dual_Do primary fallback rq body w =
     (case snapshotBody body of
        Inl e \<Rightarrow> ((Inl e, None), w)
      | Inr bytes \<Rightarrow>
          let rq = rq\<lparr>Body := bytes\<rparr>;
              (ans, w1) = iface_Do primary rq w
          in if is_panic ans then ((ans, None), w1)
             else case ans of
               Inr (data, h, status) \<Rightarrow>
                 if \<not> shouldFallback status then ((ans, None), w1)
                 else let (r, w2) = iface_Do fallback rq w1 in ((r, Some (fallbackReason status None)), w2)
             | Inl e \<Rightarrow> let (r, w2) = iface_Do fallback rq w1 in ((r, Some (fallbackReason 0 (Some e))), w2))"

definition dual_doer :: "'w browser iface \<Rightarrow> 'w browser iface \<Rightarrow> 'w doer" where
  "dual_doer p f rq w = (case dual_Do p f rq (map_option Inr (Body rq)) w of ((r, _), w1) \<Rightarrow> (r, w1))"

text \<open>A dual browser is not a \<open>*stealth.BrowserClient\<close>, so it has no identity of its own.\<close>

definition newDualBrowser :: "'w browser iface \<Rightarrow> 'w browser iface \<Rightarrow> 'w browser iface" where
  "newDualBrowser primary fallback =
     (if isNilInterface fallback then primary
      else Iface \<lparr>Do = dual_doer primary fallback, identity = None\<rparr>)"

text \<open>The fallback is asked exactly when the primary failed or answered 402, 407, 502, 503 or
  504, with the same request including its body; otherwise the primary's answer
  is returned unchanged and the fallback is not contacted.\<close>

theorem dual_browser_fallback:
  assumes "primary = Iface p" "fallback = Iface f" "Do p rq w = (ans, w1)" "\<not> is_panic ans"
  shows "dual_doer primary fallback rq w =
    (case ans of
       Inr (data, h, status) \<Rightarrow> if status \<in> {402, 407, 502, 503, 504} then Do f rq w1 else (ans, w1)
     | Inl e \<Rightarrow> Do f rq w1)"
proof -
  have rq: "rq\<lparr>Body := Body rq\<rparr> = rq" by simp
  have s: "snapshotBody (map_option Inr (Body rq)) = Inr (Body rq)" by (cases "Body rq") (simp_all add: snapshotBody_def)
  show ?thesis using assms
    by (cases ans) (auto simp: dual_doer_def dual_Do_def s rq shouldFallback_def Let_def split: prod.splits)
qed

theorem dual_browser_fallback_witness:
  "dual_doer (Iface (still_browser (Inr (''a'', [], 402)))) (Iface (still_browser (Inr (''b'', [], 200))))
     (get ''u'' []) () = (Inr (''b'', [], 200), ())"
  using dual_browser_fallback[OF refl refl, of "still_browser (Inr (''a'', [], 402))" "get ''u'' []" "()"
      "Inr (''a'', [], 402)" "()" "still_browser (Inr (''b'', [], 200))"]
  by (simp add: still_browser_def is_panic_def)

lemma dual_typed_nil_fallback: "newDualBrowser p TypedNil = p" "newDualBrowser p NilIface = p"
  by (simp_all add: newDualBrowser_def isNilInterface_def)

text \<open>A typed-nil fallback is harmless: the browser is then the primary itself.  A typed-nil
  primary is not: it passes the test \<open>cfg.Browser == nil\<close> that \<open>SearchDirect\<close>
  makes, and every request panics, with or without a fallback.\<close>

theorem typed_nil_primary_panics:
  "newDualBrowser p (TypedNil :: 'w browser iface) = p \<and> newDualBrowser p NilIface = p
   \<and> \<not> eq_nil (TypedNil :: 'w browser iface)
   \<and> is_panic (fst (iface_Do (newDualBrowser TypedNil (fb :: 'w browser iface)) rq w))"
proof -
  have s: "snapshotBody (map_option Inr (Body rq)) = Inr (Body rq)" by (cases "Body rq") (simp_all add: snapshotBody_def)
  have "is_panic (fst (iface_Do (newDualBrowser TypedNil fb) rq w))"
    by (cases fb) (auto simp: newDualBrowser_def isNilInterface_def dual_doer_def dual_Do_def s nil_panic_def is_panic_def)
  then show ?thesis by (simp add: newDualBrowser_def isNilInterface_def eq_nil_def)
qed

end
