(* ===== verification/Reddit_OAuth.thy ===== *)
theory Reddit_OAuth
  imports Dual_Browser
begin

text \<open>
  \<open>websearch/reddit_token.go\<close> and \<open>SearchOAuth\<close> of \<open>websearch/reddit.go\<close>: the
  token cache and the authenticated search.  The mutex makes each operation of the
  manager atomic, so they are functions on its state; the world \<open>'w\<close> carries the
  requests and the clock.
\<close>

record redditTokenManager =
  ClientID :: string
  ClientSecret :: string
  UserAgent :: string
  cached :: string
  expiresAt :: instant

text \<open>The zero time, in nanoseconds from the Unix epoch.\<close>

definition zero_time :: instant where
  "zero_time = -62135596800000000000"

definition NewRedditTokenManager :: "string \<Rightarrow> string \<Rightarrow> string \<Rightarrow> redditTokenManager" where
  "NewRedditTokenManager i s u =
     \<lparr>ClientID = i, ClientSecret = s, UserAgent = u, cached = '''', expiresAt = zero_time\<rparr>"

definition sec :: duration where
  "sec = 1000000000"

definition refreshMargin :: duration where
  "refreshMargin = 60 * sec"

definition pad64 :: "string \<Rightarrow> string" where
  "pad64 s = s @ replicate ((4 - length s mod 4) mod 4) (CHR ''='')"

definition StdEncoding :: "string \<Rightarrow> string" where
  "StdEncoding s = pad64 (b64_encode b64_std (map byte s))"

definition token_request :: "redditTokenManager \<Rightarrow> http_request" where
  "token_request m =
     \<lparr>Method = ''POST'', Url = ''https://www.reddit.com/api/v1/access_token'',
      Headers = [(''Authorization'', ''Basic '' @ StdEncoding (ClientID m @ '':'' @ ClientSecret m)),
        (''Content-Type'', acceptFormURLEncoded), (''User-Agent'', UserAgent m), (''Accept'', acceptJSON)],
      Body = Some ''grant_type=client_credentials''\<rparr>"

definition token_window :: "int \<Rightarrow> duration" where
  "token_window expiresIn =
     (let window = expiresIn * sec - refreshMargin in if window < sec then sec else window)"

text \<open>\<open>dec\<close> decodes the token answer to \<open>access_token\<close> and \<open>expires_in\<close>;
  \<open>now\<close> reads the clock.\<close>

definition fetchToken ::
  "(string \<Rightarrow> (string \<times> int) result) \<Rightarrow> ('w \<Rightarrow> instant) \<Rightarrow> 'w doer \<Rightarrow> redditTokenManager \<Rightarrow> 'w
   \<Rightarrow> (string \<times> instant) result \<times> 'w" where
  "fetchToken dec now doer m w =
     (case doer (token_request m) w of
        (Inl e, w1) \<Rightarrow> (Inl (ErrWrap ''reddit token request: '' e), w1)
      | (Inr (data, _, status), w1) \<Rightarrow>
          if status = 401 then (Inl ErrCredentialInvalid, w1)
          else if status \<ge> 500 then (Inl (ErrWrap (''reddit token: status '' @ Itoa status @ '': '') ErrTransient), w1)
          else if status \<noteq> 200 then (Inl (ErrNew (''reddit token endpoint returned status '' @ Itoa status)), w1)
          else case dec data of
            Inl e \<Rightarrow> (Inl (ErrWrap ''reddit token response decode: '' e), w1)
          | Inr (tok, expiresIn) \<Rightarrow>
              if tok = '''' then (Inl (ErrNew ''reddit token endpoint returned empty access_token''), w1)
              else (Inr (tok, now w1 + token_window expiresIn), w1))"

definition Token ::
  "(string \<Rightarrow> (string \<times> int) result) \<Rightarrow> ('w \<Rightarrow> instant) \<Rightarrow> 'w doer \<Rightarrow> redditTokenManager \<Rightarrow> 'w
   \<Rightarrow> string result \<times> redditTokenManager \<times> 'w" where
  "Token dec now doer m w =
     (if cached m \<noteq> '''' \<and> now w < expiresAt m then (Inr (cached m), m, w)
      else case fetchToken dec now doer m w of
        (Inl e, w1) \<Rightarrow> (Inl e, m, w1)
      | (Inr (tok, expiry), w1) \<Rightarrow> (Inr tok, m\<lparr>cached := tok, expiresAt := expiry\<rparr>, w1))"

definition Invalidate :: "redditTokenManager \<Rightarrow> redditTokenManager" where
  "Invalidate m = m\<lparr>cached := '''', expiresAt := zero_time\<rparr>"

subsection \<open>The authenticated search\<close>

text \<open>\<open>parseDuration\<close> is \<open>time.ParseDuration\<close>.\<close>

definition retry_after :: "(string \<Rightarrow> duration option) \<Rightarrow> headers \<Rightarrow> duration" where
  "retry_after parseDuration h =
     (case map_of h ''retry-after'' of
        Some ra \<Rightarrow> if ra = '''' then 0
          else (case parseDuration (ra @ ''s'') of Some d \<Rightarrow> d | None \<Rightarrow> 0)
      | None \<Rightarrow> 0)"

definition oauth_url :: "string \<Rightarrow> string" where
  "oauth_url query = ''https://oauth.reddit.com'' @ ''/search?q='' @ QueryEscape query
     @ ''&type=link&raw_json=1&limit=10&sort=relevance&t=all''"

definition SearchOAuth ::
  "('w, 'n) ws_env \<Rightarrow> (string \<Rightarrow> (string \<times> int) result) \<Rightarrow> (string \<Rightarrow> duration option) \<Rightarrow> 'w doer
   \<Rightarrow> redditTokenManager \<Rightarrow> string \<Rightarrow> string \<Rightarrow> 'w \<Rightarrow> Result list result \<times> redditTokenManager \<times> 'w" where
  "SearchOAuth E dec parseDuration doer m query userAgent w =
     (case Token dec (ws_now E) doer m w of
        (Inl e, m1, w1) \<Rightarrow> (Inl (ErrWrap ''reddit oauth: token: '' e), m1, w1)
      | (Inr tok, m1, w1) \<Rightarrow>
          let h = [(''Authorization'', ''Bearer '' @ tok), (''User-Agent'', userAgent), (''Accept'', acceptJSON)];
              (ans, w2) = doer (get (oauth_url query) h) w1
          in case ans of
               Inl e \<Rightarrow> (Inl (ErrWrap ''reddit oauth search: '' e), m1, w2)
             | Inr (data, rh, status) \<Rightarrow>
                 if isRateLimitStatus status \<or> isRedditRateLimited (ws_dec_reddit_err E) data
                 then (Inl (ErrRateLimited ''reddit-oauth'' (retry_after parseDuration rh)), m1, w2)
                 else if status = 401
                 then (Inl (ErrNew (''reddit oauth: token expired (401) '' @ [CHR 0xE2, CHR 0x80, CHR 0x94] @ '' invalidated, retry'')),
                       Invalidate m1, w2)
                 else if status \<ge> 500
                 then (Inl (ErrWrap (''reddit oauth search: status '' @ Itoa status @ '': '') ErrTransient), m1, w2)
                 else if status \<noteq> 200
                 then (Inl (ErrNew (''reddit oauth search: status '' @ Itoa status)), m1, w2)
                 else case ParseRedditJSON (ws_dec_reddit E) data of
                   Inl e \<Rightarrow> (Inl (ErrWrap ''reddit oauth parse: '' e), m1, w2)
                 | Inr rs \<Rightarrow> (Inr (applyLimit rs 0), m1, w2))"

subsection \<open>Life of a token\<close>

text \<open>The operations on a manager, in any order; \<open>issue\<close> is the log of tokens the
  endpoint issued: token, clock at receipt, declared life time.\<close>

datatype tm_op = TokenOp | InvalidateOp

definition issued ::
  "(string \<Rightarrow> (string \<times> int) result) \<Rightarrow> ('w \<Rightarrow> instant) \<Rightarrow> 'w doer \<Rightarrow> string \<Rightarrow> instant \<Rightarrow> int \<Rightarrow> bool" where
  "issued dec now doer tok t life \<longleftrightarrow>
     (\<exists>rq w data h w1. doer rq w = (Inr (data, h, 200), w1) \<and> dec data = Inr (tok, life) \<and> t = now w1)"

fun tm_run ::
  "(string \<Rightarrow> (string \<times> int) result) \<Rightarrow> ('w \<Rightarrow> instant) \<Rightarrow> 'w doer \<Rightarrow> tm_op list
   \<Rightarrow> redditTokenManager \<Rightarrow> 'w \<Rightarrow> redditTokenManager \<times> 'w" where
  "tm_run dec now doer [] m w = (m, w)"
| "tm_run dec now doer (TokenOp # ops) m w =
     (case Token dec now doer m w of (_, m1, w1) \<Rightarrow> tm_run dec now doer ops m1 w1)"
| "tm_run dec now doer (InvalidateOp # ops) m w = tm_run dec now doer ops (Invalidate m) w"

definition tm_inv ::
  "(string \<Rightarrow> (string \<times> int) result) \<Rightarrow> ('w \<Rightarrow> instant) \<Rightarrow> 'w doer \<Rightarrow> redditTokenManager \<Rightarrow> bool" where
  "tm_inv dec now doer m \<longleftrightarrow> (cached m \<noteq> '''' \<longrightarrow>
     (\<exists>t life. issued dec now doer (cached m) t life \<and> expiresAt m = t + token_window life))"

lemma fetchToken_issued:
  "fetchToken dec now doer m w = (Inr (tok, ex), w1) \<Longrightarrow>
     tok \<noteq> '''' \<and> (\<exists>life. issued dec now doer tok (now w1) life \<and> ex = now w1 + token_window life)"
  by (auto simp: fetchToken_def issued_def split: prod.splits sum.splits if_splits) blast

lemma tm_inv_Token [inv_rules]: "tm_inv dec now doer m \<Longrightarrow> tm_inv dec now doer (fst (snd (Token dec now doer m w)))"
  by (auto simp: Token_def tm_inv_def split: prod.splits sum.splits dest!: fetchToken_issued)

lemma tm_inv_Invalidate [inv_rules]: "tm_inv dec now doer (Invalidate m)"
  by (simp add: tm_inv_def Invalidate_def)

lemma tm_inv_run: "tm_inv dec now doer m \<Longrightarrow> tm_inv dec now doer (fst (tm_run dec now doer ops m w))"
proof (induction ops arbitrary: m w)
  case (Cons op ops)
  show ?case
  proof (cases op)
    case TokenOp
    have "tm_inv dec now doer (fst (snd (Token dec now doer m w)))" using Cons.prems by (rule tm_inv_Token)
    with Cons.IH TokenOp show ?thesis by (auto split: prod.splits)
  qed (simp add: Cons.IH tm_inv_Invalidate)
qed simp

lemma tm_inv_New: "tm_inv dec now doer (NewRedditTokenManager i s u)"
  by (simp add: tm_inv_def NewRedditTokenManager_def)



text \<open>A small endpoint for evaluation: it issues the token \<open>t\<close> for an hour.\<close>

definition lab_doer :: "int \<Rightarrow> int doer" where
  "lab_doer status rq w = (Inr (''{}'', [], status), w + 1)"

definition lab_dec :: "string \<Rightarrow> (string \<times> int) result" where
  "lab_dec _ = Inr (''t'', 3600)"


subsection \<open>Refusals\<close>

lemma Token_after_Invalidate: "Token dec now doer (Invalidate m) w =
   (case fetchToken dec now doer (Invalidate m) w of
      (Inl e, w1) \<Rightarrow> (Inl e, Invalidate m, w1)
    | (Inr (tok, ex), w1) \<Rightarrow> (Inr tok, (Invalidate m)\<lparr>cached := tok, expiresAt := ex\<rparr>, w1))"
proof -
  have "cached (Invalidate m) = ''''" by (simp add: Invalidate_def)
  then show ?thesis by (simp add: Token_def)
qed

text \<open>A search answered with 401 drops the cached token, so that the next use of the manager
  fetches a new one; other answers leave the manager as the token step left it.\<close>

theorem oauth_401_invalidates:
  assumes "Token dec (ws_now E) doer m w = (Inr tok, m1, w1)"
    and "doer (get (oauth_url q) [(''Authorization'', ''Bearer '' @ tok), (''User-Agent'', ua), (''Accept'', acceptJSON)]) w1
         = (Inr (data, rh, status), w2)"
    and "\<not> isRedditRateLimited (ws_dec_reddit_err E) data"
  shows "fst (snd (SearchOAuth E dec pd doer m q ua w)) = (if status = 401 then Invalidate m1 else m1)
    \<and> (status = 401 \<longleftrightarrow> cached (fst (snd (SearchOAuth E dec pd doer m q ua w))) = '''')"
proof -
  have ne: "cached m1 \<noteq> ''''"
    using assms(1) fetchToken_issued[of dec "ws_now E" doer m w tok _ w1]
    by (auto simp: Token_def split: prod.splits sum.splits if_splits)
  have "fst (snd (SearchOAuth E dec pd doer m q ua w)) = (if status = 401 then Invalidate m1 else m1)"
    using assms by (auto simp: SearchOAuth_def isRateLimitStatus_def Let_def split: sum.splits)
  with ne show ?thesis by (simp add: Invalidate_def)
qed

text \<open>Only a refusal of the credentials by the token endpoint gives
  \<open>ErrCredentialInvalid\<close>, and only a server failure gives \<open>ErrTransient\<close>;
  neither is confused with rate limiting.\<close>

lemma fetchToken_errors:
  assumes "doer (token_request m) w = (Inr (data, h, status), w1)" "status \<notin> {200, 401}" "status < 500"
  shows "\<exists>e. fetchToken dec now doer m w = (Inl e, w1) \<and> \<not> errors_Is e ErrCredentialInvalid
    \<and> \<not> errors_Is e ErrTransient \<and> As_RateLimited e = None"
  using assms by (simp add: fetchToken_def)


theorem oauth_401_invalidates_witness:
  "cached (fst (snd (SearchOAuth (still_env None) (\<lambda>_. Inr (''t'', 3600)) (\<lambda>_. None) (\<lambda>_ w. (Inr (''{}'', [], 401), w))
     ((NewRedditTokenManager ''i'' ''s'' ''u'')\<lparr>cached := ''t'', expiresAt := 1\<rparr>) ''q'' ''ua'' ()))) = ''''"
proof -
  let ?m = "(NewRedditTokenManager ''i'' ''s'' ''u'')\<lparr>cached := ''t'', expiresAt := 1\<rparr>"
  let ?d = "\<lambda>_ w. (Inr (''{}'', [], 401), w) :: http_answer result \<times> unit"
  have "Token (\<lambda>_. Inr (''t'', 3600)) (ws_now (still_env None)) ?d ?m () = (Inr ''t'', ?m, ())"
    by (simp add: Token_def still_env_def)
  from oauth_401_invalidates[OF this, where q = "''q''" and ua = "''ua''" and data = "''{}''" and status = 401
      and rh = "[]" and pd = "\<lambda>_. None"]
  show ?thesis by (simp add: still_env_def isRedditRateLimited_def Invalidate_def)
qed

end
