(* ===== verification/Quotas.thy ===== *)
theory Quotas
  imports Go_Net
begin

text \<open>
  The request budgets: the daily StackExchange counter
  (\<open>websearch/stackoverflow.go\<close>), the monthly Yandex counter
  (\<open>websearch/yandex.go\<close>) and the Marginalia budget
  (\<open>search/marginalia.go\<close>).  The first two are lock-free: each is given once as a
  function, for a call that runs alone, and once as the steps of its atomic
  operations, for calls that run at the same time.  The third holds a mutex.
\<close>

subsection \<open>The lock-free counters\<close>

record quota =
  count :: int
  period :: int

definition soDailyLimit :: int where
  "soDailyLimit = 300"

definition check_period :: "int \<Rightarrow> int \<Rightarrow> quota \<Rightarrow> bool \<times> quota" where
  "check_period limit today q =
     (let q1 = (if period q \<noteq> today then q\<lparr>period := today, count := 0\<rparr> else q);
          q2 = q1\<lparr>count := count q1 + 1\<rparr>
      in (count q2 \<le> limit, q2))"

definition soCheckLimit :: "int \<Rightarrow> quota \<Rightarrow> bool \<times> quota" where
  "soCheckLimit today = check_period soDailyLimit today"

definition yandexCheckLimit :: "int \<Rightarrow> int \<Rightarrow> quota \<Rightarrow> bool \<times> quota" where
  "yandexCheckLimit limit month q = (if limit \<le> 0 then (True, q) else check_period limit month q)"

fun check_run :: "int \<Rightarrow> int list \<Rightarrow> quota \<Rightarrow> bool list \<times> quota" where
  "check_run limit [] q = ([], q)"
| "check_run limit (p # ps) q =
     (let (ok, q1) = check_period limit p q; (oks, q2) = check_run limit ps q1 in (ok # oks, q2))"

definition granted :: "bool list \<Rightarrow> nat" where
  "granted oks = length (filter id oks)"

lemma granted_simps [simp]: "granted [] = 0" "granted (b # bs) = (if b then Suc (granted bs) else granted bs)"
  by (simp_all add: granted_def)

lemma check_run_same:
  assumes "period q = d" "count q \<ge> 0" "list_all (\<lambda>p. p = d) ps"
  shows "granted (fst (check_run limit ps q)) = min (length ps) (nat (limit - count q))"
  using assms
proof (induction ps arbitrary: q)
  case (Cons p ps)
  let ?q = "q\<lparr>count := count q + 1\<rparr>"
  have "check_period limit p q = (count q + 1 \<le> limit, ?q)"
    using Cons.prems by (simp add: check_period_def)
  moreover have "granted (fst (check_run limit ps ?q)) = min (length ps) (nat (limit - count ?q))"
    using Cons by (intro Cons.IH) auto
  ultimately show ?case by (auto simp: split_def Let_def min_def)
qed simp

text \<open>Calls that do not overlap: in one period exactly the first \<open>limit\<close> of them pass,
  whatever the counter held before the period began.\<close>

theorem quota_sequential:
  assumes "period q \<noteq> d" "list_all (\<lambda>p. p = d) ps"
  shows "granted (fst (check_run limit ps q)) = min (length ps) (nat limit)"
proof (cases ps)
  case (Cons p rest)
  have p: "check_period limit d q = (1 \<le> limit, q\<lparr>period := d, count := 1\<rparr>)"
    using assms by (simp add: check_period_def)
  have "granted (fst (check_run limit rest (q\<lparr>period := d, count := 1\<rparr>))) = min (length rest) (nat (limit - 1))"
    using assms Cons by (subst check_run_same[where d = d]) auto
  then show ?thesis using assms Cons p by (auto simp: split_def Let_def min_def)
qed simp

theorem quota_sequential_witness:
  "granted (fst (check_run 2 [7, 7, 7] \<lparr>count = 5, period = 6\<rparr>)) = min (length [7::int, 7, 7]) (nat 2)"
  by (rule quota_sequential[where d = 7]) simp_all

subsection \<open>Concurrent calls\<close>

text \<open>Where a call is between its atomic operations: \<open>Loaded p\<close> holds the stale period
  it read, \<open>Swapped\<close> is after the compare-and-swap, \<open>Ready\<close> before the
  increment.\<close>

datatype pc = Start | Loaded int | Swapped | Ready | Finished bool

record calls =
  shared :: quota
  threads :: "pc list"

inductive call_step :: "int \<Rightarrow> int \<Rightarrow> calls \<Rightarrow> calls \<Rightarrow> bool" for limit today where
  load: "i < length (threads s) \<Longrightarrow> threads s ! i = Start \<Longrightarrow>
    call_step limit today s (s\<lparr>threads := (threads s)[i :=
      if period (shared s) = today then Ready else Loaded (period (shared s))]\<rparr>)"
| cas: "i < length (threads s) \<Longrightarrow> threads s ! i = Loaded p \<Longrightarrow>
    call_step limit today s (s\<lparr>shared := (if period (shared s) = p then (shared s)\<lparr>period := today\<rparr> else shared s),
      threads := (threads s)[i := Swapped]\<rparr>)"
| store: "i < length (threads s) \<Longrightarrow> threads s ! i = Swapped \<Longrightarrow>
    call_step limit today s (s\<lparr>shared := (shared s)\<lparr>count := 0\<rparr>, threads := (threads s)[i := Ready]\<rparr>)"
| add: "i < length (threads s) \<Longrightarrow> threads s ! i = Ready \<Longrightarrow>
    call_step limit today s (s\<lparr>shared := (shared s)\<lparr>count := count (shared s) + 1\<rparr>,
      threads := (threads s)[i := Finished (count (shared s) + 1 \<le> limit)]\<rparr>)"

inductive_cases call_stepE: "call_step limit today s s'"

abbreviation call_reach :: "int \<Rightarrow> int \<Rightarrow> calls \<Rightarrow> calls \<Rightarrow> bool" where
  "call_reach limit today \<equiv> (call_step limit today)\<^sup>*\<^sup>*"

definition started :: "nat \<Rightarrow> quota \<Rightarrow> calls" where
  "started n q = \<lparr>shared = q, threads = replicate n Start\<rparr>"

definition passed :: "calls \<Rightarrow> nat" where
  "passed s = count_list (threads s) (Finished True)"

text \<open>A call that runs alone does what the function says.\<close>

lemma call_alone:
  "call_reach limit today (started 1 q)
     \<lparr>shared = snd (check_period limit today q), threads = [Finished (fst (check_period limit today q))]\<rparr>"
proof -
  let ?q1 = "if period q \<noteq> today then q\<lparr>period := today, count := 0\<rparr> else q"
  have add: "call_step limit today \<lparr>shared = r, threads = [Ready]\<rparr>
     \<lparr>shared = r\<lparr>count := count r + 1\<rparr>, threads = [Finished (count r + 1 \<le> limit)]\<rparr>" for r
    using call_step.add[of 0 "\<lparr>shared = r, threads = [Ready]\<rparr>"] by simp
  have pre: "call_reach limit today (started 1 q) \<lparr>shared = ?q1, threads = [Ready]\<rparr>"
  proof (cases "period q = today")
    case True
    then show ?thesis using call_step.load[of 0 "started 1 q" limit today] by (simp add: started_def r_into_rtranclp)
  next
    case False
    have "call_reach limit today (started 1 q) \<lparr>shared = q, threads = [Loaded (period q)]\<rparr>"
      using call_step.load[of 0 "started 1 q" limit today] False by (simp add: started_def r_into_rtranclp)
    also have "call_step limit today \<lparr>shared = q, threads = [Loaded (period q)]\<rparr>
        \<lparr>shared = q\<lparr>period := today\<rparr>, threads = [Swapped]\<rparr>"
      using call_step.cas[of 0 "\<lparr>shared = q, threads = [Loaded (period q)]\<rparr>" "period q" limit today] by simp
    also have "call_step limit today \<lparr>shared = q\<lparr>period := today\<rparr>, threads = [Swapped]\<rparr>
        \<lparr>shared = q\<lparr>period := today, count := 0\<rparr>, threads = [Ready]\<rparr>"
      using call_step.store[of 0 "\<lparr>shared = q\<lparr>period := today\<rparr>, threads = [Swapped]\<rparr>" limit today] by simp
    finally show ?thesis using False by simp
  qed
  from rtranclp.rtrancl_into_rtrancl[OF pre add] show ?thesis
    by (simp add: check_period_def Let_def)
qed

lemma count_list_update:
  "i < length xs \<Longrightarrow> count_list (xs[i := x]) y + (if xs ! i = y then 1 else 0)
     = count_list xs y + (if x = y then 1 else 0)"
proof (induction xs arbitrary: i)
  case (Cons a xs)
  show ?case
  proof (cases i)
    case (Suc k)
    have "count_list (xs[k := x]) y + (if xs ! k = y then 1 else 0) = count_list xs y + (if x = y then 1 else 0)"
      using Cons Suc by simp
    then show ?thesis using Suc by (auto split: if_splits)
  qed auto
qed simp

text \<open>The counter bounds the calls that passed, as long as no reset is under way.\<close>

definition calls_inv :: "int \<Rightarrow> int \<Rightarrow> int \<Rightarrow> calls \<Rightarrow> bool" where
  "calls_inv limit today c s \<longleftrightarrow> period (shared s) = today \<and> 0 \<le> c \<and> c \<le> count (shared s)
     \<and> set (threads s) \<subseteq> {Start, Ready, Finished True, Finished False}
     \<and> int (passed s) \<le> count (shared s) - c \<and> int (passed s) \<le> max 0 (limit - c)"

lemma calls_inv_step:
  assumes "call_step limit today s s'" "calls_inv limit today c s"
  shows "calls_inv limit today c s'"
  using assms(1)
proof (cases rule: call_step.cases)
  case (load i)
  with assms(2) show ?thesis
    using count_list_update[of i "threads s" Ready "Finished True"] set_update_subset_insert[of "threads s" i Ready]
    by (auto simp: calls_inv_def passed_def)
next
  case (cas i p)
  then have "Loaded p \<in> set (threads s)" by (metis nth_mem)
  with assms(2) show ?thesis by (auto simp: calls_inv_def)
next
  case (store i)
  then have "Swapped \<in> set (threads s)" by (metis nth_mem)
  with assms(2) show ?thesis by (auto simp: calls_inv_def)
next
  case (add i)
  let ?b = "count (shared s) + 1 \<le> limit"
  have "passed s' = passed s + (if ?b then 1 else 0)"
    using add count_list_update[of i "threads s" "Finished ?b" "Finished True"] by (simp add: passed_def)
  moreover have "set (threads s') \<subseteq> {Start, Ready, Finished True, Finished False}"
    using add assms(2) set_update_subset_insert[of "threads s" i "Finished ?b"]
    by (cases ?b) (auto simp: calls_inv_def)
  ultimately show ?thesis using add assms(2) by (auto simp: calls_inv_def)
qed

lemma calls_inv_reach: "call_reach limit today s s' \<Longrightarrow> calls_inv limit today c s \<Longrightarrow> calls_inv limit today c s'"
  by (induction rule: rtranclp_induct) (auto intro: calls_inv_step)

text \<open>C32: While the period does not change, no interleaving of any number of simultaneous calls
  lets more of them pass than the budget has left.\<close>

theorem quota_safe_within_period:
  assumes "period q = today" "0 \<le> count q" "call_reach limit today (started n q) s"
  shows "int (passed s) \<le> max 0 (limit - count q)"
proof -
  have "calls_inv limit today (count q) (started n q)"
    using assms(1,2) by (auto simp: calls_inv_def started_def passed_def count_list_0_iff)
  from calls_inv_reach[OF assms(3) this] show ?thesis by (simp add: calls_inv_def)
qed

theorem quota_safe_within_period_witness:
  "int (passed \<lparr>shared = snd (check_period 1 3 \<lparr>count = 0, period = 3\<rparr>),
       threads = [Finished (fst (check_period 1 3 \<lparr>count = 0, period = 3\<rparr>))]\<rparr>) \<le> max 0 (1 - 0)"
  using quota_safe_within_period[OF _ _ call_alone[of 1 3 "\<lparr>count = 0, period = 3\<rparr>"]] by simp

text \<open>At the change of the period the counter does not hold: two calls that both read the
  old period pass although the budget is one request, because the reset of the
  second undoes the increment of the first.\<close>

theorem quota_race_at_rollover:
  "\<exists>s. call_reach 1 today (started 2 \<lparr>count = c, period = today - 1\<rparr>) s
     \<and> threads s = [Finished True, Finished True] \<and> passed s = 2"
proof -
  let ?q = "\<lparr>count = c, period = today - 1\<rparr>"
  let ?f = "\<lambda>n a b. \<lparr>shared = \<lparr>count = n, period = today\<rparr>, threads = [a, b]\<rparr>"
  let ?o = "Loaded (today - 1)"
  note step = call_step.load[of 0] call_step.load[of 1] call_step.cas[of 0] call_step.cas[of 1]
    call_step.store[of 0] call_step.store[of 1] call_step.add[of 0] call_step.add[of 1]
  have "call_reach 1 today (started 2 ?q) \<lparr>shared = ?q, threads = [?o, Start]\<rparr>"
    using step(1)[of "started 2 ?q" 1 today] by (simp add: started_def numeral_2_eq_2 r_into_rtranclp)
  also have "call_step 1 today \<lparr>shared = ?q, threads = [?o, Start]\<rparr> \<lparr>shared = ?q, threads = [?o, ?o]\<rparr>"
    using step(2)[of "\<lparr>shared = ?q, threads = [?o, Start]\<rparr>" 1 today] by simp
  also have "call_step 1 today \<lparr>shared = ?q, threads = [?o, ?o]\<rparr> (?f c Swapped ?o)"
    using step(3)[of "\<lparr>shared = ?q, threads = [?o, ?o]\<rparr>" _ 1 today] by simp
  also have "call_step 1 today (?f c Swapped ?o) (?f 0 Ready ?o)"
    using step(5)[of "?f c Swapped ?o" 1 today] by simp
  also have "call_step 1 today (?f 0 Ready ?o) (?f 1 (Finished True) ?o)"
    using step(7)[of "?f 0 Ready ?o" 1 today] by simp
  also have "call_step 1 today (?f 1 (Finished True) ?o) (?f 1 (Finished True) Swapped)"
    using step(4)[of "?f 1 (Finished True) ?o" _ 1 today] by simp
  also have "call_step 1 today (?f 1 (Finished True) Swapped) (?f 0 (Finished True) Ready)"
    using step(6)[of "?f 1 (Finished True) Swapped" 1 today] by simp
  also have "call_step 1 today (?f 0 (Finished True) Ready) (?f 1 (Finished True) (Finished True))"
    using step(8)[of "?f 0 (Finished True) Ready" 1 today] by simp
  finally show ?thesis by (intro exI[of _ "?f 1 (Finished True) (Finished True)"]) (simp add: passed_def)
qed

subsection \<open>The Marginalia budget\<close>

text \<open>\<open>gauge\<close> lists the values published when a registry is present.\<close>

record MarginaliaBudget =
  limit :: int
  registry :: bool
  day :: string
  spent :: int
  gauge :: "int list"

definition defaultMarginaliaDailyBudget :: int where
  "defaultMarginaliaDailyBudget = 80"

definition utc_date :: "instant \<Rightarrow> string" where
  "utc_date t = format_date (day_of 0 t)"

definition publishRemaining :: "MarginaliaBudget \<Rightarrow> MarginaliaBudget" where
  "publishRemaining b = (if registry b then b\<lparr>gauge := gauge b @ [limit b - spent b]\<rparr> else b)"

definition reset :: "instant \<Rightarrow> MarginaliaBudget \<Rightarrow> MarginaliaBudget" where
  "reset t b = publishRemaining (b\<lparr>day := utc_date t, spent := 0\<rparr>)"

definition newMarginaliaBudget :: "int \<Rightarrow> bool \<Rightarrow> instant \<Rightarrow> MarginaliaBudget" where
  "newMarginaliaBudget n m now =
     reset now \<lparr>limit = (if n \<le> 0 then defaultMarginaliaDailyBudget else n), registry = m,
       day = '''', spent = 0, gauge = []\<rparr>"

definition Acquire :: "instant \<Rightarrow> MarginaliaBudget \<Rightarrow> bool \<times> MarginaliaBudget" where
  "Acquire now b =
     (let today = utc_date now;
          b = (if today \<noteq> day b then b\<lparr>day := today, spent := 0\<rparr> else b)
      in if spent b \<ge> limit b then (False, publishRemaining b)
         else (True, publishRemaining (b\<lparr>spent := spent b + 1\<rparr>)))"

fun acquire_run :: "instant list \<Rightarrow> MarginaliaBudget \<Rightarrow> bool list \<times> MarginaliaBudget" where
  "acquire_run [] b = ([], b)"
| "acquire_run (t # ts) b =
     (let (ok, b1) = Acquire t b; (oks, b2) = acquire_run ts b1 in (ok # oks, b2))"

definition budget_wf :: "MarginaliaBudget \<Rightarrow> bool" where
  "budget_wf b \<longleftrightarrow> 0 < limit b \<and> 0 \<le> spent b \<and> spent b \<le> limit b
     \<and> list_all (\<lambda>g. 0 \<le> g \<and> g \<le> limit b) (gauge b)"

lemma publish_frame [simp]:
  "limit (publishRemaining b) = limit b" "spent (publishRemaining b) = spent b" "day (publishRemaining b) = day b"
  by (simp_all add: publishRemaining_def)


lemma budget_wf_new [inv_rules]: "budget_wf (newMarginaliaBudget n m t)"
  by (auto simp: newMarginaliaBudget_def reset_def defaultMarginaliaDailyBudget_def budget_wf_def
    publishRemaining_def)

lemma budget_wf_Acquire [inv_rules]: "budget_wf b \<Longrightarrow> budget_wf (snd (Acquire t b))"
  by (auto simp: Acquire_def Let_def budget_wf_def publishRemaining_def)

lemma budget_wf_run [inv_rules]: "budget_wf b \<Longrightarrow> budget_wf (snd (acquire_run ts b))"
  by (induction ts arbitrary: b) (auto simp: split_def Let_def intro: inv_rules)

lemma limit_Acquire: "limit (snd (Acquire t b)) = limit b"
  by (simp add: Acquire_def Let_def)

lemma limit_run [simp]: "limit (snd (acquire_run ts b)) = limit b"
  by (induction ts arbitrary: b) (simp_all add: split_def Let_def limit_Acquire)

lemma Acquire_same_day:
  "day b = utc_date t \<Longrightarrow> Acquire t b = (spent b < limit b,
     publishRemaining (if spent b < limit b then b\<lparr>spent := spent b + 1\<rparr> else b))"
  by (auto simp: Acquire_def Let_def)

lemma acquire_run_same:
  assumes "day b = d" "list_all (\<lambda>t. utc_date t = d) ts" "spent b \<le> limit b"
  shows "granted (fst (acquire_run ts b)) = min (length ts) (nat (limit b - spent b))"
  using assms
proof (induction ts arbitrary: b)
  case (Cons t ts)
  have a: "Acquire t b = (spent b < limit b,
     publishRemaining (if spent b < limit b then b\<lparr>spent := spent b + 1\<rparr> else b))"
    by (rule Acquire_same_day) (use Cons.prems in simp)
  let ?b = "publishRemaining (if spent b < limit b then b\<lparr>spent := spent b + 1\<rparr> else b)"
  have "granted (fst (acquire_run ts ?b)) = min (length ts) (nat (limit ?b - spent ?b))"
    using Cons by (intro Cons.IH) auto
  with a Cons.prems(3) show ?case by (auto simp: split_def Let_def min_def)
qed simp

text \<open>The invariant of the budget holds after any sequence of calls: the spend never exceeds
  the limit, and every published gauge value lies between zero and the limit.\<close>

theorem marginalia_budget_invariant:
  "budget_wf (snd (acquire_run ts (newMarginaliaBudget n m t0)))"
  by (intro inv_rules)

text \<open>On one calendar day (UTC) at most the limit is granted, whatever happened before
  that day; and a day that starts fresh grants exactly the first \<open>limit\<close> calls.\<close>

theorem marginalia_daily_cap:
  assumes "ts \<noteq> []" "list_all (\<lambda>t. utc_date t = d) ts"
    and "b = snd (acquire_run earlier (newMarginaliaBudget n m t0))"
  shows "int (granted (fst (acquire_run ts b))) \<le> limit b
    \<and> limit b = (if n \<le> 0 then 80 else n)
    \<and> (if day b = d then True
       else granted (fst (acquire_run ts b)) = min (length ts) (nat (limit b)))"
proof -
  have wf: "budget_wf b" unfolding assms(3) by (intro inv_rules)
  then have s: "0 \<le> spent b" "spent b \<le> limit b" "0 < limit b" by (auto simp: budget_wf_def)
  have l: "limit b = (if n \<le> 0 then 80 else n)"
    unfolding assms(3) by (simp add: newMarginaliaBudget_def reset_def defaultMarginaliaDailyBudget_def)
  show ?thesis
  proof (cases "day b = d")
    case True
    from acquire_run_same[OF True assms(2) s(2)] s l True show ?thesis by auto
  next
    case False
    obtain t rest where ts: "ts = t # rest" using assms(1) by (cases ts) auto
    then have t: "utc_date t = d" using assms(2) by simp
    let ?b = "publishRemaining (b\<lparr>day := d, spent := 1\<rparr>)"
    have a: "Acquire t b = (True, ?b)" using False t s by (auto simp: Acquire_def Let_def)
    have "granted (fst (acquire_run rest ?b)) = min (length rest) (nat (limit ?b - spent ?b))"
      using assms(2) ts s by (intro acquire_run_same[where d = d]) auto
    then have "granted (fst (acquire_run ts b)) = min (length ts) (nat (limit b))"
      using ts a s by (auto simp: split_def Let_def min_def)
    with s l False show ?thesis by auto
  qed
qed

theorem marginalia_daily_cap_witness:
  "\<exists>d. int (granted (fst (acquire_run [0, 1, 2] (snd (acquire_run [] (newMarginaliaBudget 2 True 0)))))) \<le> 2
     \<and> d = utc_date 0"
proof -
  have "day_of 0 1 = day_of 0 0" "day_of 0 2 = day_of 0 0" by (simp_all add: day_of_def day_ns_def)
  then have "list_all (\<lambda>t. utc_date t = utc_date 0) [0, 1, 2]" by (simp add: utc_date_def)
  from marginalia_daily_cap[OF _ this refl, of "[]" 2 True 0] show ?thesis
    by (auto simp: newMarginaliaBudget_def reset_def)
qed

end
