(* ===== verification/Retry.thy ===== *)
theory Retry
  imports Go_Errors
begin

text \<open>
  The retry loop and the per-URL retry tracker the fetcher uses
  (\<open>retry.go\<close> and \<open>retry_tracker.go\<close> of the vendored
  \<open>go-stealth\<close>).  The environment is a world \<open>'w\<close> threaded
  through every call; \<open>ctxErr\<close> reads \<open>ctx.Err()\<close> in it and
  \<open>backoff n\<close> waits before retry \<open>n + 1\<close>, answering
  \<open>Some e\<close> when \<open>ctx.Done()\<close> fired first.
\<close>

subsection \<open>The retry loop\<close>

definition IsRetryableStatus :: "int \<Rightarrow> bool" where
  "IsRetryableStatus code \<longleftrightarrow> code \<in> {429, 500, 502, 503, 504}"

definition IsRetryable :: "go_error \<Rightarrow> bool" where
  "IsRetryable err =
     (case As_HttpStatus err of
        Some c \<Rightarrow> IsRetryableStatus c
      | None \<Rightarrow> (case As_Net err of Some t \<Rightarrow> t | None \<Rightarrow> False))"

fun retry_loop ::
  "('w \<Rightarrow> go_error option) \<Rightarrow> (nat \<Rightarrow> 'w \<Rightarrow> go_error option \<times> 'w) \<Rightarrow> nat \<Rightarrow> nat
   \<Rightarrow> ('w \<Rightarrow> 'a result \<times> 'w) \<Rightarrow> 'w \<Rightarrow> 'a result \<times> 'w" where
  "retry_loop ctxErr backoff attempt 0 fn w =
     (case ctxErr w of
        Some e \<Rightarrow> (Inl e, w)
      | None \<Rightarrow> fn w)"
| "retry_loop ctxErr backoff attempt (Suc left) fn w =
     (case ctxErr w of
        Some e \<Rightarrow> (Inl e, w)
      | None \<Rightarrow>
          (case fn w of
             (Inr x, w1) \<Rightarrow> (Inr x, w1)
           | (Inl err, w1) \<Rightarrow>
               if \<not> IsRetryable err then (Inl err, w1)
               else (case backoff attempt w1 of
                       (Some e, w2) \<Rightarrow> (Inl e, w2)
                     | (None, w2) \<Rightarrow> retry_loop ctxErr backoff (Suc attempt) left fn w2)))"

text \<open>With a negative \<open>MaxRetries\<close> the loop body never runs and the zero
  value is returned with a nil error.\<close>

definition RetryDo ::
  "('w \<Rightarrow> go_error option) \<Rightarrow> (nat \<Rightarrow> 'w \<Rightarrow> go_error option \<times> 'w) \<Rightarrow> int \<Rightarrow> 'a
   \<Rightarrow> ('w \<Rightarrow> 'a result \<times> 'w) \<Rightarrow> 'w \<Rightarrow> 'a result \<times> 'w" where
  "RetryDo ctxErr backoff maxRetries zero fn w =
     (if maxRetries < 0 then (Inr zero, w)
      else retry_loop ctxErr backoff 0 (nat maxRetries) fn w)"

lemma retry_loop_cancelled: "ctxErr w = Some e \<Longrightarrow> retry_loop ctxErr backoff a n fn w = (Inl e, w)"
  by (cases n) auto

lemma retry_loop_first_success:
  "ctxErr w = None \<Longrightarrow> fn w = (Inr x, w1) \<Longrightarrow> retry_loop ctxErr backoff a n fn w = (Inr x, w1)"
  by (cases n) auto

lemma retry_loop_permanent:
  "ctxErr w = None \<Longrightarrow> fn w = (Inl e, w1) \<Longrightarrow> \<not> IsRetryable e
   \<Longrightarrow> retry_loop ctxErr backoff a n fn w = (Inl e, w1)"
  by (cases n) auto

text \<open>A property of the world that every call and every wait keeps is kept by the loop.\<close>

lemma retry_loop_invariant:
  assumes "\<And>w. P w \<Longrightarrow> P (snd (fn w))" "\<And>n w. P w \<Longrightarrow> P (snd (backoff n w))" "P w"
  shows "P (snd (retry_loop ctxErr backoff a n fn w))"
  using assms(3)
proof (induction n arbitrary: a w)
  case 0
  then show ?case using assms(1) by (auto split: option.splits)
next
  case (Suc n)
  show ?case
  proof (cases "ctxErr w")
    case None
    obtain r w1 where f: "fn w = (r, w1)" by (cases "fn w")
    obtain d w2 where b: "backoff a w1 = (d, w2)" by (cases "backoff a w1")
    have "P w1" using assms(1)[OF Suc.prems] f by simp
    moreover from this have "P w2" using assms(2)[of w1 a] b by simp
    ultimately show ?thesis using None f b Suc.IH by (auto split: sum.splits option.splits)
  qed (use Suc in auto)
qed

text \<open>The loop calls its function at most \<open>Suc n\<close> times.\<close>

lemma retry_loop_calls:
  fixes calls :: "'w \<Rightarrow> nat"
  assumes "\<And>w. calls (snd (fn w)) \<le> Suc (calls w)" "\<And>k w. calls (snd (backoff k w)) = calls w"
  shows "calls (snd (retry_loop ctxErr backoff a n fn w)) \<le> calls w + Suc n"
proof (induction n arbitrary: a w)
  case 0
  then show ?case using assms(1) by (auto split: option.splits)
next
  case (Suc n)
  show ?case
  proof (cases "ctxErr w")
    case None
    obtain r w1 where f: "fn w = (r, w1)" by (cases "fn w")
    obtain d w2 where b: "backoff a w1 = (d, w2)" by (cases "backoff a w1")
    have "calls w1 \<le> Suc (calls w)" "calls w2 = calls w1"
      using assms(1)[of w] f assms(2)[of a w1] b by simp_all
    with None f b Suc.IH[of "Suc a" w2] show ?thesis by (auto split: sum.splits option.splits)
  qed simp
qed

subsection \<open>The per-URL tracker\<close>

record retryEntry =
  attempts :: int
  lastAttempt :: instant
  permanent :: bool

record RetryTracker =
  entries :: "(string, retryEntry) gomap"
  rt_ttl :: duration
  maxAttempts :: int

definition NewRetryTracker :: "int \<Rightarrow> duration \<Rightarrow> RetryTracker" where
  "NewRetryTracker n t = \<lparr>entries = [], rt_ttl = t, maxAttempts = n\<rparr>"

definition isPermanentError :: "go_error \<Rightarrow> bool" where
  "isPermanentError err =
     (case As_HttpStatus err of
        None \<Rightarrow> False
      | Some c \<Rightarrow> c \<in> {400, 401, 403, 404, 410, 451})"

definition ShouldRetry :: "instant \<Rightarrow> string \<Rightarrow> RetryTracker \<Rightarrow> bool \<times> RetryTracker" where
  "ShouldRetry now url t =
     (case map_of (entries t) url of
        None \<Rightarrow> (True, t)
      | Some e \<Rightarrow>
          if \<not> permanent e \<and> now - lastAttempt e > rt_ttl t
          then (True, t\<lparr>entries := AList.delete url (entries t)\<rparr>)
          else if permanent e then (False, t)
          else (attempts e < maxAttempts t, t))"

definition RecordAttempt :: "instant \<Rightarrow> string \<Rightarrow> go_error \<Rightarrow> RetryTracker \<Rightarrow> RetryTracker" where
  "RecordAttempt now url err t =
     (let e = (case map_of (entries t) url of
                 None \<Rightarrow> \<lparr>attempts = 0, lastAttempt = 0, permanent = False\<rparr>
               | Some e \<Rightarrow> e)
      in t\<lparr>entries := AList.update url
             (e\<lparr>attempts := attempts e + 1, lastAttempt := now, permanent := isPermanentError err\<rparr>)
             (entries t)\<rparr>)"

definition RecordSuccess :: "string \<Rightarrow> RetryTracker \<Rightarrow> RetryTracker" where
  "RecordSuccess url t = t\<lparr>entries := AList.delete url (entries t)\<rparr>"

lemma ShouldRetry_after_success: "fst (ShouldRetry now url (RecordSuccess url t))"
  by (simp add: ShouldRetry_def RecordSuccess_def delete_conv')

lemma ShouldRetry_permanent:
  "isPermanentError err \<Longrightarrow> \<not> fst (ShouldRetry now url (RecordAttempt now' url err t))"
  by (simp add: ShouldRetry_def RecordAttempt_def Let_def update_conv')

lemma RecordAttempt_lookup:
  "map_of (entries (RecordAttempt now url err t)) url =
     Some \<lparr>attempts = (case map_of (entries t) url of None \<Rightarrow> 0 | Some e \<Rightarrow> attempts e) + 1,
           lastAttempt = now, permanent = isPermanentError err\<rparr>"
  by (simp add: RecordAttempt_def Let_def update_conv' split: option.split)

lemma ShouldRetry_other:
  "u \<noteq> url \<Longrightarrow> fst (ShouldRetry now u (RecordAttempt now' url err t)) = fst (ShouldRetry now u t)"
  by (simp add: ShouldRetry_def RecordAttempt_def Let_def update_conv' split: option.split)

end
