(* ===== verification/Search_Runners.thy ===== *)
theory Search_Runners
  imports Reddit_OAuth Quotas Retry
begin

text \<open>
  The sources of \<open>SearchDirect\<close>: the runners of \<open>search/direct_runners.go\<close>, the
  engine entry points of package \<open>search\<close> they call
  (\<open>SearchDDGDirect\<close> and its siblings, \<open>mojeek.go\<close>, \<open>wikipedia.go\<close>,
  \<open>marginalia.go\<close>), and the three-tier Reddit chain.  A runner answers a list of
  results and an error, as in Go; the collector ignores the results that come with an error.
\<close>

type_synonym answer = "Result list \<times> go_error option"

definition ok_res :: "Result list \<Rightarrow> answer" where
  "ok_res rs = (rs, None)"

definition of_result :: "Result list result \<Rightarrow> answer" where
  "of_result r = (case r of Inl e \<Rightarrow> ([], Some e) | Inr rs \<Rightarrow> (rs, None))"

text \<open>A limiter's or pacer's \<open>Wait\<close>: the error when the context ended first.\<close>

type_synonym 'w wait = "'w \<Rightarrow> go_error option \<times> 'w"

record 'w run_cfg =
  Browser :: "'w browser iface"
  MojeekBrowser :: "'w browser iface"
  DDGLimiter :: "'w wait option"
  StartpageLimiter :: "'w wait option"
  BraveLimiter :: "'w wait option"
  RedditLimiter :: "'w wait option"
  BingLimiter :: "'w wait option"
  maxRetries :: int
  retryBackoff :: "nat \<Rightarrow> 'w \<Rightarrow> go_error option \<times> 'w"
  RunTimeRange :: string
  MarginaliaKey :: string
  MarginaliaBudget :: "('w \<Rightarrow> bool \<times> 'w) iface"
  RedditOAuth :: "(string \<Rightarrow> 'w \<Rightarrow> Result list result \<times> 'w) option"
  RedditCookieSearch :: "(string \<Rightarrow> 'w \<Rightarrow> answer \<times> 'w) option"
  RedditBrowserRender :: "(string \<Rightarrow> 'w \<Rightarrow> answer \<times> 'w) option"
  Incr :: "string \<Rightarrow> 'w \<Rightarrow> 'w"

subsection \<open>Engine entry points\<close>

text \<open>The browser handed to an engine: an interface value, nil or not.  A nil browser is
  refused by the engine; a typed nil is not, and its call panics.\<close>

definition browser_of :: "'w browser iface \<Rightarrow> 'w browser option" where
  "browser_of b =
     (case b of
        NilIface \<Rightarrow> None
      | TypedNil \<Rightarrow> Some \<lparr>Do = iface_Do TypedNil, identity = None\<rparr>
      | Iface x \<Rightarrow> Some x)"

definition SearchDDGDirect :: "('w, 'n) ws_env \<Rightarrow> 'w run_cfg \<Rightarrow> string \<Rightarrow> string \<Rightarrow> 'w \<Rightarrow> Result list result \<times> 'w" where
  "SearchDDGDirect E cfg query region w =
     (let w = Incr cfg ''ddg_requests'' w
      in case NewDDG (browser_of (Browser cfg)) (if region \<noteq> '''' then region else ddgDefaultRegion) of
           Inl e \<Rightarrow> (Inl e, w)
         | Inr (b, r) \<Rightarrow> DDG_Search E b r query (no_opts\<lparr>TimeRange := RunTimeRange cfg\<rparr>) w)"

definition SearchStartpageDirect :: "('w, 'n) ws_env \<Rightarrow> 'w run_cfg \<Rightarrow> string \<Rightarrow> string \<Rightarrow> 'w \<Rightarrow> Result list result \<times> 'w" where
  "SearchStartpageDirect E cfg query language w =
     Startpage_Search E (browser_of (Browser cfg)) startpageDefaultLang query
       (no_opts\<lparr>Language := language, TimeRange := RunTimeRange cfg\<rparr>) (Incr cfg ''startpage_requests'' w)"

definition SearchBraveDirect :: "('w, 'n) ws_env \<Rightarrow> 'w run_cfg \<Rightarrow> string \<Rightarrow> 'w \<Rightarrow> Result list result \<times> 'w" where
  "SearchBraveDirect E cfg query w =
     Brave_Search E (browser_of (Browser cfg)) query (no_opts\<lparr>TimeRange := RunTimeRange cfg\<rparr>)
       (Incr cfg ''brave_requests'' w)"

definition SearchBingDirect :: "('w, 'n) ws_env \<Rightarrow> 'w run_cfg \<Rightarrow> string \<Rightarrow> 'w \<Rightarrow> Result list result \<times> 'w" where
  "SearchBingDirect E cfg query w =
     Bing_Search E (browser_of (Browser cfg)) query (no_opts\<lparr>TimeRange := RunTimeRange cfg\<rparr>)
       (Incr cfg ''bing_requests'' w)"

definition SearchRedditDirect :: "('w, 'n) ws_env \<Rightarrow> 'w run_cfg \<Rightarrow> string \<Rightarrow> 'w \<Rightarrow> Result list result \<times> 'w" where
  "SearchRedditDirect E cfg query w =
     Reddit_Search E (browser_of (Browser cfg)) query (no_opts\<lparr>Limit := 10, TimeRange := RunTimeRange cfg\<rparr>)
       (Incr cfg ''reddit_requests'' w)"

text \<open>Mojeek and Wikipedia treat 429 as an empty answer.\<close>

definition SearchMojeekDirect ::
  "('w, 'n) ws_env \<Rightarrow> 'w run_cfg \<Rightarrow> 'w browser iface \<Rightarrow> string \<Rightarrow> 'w \<Rightarrow> Result list result \<times> 'w" where
  "SearchMojeekDirect E cfg bc query w =
     (let w = Incr cfg ''mojeek_requests'' w
      in case ws_ctxErr E w of
           Some e \<Rightarrow> (Inl e, w)
         | None \<Rightarrow>
             let q = (if RunTimeRange cfg \<noteq> '''' then query @ '' since:'' @ RunTimeRange cfg else query);
                 u = ''https://www.mojeek.com/search'' @ ''?q='' @ QueryEscape q;
                 h = with_headers [(''accept'', ''text/html,application/xhtml+xml,application/xml;q=0.9,*/*;q=0.8'')]
                       (ChromeHeadersFor (ws_defaultUA E) (case bc of Iface b \<Rightarrow> identity b | _ \<Rightarrow> None));
                 (ans, w1) = iface_Do bc (get u h) w
             in (case ans of
                   Inl e \<Rightarrow> Inl e
                 | Inr (data, _, status) \<Rightarrow>
                     if status = 429 then Inr []
                     else if status \<noteq> 200 then Inl (ErrNew (''mojeek: unexpected status '' @ Itoa status))
                     else ParseMojeekHTML (ws_dom E) data, w1))"

definition wikipedia_url :: "string \<Rightarrow> string \<Rightarrow> string" where
  "wikipedia_url lang query = ''https://'' @ lang @ ''.wikipedia.org/w/api.php?action=query&list=search&srsearch=''
     @ QueryEscape query @ ''&format=json&srlimit=10''"

definition SearchWikipediaDirect ::
  "('w, 'n) ws_env \<Rightarrow> (string \<Rightarrow> (string \<times> string) list result) \<Rightarrow> 'w run_cfg \<Rightarrow> string \<Rightarrow> string \<Rightarrow> 'w
   \<Rightarrow> Result list result \<times> 'w" where
  "SearchWikipediaDirect E dec cfg query lang w =
     (let w = Incr cfg ''wikipedia_requests'' w
      in case ws_ctxErr E w of
           Some e \<Rightarrow> (Inl e, w)
         | None \<Rightarrow>
             let h = with_headers [(''accept'', ''application/json'')]
                       (ChromeHeadersFor (ws_defaultUA E) (case Browser cfg of Iface b \<Rightarrow> identity b | _ \<Rightarrow> None));
                 (ans, w1) = iface_Do (Browser cfg) (get (wikipedia_url lang query) h) w
             in (case ans of
                   Inl e \<Rightarrow> Inl e
                 | Inr (data, _, status) \<Rightarrow>
                     if status = 429 then Inr []
                     else if status \<noteq> 200 then Inl (ErrNew (''wikipedia: unexpected status '' @ Itoa status))
                     else ParseWikipediaJSON dec data lang, w1))"

subsection \<open>Marginalia\<close>

definition redacted :: string where
  "redacted = ''[redacted]''"

definition redactKeyFromString :: "string \<Rightarrow> string \<Rightarrow> string" where
  "redactKeyFromString s key =
     (if key = '''' then s
      else let s1 = ReplaceAll s key redacted; esc = PathEscape key
           in if esc \<noteq> key then ReplaceAll s1 esc redacted else s1)"

definition marginalia_key :: "string \<Rightarrow> string" where
  "marginalia_key key = (let k = TrimSpace key in if k = '''' then ''public'' else k)"

definition marginalia_url :: "string \<Rightarrow> string \<Rightarrow> string" where
  "marginalia_url key query = ''https://api.marginalia.nu/'' @ PathEscape key @ ''/search/'' @ PathEscape query @ ''?count=10''"

text \<open>\<open>errText\<close> is the method \<open>Error\<close>; the new error keeps the old one as its cause.\<close>

definition searchMarginaliaDirect ::
  "('w, 'n) ws_env \<Rightarrow> (string \<Rightarrow> (string \<times> marginaliaItem list) result) \<Rightarrow> (go_error \<Rightarrow> string) \<Rightarrow> 'w run_cfg
   \<Rightarrow> string \<Rightarrow> 'w \<Rightarrow> Result list result \<times> 'w" where
  "searchMarginaliaDirect E dec errText cfg query w =
     (let w = Incr cfg ''marginalia_requests'' w
      in case ws_ctxErr E w of
           Some e \<Rightarrow> (Inl e, w)
         | None \<Rightarrow>
             let key = marginalia_key (MarginaliaKey cfg);
                 redactKey = (if key = ''public'' then '''' else key);
                 h = with_headers [(''accept'', ''application/json'')]
                       (ChromeHeadersFor (ws_defaultUA E) (case Browser cfg of Iface b \<Rightarrow> identity b | _ \<Rightarrow> None));
                 (ans, w1) = iface_Do (Browser cfg) (get (marginalia_url key query) h) w
             in (case ans of
                   Inl e \<Rightarrow>
                     if is_panic ans then Inl e
                     else Inl (ErrWrap (''marginalia: request failed: '' @ redactKeyFromString (errText e) redactKey) e)
                 | Inr (data, _, status) \<Rightarrow>
                     if status = 429 then Inr []
                     else if status \<noteq> 200 then Inl (ErrNew (''marginalia: unexpected status '' @ Itoa status))
                     else ParseMarginaliaJSON dec data, w1))"

subsection \<open>Runners\<close>

definition run_limited ::
  "('w, 'n) ws_env \<Rightarrow> 'w run_cfg \<Rightarrow> 'w wait option \<Rightarrow> ('w \<Rightarrow> Result list result \<times> 'w) \<Rightarrow> 'w \<Rightarrow> answer \<times> 'w" where
  "run_limited E cfg limiter fn w =
     (let retried = (\<lambda>w. let (r, w1) = RetryDo (ws_ctxErr E) (retryBackoff cfg) (maxRetries cfg) [] fn w
                        in (of_result r, w1))
      in case limiter of
           None \<Rightarrow> retried w
         | Some wait \<Rightarrow>
             (case wait w of
                (Some e, w1) \<Rightarrow> (ok_res [], w1)
              | (None, w1) \<Rightarrow> retried w1))"

definition runDDG :: "('w, 'n) ws_env \<Rightarrow> 'w run_cfg \<Rightarrow> string \<Rightarrow> 'w \<Rightarrow> answer \<times> 'w" where
  "runDDG E cfg query = run_limited E cfg (DDGLimiter cfg) (SearchDDGDirect E cfg query ''wt-wt'')"

definition runStartpage :: "('w, 'n) ws_env \<Rightarrow> 'w run_cfg \<Rightarrow> string \<Rightarrow> string \<Rightarrow> 'w \<Rightarrow> answer \<times> 'w" where
  "runStartpage E cfg query language =
     run_limited E cfg (StartpageLimiter cfg) (SearchStartpageDirect E cfg query language)"

definition runBrave :: "('w, 'n) ws_env \<Rightarrow> 'w run_cfg \<Rightarrow> string \<Rightarrow> 'w \<Rightarrow> answer \<times> 'w" where
  "runBrave E cfg query = run_limited E cfg (BraveLimiter cfg) (SearchBraveDirect E cfg query)"

definition runBing :: "('w, 'n) ws_env \<Rightarrow> 'w run_cfg \<Rightarrow> string \<Rightarrow> 'w \<Rightarrow> answer \<times> 'w" where
  "runBing E cfg query = run_limited E cfg (BingLimiter cfg) (SearchBingDirect E cfg query)"

definition runWikipedia ::
  "('w, 'n) ws_env \<Rightarrow> (string \<Rightarrow> (string \<times> string) list result) \<Rightarrow> 'w run_cfg \<Rightarrow> string \<Rightarrow> string \<Rightarrow> 'w
   \<Rightarrow> Result list result \<times> 'w" where
  "runWikipedia E dec cfg query language =
     SearchWikipediaDirect E dec cfg query (if HasPrefix language ''ru'' then ''ru'' else ''en'')"

definition runMojeek :: "('w, 'n) ws_env \<Rightarrow> 'w run_cfg \<Rightarrow> string \<Rightarrow> 'w \<Rightarrow> Result list result \<times> 'w" where
  "runMojeek E cfg query =
     SearchMojeekDirect E cfg (if isNilInterface (MojeekBrowser cfg) then Browser cfg else MojeekBrowser cfg) query"

text \<open>\<open>defaultGate\<close> is the package-level budget used when none is injected.\<close>

definition runMarginalia ::
  "('w, 'n) ws_env \<Rightarrow> (string \<Rightarrow> (string \<times> marginaliaItem list) result) \<Rightarrow> (go_error \<Rightarrow> string)
   \<Rightarrow> ('w \<Rightarrow> bool \<times> 'w) \<Rightarrow> 'w run_cfg \<Rightarrow> string \<Rightarrow> 'w \<Rightarrow> Result list result \<times> 'w" where
  "runMarginalia E dec errText defaultGate cfg query w =
     (let gate = (case MarginaliaBudget cfg of Iface g \<Rightarrow> g | _ \<Rightarrow> defaultGate);
          (ok, w1) = gate w
      in if \<not> ok then (Inl ErrMarginaliaQuotaExhausted, w1)
         else searchMarginaliaDirect E dec errText cfg query w1)"

subsection \<open>Reddit in three tiers\<close>

definition isEscalatable :: "go_error option \<Rightarrow> bool" where
  "isEscalatable e =
     (case e of
        None \<Rightarrow> False
      | Some e \<Rightarrow>
          if errors_Is e Canceled \<or> errors_Is e DeadlineExceeded then False
          else if errors_Is e ErrCredentialInvalid then False
          else if errors_Is e ErrTransient then True
          else As_RateLimited e \<noteq> None)"

record tierCallResult =
  tc_res :: "Result list"
  tc_err :: "go_error option"
  tc_done :: bool
  tc_skipNext :: bool

definition tier_next :: tierCallResult where
  "tier_next = \<lparr>tc_res = [], tc_err = None, tc_done = False, tc_skipNext = False\<rparr>"

definition tierOutcomeLabel :: "go_error option \<Rightarrow> string" where
  "tierOutcomeLabel e =
     (case e of None \<Rightarrow> ''empty''
      | Some e \<Rightarrow> if As_RateLimited e \<noteq> None then ''rate_limited'' else ''error'')"

definition callTier1OAuth :: "Result list result \<Rightarrow> tierCallResult" where
  "callTier1OAuth r =
     (case r of
        Inr res \<Rightarrow> if res \<noteq> [] then tier_next\<lparr>tc_res := res, tc_done := True\<rparr> else tier_next
      | Inl e \<Rightarrow>
          if errors_Is e ErrCredentialInvalid then tier_next\<lparr>tc_skipNext := True\<rparr>
          else if \<not> isEscalatable (Some e) then tier_next\<lparr>tc_err := Some e, tc_done := True\<rparr>
          else tier_next)"

definition callTierFn :: "answer \<Rightarrow> tierCallResult" where
  "callTierFn r =
     (let (res, err) = r in
      if err = None then (if res \<noteq> [] then tier_next\<lparr>tc_res := res, tc_done := True\<rparr> else tier_next)
      else if \<not> isEscalatable err then tier_next\<lparr>tc_res := res, tc_err := err, tc_done := True\<rparr>
      else tier_next)"

definition callTierFnFinal :: "answer \<Rightarrow> tierCallResult" where
  "callTierFnFinal r =
     (let (res, err) = r in
      if err = None \<and> res \<noteq> [] then tier_next\<lparr>tc_res := res, tc_done := True\<rparr> else tier_next)"

definition runReddit_tiers ::
  "('w, 'n) ws_env \<Rightarrow> 'w run_cfg \<Rightarrow> string \<Rightarrow> 'w \<Rightarrow> answer \<times> 'w" where
  "runReddit_tiers E cfg query w =
     (let anyTierActive = (RedditOAuth cfg \<noteq> None \<or> RedditCookieSearch cfg \<noteq> None \<or> RedditBrowserRender cfg \<noteq> None);
          (t1, w1) = (case RedditOAuth cfg of
                        None \<Rightarrow> (tier_next, w)
                      | Some f \<Rightarrow> let (r, w1) = f query w in (callTier1OAuth r, w1))
      in if tc_done t1 then ((tc_res t1, tc_err t1), w1)
         else
           let (t2, w2) = (case RedditCookieSearch cfg of
                             None \<Rightarrow> (tier_next, w1)
                           | Some f \<Rightarrow> if tc_skipNext t1 then (tier_next, w1)
                               else let (r, w2) = f query w1 in (callTierFn r, w2))
           in if tc_done t2 then ((tc_res t2, tc_err t2), w2)
              else
                let (t3, w3) = (case RedditBrowserRender cfg of
                                  None \<Rightarrow> (tier_next, w2)
                                | Some f \<Rightarrow> let (r, w3) = f query w2 in (callTierFnFinal r, w3))
                in if tc_done t3 then ((tc_res t3, tc_err t3), w3)
                   else if anyTierActive then (([], None), w3)
                   else let (r, w4) = RetryDo (ws_ctxErr E) (retryBackoff cfg) (maxRetries cfg) []
                                        (SearchRedditDirect E cfg query) w3
                        in (of_result r, w4))"

definition runReddit :: "('w, 'n) ws_env \<Rightarrow> 'w run_cfg \<Rightarrow> string \<Rightarrow> 'w \<Rightarrow> answer \<times> 'w" where
  "runReddit E cfg query w =
     (case RedditLimiter cfg of
        None \<Rightarrow> runReddit_tiers E cfg query w
      | Some wait \<Rightarrow>
          (case wait w of
             (Some e, w1) \<Rightarrow> (ok_res [], w1)
           | (None, w1) \<Rightarrow> runReddit_tiers E cfg query w1))"

subsection \<open>The Reddit chain\<close>

lemma tier_next_simps [simp]:
  "tc_res tier_next = []" "tc_err tier_next = None" "\<not> tc_done tier_next" "\<not> tc_skipNext tier_next"
  by (simp_all add: tier_next_def)

lemma tier1_err: "tc_err (callTier1OAuth r) = Some e \<Longrightarrow> \<not> isEscalatable (Some e) \<and> \<not> errors_Is e ErrCredentialInvalid"
  by (auto simp: callTier1OAuth_def split: sum.splits if_splits)

lemma tier2_err: "tc_err (callTierFn r) = Some e \<Longrightarrow> \<not> isEscalatable (Some e)"
  by (auto simp: callTierFn_def split: prod.splits if_splits)

lemma tier3_err: "tc_err (callTierFnFinal r) = None"
  by (auto simp: callTierFnFinal_def split: prod.splits)

text \<open>With none of the three tiers configured the chain is the legacy scraper with its
  retries and nothing else.  With a tier configured the legacy scraper is never
  reached and no error that a lower tier could repair (a rate limit or a server
  failure) is ever reported: it has been escalated or has become an empty answer.\<close>

theorem reddit_chain_errors:
  "(if RedditOAuth cfg = None \<and> RedditCookieSearch cfg = None \<and> RedditBrowserRender cfg = None
    then runReddit_tiers E cfg q w =
      (let (r, w1) = RetryDo (ws_ctxErr E) (retryBackoff cfg) (maxRetries cfg) [] (SearchRedditDirect E cfg q) w
       in (of_result r, w1))
    else \<not> isEscalatable (snd (fst (runReddit_tiers E cfg q w))))"
proof -
  have none: "\<not> isEscalatable None" by (simp add: isEscalatable_def)
  have e1: "\<not> isEscalatable (tc_err (callTier1OAuth r))" for r
    using tier1_err[of r] none by (cases "tc_err (callTier1OAuth r)") auto
  have e2: "\<not> isEscalatable (tc_err (callTierFn r))" for r
    using tier2_err[of r] none by (cases "tc_err (callTierFn r)") auto
  have e3: "\<not> isEscalatable (tc_err (callTierFnFinal r))" for r by (simp add: tier3_err none)
  show ?thesis
  proof (cases "RedditOAuth cfg = None \<and> RedditCookieSearch cfg = None \<and> RedditBrowserRender cfg = None")
    case True
    then show ?thesis by (simp add: runReddit_tiers_def)
  next
    case False
    then have "\<not> isEscalatable (snd (fst (runReddit_tiers E cfg q w)))"
      by (cases "RedditOAuth cfg"; cases "RedditCookieSearch cfg"; cases "RedditBrowserRender cfg")
        (simp_all add: runReddit_tiers_def Let_def split_def none e1 e2 e3)
    with False show ?thesis by argo
  qed
qed

lemma tier1_credential:
  "errors_Is e ErrCredentialInvalid \<Longrightarrow> callTier1OAuth (Inl e) = tier_next\<lparr>tc_skipNext := True\<rparr>"
  by (simp add: callTier1OAuth_def)

text \<open>Refused credentials skip the cookie tier, which uses the same account: the outcome and
  every effect are those of the render tier alone, and the cookie function is not
  called.\<close>

theorem reddit_credential_skips_cookie:
  assumes "RedditOAuth cfg = Some f" "f q w = (Inl e, w1)" "errors_Is e ErrCredentialInvalid"
  shows "runReddit_tiers E cfg q w =
    (case RedditBrowserRender cfg of
       None \<Rightarrow> (([], None), w1)
     | Some g \<Rightarrow> let ((res, err), w2) = g q w1 in ((if err = None then res else [], None), w2))"
  using assms
  by (auto simp: runReddit_tiers_def tier1_credential callTierFnFinal_def Let_def tier_next_def
    split: option.splits prod.splits)

definition lab_run :: "(string \<Rightarrow> unit \<Rightarrow> Result list result \<times> unit) option \<Rightarrow> unit run_cfg" where
  "lab_run oauth = \<lparr>Browser = NilIface, MojeekBrowser = TypedNil, DDGLimiter = None, StartpageLimiter = None,
     BraveLimiter = None, RedditLimiter = None, BingLimiter = None, maxRetries = 0,
     retryBackoff = (\<lambda>_ w. (None, w)), RunTimeRange = '''', MarginaliaKey = ''secret-key'', MarginaliaBudget = TypedNil,
     RedditOAuth = oauth, RedditCookieSearch = Some (\<lambda>_ w. (([], Some ErrTransient), w)),
     RedditBrowserRender = None, Incr = (\<lambda>_ w. w)\<rparr>"

theorem reddit_credential_skips_cookie_witness:
  "runReddit_tiers (still_env None) (lab_run (Some (\<lambda>_ w. (Inl (ErrWrap ''x'' ErrCredentialInvalid), w)))) ''q'' ()
   = (([], None), ())"
  using reddit_credential_skips_cookie[of "lab_run (Some (\<lambda>_ w. (Inl (ErrWrap ''x'' ErrCredentialInvalid), w)))"
      "\<lambda>_ w. (Inl (ErrWrap ''x'' ErrCredentialInvalid), w)" "''q''" "()" "ErrWrap ''x'' ErrCredentialInvalid" "()"
      "still_env None"]
  by (simp add: lab_run_def)

subsection \<open>The Marginalia key and budget\<close>

lemma sublist_split:
  assumes "sublist k (a @ x # b)" "x \<notin> set k"
  shows "sublist k a \<or> sublist k b"
proof -
  from assms(1) obtain p s where e: "a @ x # b = p @ k @ s" by (auto simp: sublist_def)
  show ?thesis
  proof (cases "length p + length k \<le> length a")
    case True
    then have "a = p @ k @ drop (length p + length k) a"
      using arg_cong[OF e, of "take (length p + length k)"] by (metis append.assoc append_take_drop_id length_append append_eq_conv_conj take_append diff_is_0_eq' take0 append_Nil2)
    then show ?thesis by (auto simp: sublist_def)
  next
    case False
    show ?thesis
    proof (cases "length a < length p")
      case True
      have "b = drop (Suc (length a)) p @ k @ s"
        using True arg_cong[OF e, of "drop (Suc (length a))"] by simp
      then show ?thesis by (auto simp: sublist_def)
    next
      case 2: False
      then have lt: "length a - length p < length k" using False by arith
      have "x = (p @ k @ s) ! length a" by (metis e nth_append_length)
      also have "\<dots> = k ! (length a - length p)" using 2 lt by (simp add: nth_append)
      finally have "x \<in> set k" using lt by simp
      with assms(2) show ?thesis by simp
    qed
  qed
qed

lemma Split_parts:
  "sep \<noteq> [] \<Longrightarrow> x \<in> set (Split s sep) \<Longrightarrow> sublist x s \<and> \<not> sublist sep x"
proof (induction s sep rule: Split.induct)
  case (1 s sep)
  show ?case
  proof (cases "Index s sep")
    case None
    then have "Split s sep = [s]" using 1(2) by (subst Split.simps) simp
    with 1(3) None show ?thesis by (simp add: Index_None_iff)
  next
    case (Some i)
    then have s: "Split s sep = take i s # Split (drop (i + length sep) s) sep"
      using 1(2) by (subst Split.simps) simp
    show ?thesis
    proof (cases "x = take i s")
      case True
      have "\<not> sublist sep (take i s)"
      proof
        assume "sublist sep (take i s)"
        then obtain a b where ab: "take i s = a @ sep @ b" by (auto simp: sublist_def)
        have "length a < i" using arg_cong[OF ab, of length] 1(2) by (cases sep) auto
        moreover have "prefix sep (drop (length a) s)"
          by (metis ab append_assoc append_eq_conv_conj append_take_drop_id prefixI)
        ultimately show False using Index_first[OF Some] by blast
      qed
      with True show ?thesis by (simp add: sublist_take)
    next
      case False
      then have "x \<in> set (Split (drop (i + length sep) s) sep)" using 1(3) s by simp
      from 1(1)[OF 1(2) Some 1(2) this] show ?thesis
        by (meson sublist_drop sublist_order.order.trans)
    qed
  qed
qed

text \<open>A text that can stand in a replacement: it does not occur in the marker and cannot
  reach across its brackets.\<close>

definition replaceable :: "string \<Rightarrow> bool" where
  "replaceable k \<longleftrightarrow> k \<noteq> '''' \<and> CHR ''['' \<notin> set k \<and> CHR '']'' \<notin> set k \<and> \<not> sublist k ''redacted''"

lemma Join_redacted:
  assumes "replaceable k" "\<forall>p \<in> set ps. \<not> sublist k p"
  shows "\<not> sublist k (Join ps redacted)"
  using assms(2)
proof (induction ps rule: induct_list012)
  case 1
  then show ?case using assms(1) by (simp add: replaceable_def)
next
  case (3 p q ps)
  have j: "Join (p # q # ps) redacted = p @ CHR ''['' # (''redacted'' @ CHR '']'' # Join (q # ps) redacted)"
    by (simp add: redacted_def)
  show ?case
  proof
    assume "sublist k (Join (p # q # ps) redacted)"
    from sublist_split[OF this[unfolded j]] assms(1)
    have "sublist k p \<or> sublist k (''redacted'' @ CHR '']'' # Join (q # ps) redacted)"
      unfolding replaceable_def by blast
    moreover have "\<not> sublist k (''redacted'' @ CHR '']'' # Join (q # ps) redacted)"
      using sublist_split[of k "''redacted''" "CHR '']''"] assms(1) 3 by (auto simp: replaceable_def)
    ultimately show False using 3(3) by simp
  qed
qed simp

lemma ReplaceAll_gone:
  assumes "replaceable k" "sep \<noteq> []" "\<not> sublist k s \<or> k = sep"
  shows "\<not> sublist k (ReplaceAll s sep redacted)"
proof -
  have "\<forall>p \<in> set (Split s sep). \<not> sublist k p"
    using Split_parts[OF assms(2)] assms(3) by (meson sublist_order.order.trans)
  then show ?thesis unfolding ReplaceAll_def by (rule Join_redacted[OF assms(1)])
qed

lemma PathEscape_ne: "key \<noteq> '''' \<Longrightarrow> PathEscape key \<noteq> ''''"
  by (cases key) (auto simp: PathEscape_def path_byte_def percent_def)

lemma path_safe_plain: "path_safe x \<Longrightarrow> x \<noteq> CHR ''['' \<and> x \<noteq> CHR '']''"
  by (auto simp: path_safe_def unreserved_def alnum_def)

lemma PathEscape_id: "CHR ''%'' \<notin> set (PathEscape key) \<Longrightarrow> PathEscape key = key"
proof (induction key)
  case (Cons c key)
  then show ?case by (auto simp: PathEscape_def path_byte_def percent_def split: if_splits)
qed (simp add: PathEscape_def)

lemma replaceable_escape:
  assumes "PathEscape key \<noteq> key" "key \<noteq> ''''"
  shows "replaceable (PathEscape key)"
proof -
  have pc: "CHR ''%'' \<in> set (PathEscape key)" using PathEscape_id assms(1) by blast
  have "\<not> sublist (PathEscape key) ''redacted''"
  proof
    assume "sublist (PathEscape key) ''redacted''"
    then have "CHR ''%'' \<in> set ''redacted''" using pc set_mono_sublist by blast
    then show False by simp
  qed
  moreover have "\<forall>x \<in> set (PathEscape key). path_safe x"
    using PathEscape_safe[of key] by (simp add: list_all_iff)
  ultimately show ?thesis using PathEscape_ne[OF assms(2)] path_safe_plain by (auto simp: replaceable_def)
qed

text \<open>C34: Redaction removes the key from an error text in both its forms, raw and escaped, however
  often and wherever they occur, provided the key has no square brackets and is not
  itself a piece of the word that replaces it.\<close>

theorem redaction_removes_key:
  assumes "key \<noteq> ''''" "CHR ''['' \<notin> set key" "CHR '']'' \<notin> set key" "\<not> sublist key ''redacted''"
  shows "\<not> sublist key (redactKeyFromString s key) \<and> \<not> sublist (PathEscape key) (redactKeyFromString s key)"
proof -
  have k: "replaceable key" using assms by (simp add: replaceable_def)
  let ?s1 = "ReplaceAll s key redacted"
  have 1: "\<not> sublist key ?s1" by (rule ReplaceAll_gone[OF k assms(1)]) simp
  show ?thesis
  proof (cases "PathEscape key = key")
    case True
    with 1 assms(1) show ?thesis by (simp add: redactKeyFromString_def Let_def)
  next
    case False
    have ne: "PathEscape key \<noteq> []" by (rule PathEscape_ne[OF assms(1)])
    have "\<not> sublist key (ReplaceAll ?s1 (PathEscape key) redacted)"
      by (rule ReplaceAll_gone[OF k ne]) (simp add: 1)
    moreover have "\<not> sublist (PathEscape key) (ReplaceAll ?s1 (PathEscape key) redacted)"
      by (rule ReplaceAll_gone[OF replaceable_escape[OF False assms(1)] ne]) simp
    ultimately show ?thesis using False assms(1) by (simp add: redactKeyFromString_def Let_def)
  qed
qed

theorem redaction_removes_key_witness:
  "\<not> sublist ''k/1'' (redactKeyFromString ''get k/1 as k%2F1'' ''k/1'')
   \<and> \<not> sublist (PathEscape ''k/1'') (redactKeyFromString ''get k/1 as k%2F1'' ''k/1'')"
proof (rule redaction_removes_key)
  show "\<not> sublist ''k/1'' ''redacted''" using set_mono_sublist[of "''k/1''" "''redacted''"] by auto
qed simp_all


text \<open>The locale of a budget gate: what a caller may rely on.  \<open>left\<close> reads from the world
  how many calls the gate will still grant, \<open>sent\<close> how many requests went out.\<close>

locale budget_gate =
  fixes gate :: "'w \<Rightarrow> bool \<times> 'w" and left :: "'w \<Rightarrow> nat" and sent :: "'w \<Rightarrow> nat"
  assumes grant: "gate w = (True, w1) \<Longrightarrow> 0 < left w \<and> left w1 = left w - 1"
    and deny: "gate w = (False, w1) \<Longrightarrow> left w1 = left w"
    and silent: "sent (snd (gate w)) = sent w"
begin

text \<open>A client that asks the gate before each of its requests, and whose work sends at most
  one request and does not touch the gate, never sends more than was left.\<close>

lemma guarded_sends:
  assumes "\<And>w. left (snd (work w)) = left w" "\<And>w. sent (snd (work w)) \<le> Suc (sent w)"
    and "\<And>w. run w = (case gate w of (True, w1) \<Rightarrow> work w1 | (False, w1) \<Rightarrow> (err, w1))"
  shows "sent (((snd \<circ> run) ^^ n) w) + left (((snd \<circ> run) ^^ n) w) \<le> sent w + left w"
proof (induction n)
  case (Suc n)
  let ?v = "((snd \<circ> run) ^^ n) w"
  obtain ok v1 where g: "gate ?v = (ok, v1)" by (cases "gate ?v")
  have s: "sent v1 = sent ?v" using silent[of ?v] g by simp
  have st: "((snd \<circ> run) ^^ Suc n) w = snd (run ?v)" by simp
  have "sent (snd (run ?v)) + left (snd (run ?v)) \<le> sent ?v + left ?v"
  proof (cases ok)
    case True
    with g grant[of ?v v1] have l: "0 < left ?v" "left v1 = left ?v - 1" by auto
    have r: "run ?v = work v1" using assms(3)[of ?v] g True by simp
    show ?thesis unfolding r using assms(1,2)[of v1] l s by simp
  next
    case False
    then show ?thesis using assms(3)[of ?v] g deny[of ?v v1] s by simp
  qed
  with Suc show ?case unfolding st by linarith
qed simp

end

text \<open>The in-memory budget is such a gate, on a world that holds it beside a clock that
  stands on one day and a count of requests.\<close>

record day_world =
  clock :: instant
  budget :: MarginaliaBudget
  requests :: nat

definition budget_Acquire :: "day_world \<Rightarrow> bool \<times> day_world" where
  "budget_Acquire w = (let (ok, b) = Acquire (clock w) (budget w) in (ok, w\<lparr>budget := b\<rparr>))"

definition budget_left :: "day_world \<Rightarrow> nat" where
  "budget_left w = (if day (budget w) = utc_date (clock w) then nat (limit (budget w) - spent (budget w))
     else nat (limit (budget w)))"

interpretation day_gate: budget_gate budget_Acquire budget_left requests
  by unfold_locales
    (auto simp: budget_Acquire_def budget_left_def Acquire_def Let_def split_def split: if_splits prod.splits)

definition counted :: "(http_request \<Rightarrow> http_answer result) \<Rightarrow> day_world browser" where
  "counted ans = \<lparr>Do = (\<lambda>rq w. (ans rq, w\<lparr>requests := Suc (requests w)\<rparr>)), identity = None\<rparr>"

definition day_cfg :: "(http_request \<Rightarrow> http_answer result) \<Rightarrow> string \<Rightarrow> day_world run_cfg" where
  "day_cfg ans key = \<lparr>Browser = Iface (counted ans), MojeekBrowser = TypedNil, DDGLimiter = None,
     StartpageLimiter = None, BraveLimiter = None, RedditLimiter = None, BingLimiter = None, maxRetries = 0,
     retryBackoff = (\<lambda>_ w. (None, w)), RunTimeRange = '''', MarginaliaKey = key, MarginaliaBudget = Iface budget_Acquire,
     RedditOAuth = None, RedditCookieSearch = None, RedditBrowserRender = None, Incr = (\<lambda>_ w. w)\<rparr>"

lemma marginalia_one_request:
  "budget_left (snd (searchMarginaliaDirect E dec txt (day_cfg ans key) q w)) = budget_left w
   \<and> requests (snd (searchMarginaliaDirect E dec txt (day_cfg ans key) q w)) \<le> Suc (requests w)"
  by (auto simp: searchMarginaliaDirect_def day_cfg_def counted_def budget_left_def Let_def split: option.splits)


lemma marginalia_shed_is_silent:
  assumes "isNilInterface (MarginaliaBudget cfg)" "defaultGate w = (False, w1)"
  shows "runMarginalia E dec txt defaultGate cfg q w = (Inl ErrMarginaliaQuotaExhausted, w1)"
  using assms by (auto simp: runMarginalia_def isNilInterface_def split: iface.splits)

end
