(* ===== verification/Http_Client.thy ===== *)
theory Http_Client
  imports Reddit_OAuth
begin

text \<open>
  The part of the standard library the API clients share: an \<open>http.Client\<close>, whose answers
  hold a body that may still fail to be read, the query string of a request and its reading on
  the receiving side, and padded base64.
\<close>

subsection \<open>Requests over an \<open>http.Client\<close>\<close>

record http_response =
  StatusCode :: int
  Header :: headers
  BodyBytes :: string
  BodyErr :: "go_error option"

text \<open>\<open>io.ReadAll\<close>: the bytes that came, and the error that ended them early, if any.\<close>

definition ReadAll :: "http_response \<Rightarrow> string result" where
  "ReadAll r = (case BodyErr r of Some e \<Rightarrow> Inl e | None \<Rightarrow> Inr (BodyBytes r))"

text \<open>\<open>NewRequest\<close> refuses an address that does not parse; \<open>Client_Do\<close> sends the request.\<close>

record 'w http_client =
  NewRequest :: "string \<Rightarrow> go_error option"
  Client_Do :: "http_request \<Rightarrow> 'w \<Rightarrow> http_response result \<times> 'w"

definition send :: "string \<Rightarrow> string \<Rightarrow> 'w http_client \<Rightarrow> http_request \<Rightarrow> 'w \<Rightarrow> http_response result \<times> 'w" where
  "send wrapNew wrapDo C req w =
     (case NewRequest C (Url req) of
        Some e \<Rightarrow> (Inl (ErrWrap wrapNew e), w)
      | None \<Rightarrow>
          (case Client_Do C req w of
             (Inl e, w1) \<Rightarrow> (Inl (ErrWrap wrapDo e), w1)
           | (Inr r, w1) \<Rightarrow> (Inr r, w1)))"

text \<open>The value a header was last set to; \<open>''''\<close> when it is absent.\<close>

definition header_value :: "string \<Rightarrow> headers \<Rightarrow> string" where
  "header_value k h = (case map_of h k of Some v \<Rightarrow> v | None \<Rightarrow> '''')"

subsection \<open>Query strings\<close>

text \<open>\<open>url.Values\<close>: the values of each key in order.  \<open>Set\<close> replaces them, \<open>Encode\<close> writes
  the keys in order.\<close>

type_synonym url_values = "(string, string list) gomap"

definition values_Set :: "string \<Rightarrow> string \<Rightarrow> url_values \<Rightarrow> url_values" where
  "values_Set k v vs = AList.update k [v] vs"

definition values_pairs :: "url_values \<Rightarrow> (string \<times> string) list" where
  "values_pairs vs = concat (map (\<lambda>(k, xs). map (Pair k) xs) (sort_key fst vs))"

definition pair_text :: "string \<times> string \<Rightarrow> string" where
  "pair_text = (\<lambda>(k, v). QueryEscape k @ ''='' @ QueryEscape v)"

definition values_Encode :: "url_values \<Rightarrow> string" where
  "values_Encode vs = Join (map pair_text (values_pairs vs)) ''&''"

text \<open>What a server reads: the parts between \<open>&\<close>, each cut at its first \<open>=\<close>.\<close>

definition read_pair :: "string \<Rightarrow> string \<times> string" where
  "read_pair p =
     (case Index p ''='' of
        None \<Rightarrow> (unescape True p, '''')
      | Some i \<Rightarrow> (unescape True (take i p), unescape True (drop (i + 1) p)))"

definition read_query :: "string \<Rightarrow> (string \<times> string) list" where
  "read_query s = map read_pair (filter (\<lambda>p. p \<noteq> '''') (Split s ''&''))"

lemma escaped_chars: "c \<in> set (QueryEscape s) \<Longrightarrow> c \<noteq> CHR ''&'' \<and> c \<noteq> CHR ''=''"
  using QueryEscape_safe[of s] unreserved_not_special[of c] by (auto simp: list_all_iff query_safe_def)

lemma Index_char: "x \<notin> set a \<Longrightarrow> Index (a @ x # b) [x] = Some (length a)"
  by (induction a) auto

lemma read_pair_text: "read_pair (pair_text kv) = kv"
proof -
  have "CHR ''='' \<notin> set (QueryEscape (fst kv))" using escaped_chars by blast
  from Index_char[OF this] show ?thesis
    by (simp add: read_pair_def pair_text_def split_def unescape_QueryEscape)
qed

lemma pair_text_amp: "CHR ''&'' \<notin> set (pair_text kv)"
  using escaped_chars by (auto simp: pair_text_def split_def)

lemma Split_Join_char:
  assumes "ps \<noteq> []" "\<forall>p \<in> set ps. x \<notin> set p"
  shows "Split (Join ps [x]) [x] = ps"
  using assms
proof (induction ps)
  case (Cons p ps)
  then show ?case
  proof (cases ps)
    case Nil
    with Cons.prems have "Index p [x] = None" by (auto simp: Index_None_iff sublist_def)
    with Nil show ?thesis by (simp add: Split.simps[of p])
  next
    case (Cons q qs)
    with Cons.prems have "Index (p @ x # Join ps [x]) [x] = Some (length p)" by (intro Index_char) simp
    moreover have "Join (p # ps) [x] = p @ x # Join ps [x]" using Cons by simp
    ultimately show ?thesis using Cons.IH Cons.prems Cons by (subst Split.simps) simp
  qed
qed simp

text \<open>The receiving side reads back exactly the pairs that were encoded.\<close>

lemma read_encoded: "read_query (Join (map pair_text kvs) ''&'') = kvs"
proof (cases "kvs = []")
  case True
  then show ?thesis by (simp add: read_query_def Split.simps[of "[]"])
next
  case False
  have "Split (Join (map pair_text kvs) ''&'') ''&'' = map pair_text kvs"
    using False pair_text_amp by (intro Split_Join_char) auto
  moreover have "pair_text kv \<noteq> ''''" for kv by (simp add: pair_text_def split_def)
  ultimately show ?thesis by (simp add: read_query_def read_pair_text comp_def filter_id_conv)
qed

lemma read_values_Encode: "read_query (values_Encode vs) = values_pairs vs"
  by (simp add: values_Encode_def read_encoded)

lemma Encode_pairs: "Encode vs = Join (map pair_text (sort_key fst vs)) ''&''"
  by (simp add: Encode_def pair_text_def)

lemma read_Encode: "read_query (Encode vs) = sort_key fst vs"
  by (simp add: Encode_pairs read_encoded)

lemma values_pairs_iff:
  "distinct (map fst vs) \<Longrightarrow>
   (k, x) \<in> set (values_pairs vs) \<longleftrightarrow> (case map_of vs k of Some xs \<Rightarrow> x \<in> set xs | None \<Rightarrow> False)"
  by (auto simp: values_pairs_def map_of_eq_None_iff image_iff split: option.splits
      dest: map_of_SomeD eq_key_imp_eq_value)

lemma values_Set_map_of [simp]: "map_of (values_Set k v vs) = (map_of vs)(k \<mapsto> [v])"
  by (simp add: values_Set_def update_conv')

lemma values_Set_distinct [simp]: "distinct (map fst vs) \<Longrightarrow> distinct (map fst (values_Set k v vs))"
  by (simp add: values_Set_def distinct_update)

subsection \<open>Padded base64\<close>

text \<open>\<open>base64.StdEncoding.DecodeString\<close>: line breaks are skipped, the length is a multiple of
  four, and only the last group may end in one or two \<open>=\<close>.\<close>

definition strip_pad :: "string \<Rightarrow> string" where
  "strip_pad s =
     (if HasSuffix s ''=='' then take (length s - 2) s
      else if HasSuffix s ''='' then take (length s - 1) s else s)"

definition StdDecode :: "string \<Rightarrow> string option" where
  "StdDecode s =
     (let t = filter (\<lambda>c. byte c \<noteq> 10 \<and> byte c \<noteq> 13) s
      in if length t mod 4 \<noteq> 0 then None
         else case opt_list (map (b64_val b64_std) (strip_pad t)) of
           Some vs \<Rightarrow> b64_groups vs
         | None \<Rightarrow> None)"


lemma mod4_cases: "(n::nat) mod 4 = 0 \<or> n mod 4 = 1 \<or> n mod 4 = 2 \<or> n mod 4 = 3"
  by linarith

lemma strip_pad_pad:
  assumes "CHR ''='' \<notin> set t" "length t mod 4 \<noteq> 1"
  shows "strip_pad (pad64 t) = t"
proof -
  consider "pad64 t = t" | "pad64 t = t @ ''=''" | "pad64 t = t @ ''==''"
    using assms(2) mod4_cases[of "length t"] by (auto simp: pad64_def numeral_2_eq_2)
  moreover have "\<not> suffix ''=='' t" "\<not> suffix ''='' t"
    using assms(1) by (auto dest!: set_mono_suffix)
  moreover from this(2) have "\<not> suffix ''=='' (t @ ''='')"
    using suffix_snoc[of "''==''" t "CHR ''=''"] by (simp add: suffix_def)
  moreover have "suffix ''=='' (t @ ''=='')" "suffix ''='' (t @ ''='')" by (simp_all add: suffix_def)
  ultimately show ?thesis by cases (simp_all add: strip_pad_def HasSuffix_iff)
qed

lemma length_sextets: "length (sextets bs) mod 4 \<noteq> 1"
  by (induction bs rule: sextets.induct) (simp_all add: mod_Suc)

lemma pad64_length: "length (pad64 t) mod 4 = 0"
proof -
  have "(n + (4 - n mod 4) mod 4) mod 4 = (n mod 4 + (4 - n mod 4) mod 4) mod 4" for n :: nat
    by (simp add: mod_add_left_eq)
  then show ?thesis using mod4_cases[of "length t"] unfolding pad64_def by auto
qed

lemma StdDecode_StdEncoding: "StdDecode (StdEncoding s) = Some s"
proof -
  let ?t = "b64_encode b64_std (map byte s)"
  have nopad: "CHR ''='' \<notin> set ?t"
  proof
    assume "CHR ''='' \<in> set ?t"
    then obtain i where "i \<in> set (sextets (map byte s))" "b64_std ! i = CHR ''=''"
      by (auto simp: b64_encode_sextets)
    moreover from this(1) have "i < 64" using sextets_bound[of "map byte s"] by (auto simp: list_all_iff)
    ultimately have "CHR ''='' \<in> set b64_std" using b64_alphabet(2) nth_mem by (metis b64_ok_def)
    then show False by (simp add: b64_std_def)
  qed
  have "length ?t mod 4 \<noteq> 1" using length_sextets by (simp add: b64_encode_sextets)
  from strip_pad_pad[OF nopad this] have "strip_pad (StdEncoding s) = ?t" by (simp add: StdEncoding_def)
  moreover have "filter (\<lambda>c. byte c \<noteq> 10 \<and> byte c \<noteq> 13) (StdEncoding s) = StdEncoding s"
    using b64_encoded_reads(1)[OF b64_alphabet(2), of s] by (simp add: StdEncoding_def pad64_def)
  ultimately show ?thesis
    using b64_encoded_reads(2,3)[OF b64_alphabet(2), of s] pad64_length
    by (simp add: StdDecode_def Let_def StdEncoding_def)
qed

end
