(* ===== verification/Ws_Apis.thy ===== *)
theory Ws_Apis
  imports Http_Client Search_Runners
begin

text \<open>
  The engines of package \<open>websearch\<close> that are called over a plain HTTP client: the
  asynchronous Yandex API (\<open>yandex.go\<close>, \<open>yandex_poll.go\<close>, \<open>yandex_types.go\<close>),
  SearXNG (\<open>searxng.go\<close>), StackOverflow (\<open>stackoverflow.go\<close>) and arXiv
  (\<open>arxiv.go\<close>), and the wrappers of package \<open>search\<close> around them
  (\<open>search/yandex.go\<close>, \<open>search/searxng.go\<close>, \<open>search/brave_api.go\<close>).
\<close>

record 'w api_env =
  api_U :: unicode_tables
  api_tz :: duration
  api_now :: "'w \<Rightarrow> instant"

subsection \<open>Yandex: requests and operations\<close>

record YandexConfig =
  APIKey :: string
  FolderID :: string
  MonthlyLimit :: int

record yandexRequest =
  yr_searchType :: string
  yr_queryText :: string
  yr_familyMode :: string
  yr_sortMode :: string
  yr_sortOrder :: string
  yr_groupMode :: string
  yr_groupsOnPage :: string
  yr_docsInGroup :: string
  yr_maxPassages :: string
  yr_region :: string
  yr_l10N :: string
  yr_folderId :: string
  yr_page :: string

record yandexOperation =
  op_ID :: string
  op_Done :: bool
  op_Response :: string
  op_Error :: "(int \<times> string) option"

text \<open>The codecs of the package's JSON messages.\<close>

record yandex_codec =
  marshal_request :: "yandexRequest \<Rightarrow> string result"
  dec_operation :: "string \<Rightarrow> yandexOperation result"
  dec_rawData :: "string \<Rightarrow> string result"
  dec_json_string :: "string \<Rightarrow> string result"
  dec_xml :: "string \<Rightarrow> yandex_answer result"

definition yandexAsyncEndpoint :: string where
  "yandexAsyncEndpoint = ''https://searchapi.api.cloud.yandex.net/v2/web/searchAsync''"

definition yandexOpEndpoint :: string where
  "yandexOpEndpoint = ''https://operation.api.cloud.yandex.net/operations/''"

definition yandexPollInterval :: duration where
  "yandexPollInterval = 500 * 1000000"

definition yandexMaxPollWait :: duration where
  "yandexMaxPollWait = 10 * sec"

definition yandexDefaultRegion :: string where
  "yandexDefaultRegion = ''213''"

definition yandex_request :: "YandexConfig \<Rightarrow> string \<Rightarrow> string \<Rightarrow> yandexRequest" where
  "yandex_request cfg query region =
     \<lparr>yr_searchType = ''SEARCH_TYPE_RU'', yr_queryText = query, yr_familyMode = ''FAMILY_MODE_NONE'',
      yr_sortMode = ''SORT_MODE_BY_RELEVANCE'', yr_sortOrder = ''SORT_ORDER_DESC'',
      yr_groupMode = ''GROUP_MODE_DEEP'', yr_groupsOnPage = ''10'', yr_docsInGroup = ''1'',
      yr_maxPassages = ''2'', yr_region = region, yr_l10N = ''LOCALIZATION_RU'',
      yr_folderId = FolderID cfg, yr_page = ''0''\<rparr>"

definition yandex_auth :: "YandexConfig \<Rightarrow> string \<times> string" where
  "yandex_auth cfg = (''Authorization'', ''Api-Key '' @ APIKey cfg)"

definition yandexStartSearch ::
  "'w http_client \<Rightarrow> yandex_codec \<Rightarrow> YandexConfig \<Rightarrow> string \<Rightarrow> string \<Rightarrow> 'w \<Rightarrow> string result \<times> 'w" where
  "yandexStartSearch C K cfg query region w =
     (case marshal_request K (yandex_request cfg query region) of
        Inl e \<Rightarrow> (Inl (ErrWrap ''yandex marshal: '' e), w)
      | Inr body \<Rightarrow>
          let req = \<lparr>Method = ''POST'', Url = yandexAsyncEndpoint,
                     Headers = [yandex_auth cfg, (''Content-Type'', acceptJSON)], Body = Some body\<rparr>;
              (resp, w1) = send ''yandex new request: '' ''yandex http: '' C req w
          in (case resp of
                Inl e \<Rightarrow> Inl e
              | Inr r \<Rightarrow>
                  (case ReadAll r of
                     Inl e \<Rightarrow> Inl (ErrWrap ''yandex read body: '' e)
                   | Inr data \<Rightarrow>
                       if StatusCode r \<noteq> 200
                       then Inl (ErrNew (''yandex async HTTP '' @ Itoa (StatusCode r) @ '': '' @ data))
                       else case dec_operation K data of
                         Inl e \<Rightarrow> Inl (ErrWrap ''yandex json: '' e)
                       | Inr op \<Rightarrow>
                           if op_ID op = '''' then Inl (ErrNew ''yandex: empty operation id'')
                           else Inr (op_ID op)), w1))"

definition yandexFetchOperation ::
  "'w http_client \<Rightarrow> yandex_codec \<Rightarrow> YandexConfig \<Rightarrow> string \<Rightarrow> 'w \<Rightarrow> yandexOperation result \<times> 'w" where
  "yandexFetchOperation C K cfg opID w =
     (let (resp, w1) = send ''yandex poll request: '' ''yandex poll http: '' C
            (get (yandexOpEndpoint @ opID) [yandex_auth cfg]) w
      in (case resp of
            Inl e \<Rightarrow> Inl e
          | Inr r \<Rightarrow>
              (case ReadAll r of
                 Inl e \<Rightarrow> Inl (ErrWrap ''yandex poll read: '' e)
               | Inr data \<Rightarrow>
                   if StatusCode r \<noteq> 200
                   then Inl (ErrNew (''yandex poll HTTP '' @ Itoa (StatusCode r) @ '': '' @ data))
                   else case dec_operation K data of
                     Inl e \<Rightarrow> Inl (ErrWrap ''yandex poll json: '' e)
                   | Inr op \<Rightarrow>
                       (case op_Error op of
                          Some (code, msg) \<Rightarrow> Inl (ErrNew (''yandex error '' @ Itoa code @ '': '' @ msg))
                        | None \<Rightarrow> Inr op)), w1))"

text \<open>The XML of a finished operation: base64 in an object, a JSON string, or the raw bytes.
  The offset in the text of the base64 error is left out.\<close>

definition yandexExtractResponse :: "yandex_codec \<Rightarrow> yandexOperation \<Rightarrow> string result" where
  "yandexExtractResponse K op =
     (if op_Response op = '''' then Inl (ErrNew ''yandex: empty response in completed operation'')
      else
        (let direct = (case dec_json_string K (op_Response op) of Inr x \<Rightarrow> Inr x | Inl _ \<Rightarrow> Inr (op_Response op))
         in case dec_rawData K (op_Response op) of
              Inl _ \<Rightarrow> direct
            | Inr raw \<Rightarrow>
                if raw = '''' then direct
                else (case StdDecode raw of
                        Some d \<Rightarrow> Inr d
                      | None \<Rightarrow> Inl (ErrNew ''illegal base64 data''))))"

subsection \<open>Yandex: polling\<close>

text \<open>The loop of \<open>yandexPollOperation\<close>.  \<open>tick n\<close> is the \<open>select\<close> of round \<open>n\<close>: the
  context's error, or the ticker's next tick; a loop that never returns is \<open>None\<close>.  \<open>newTicker w\<close> is the ticker
  started in the world \<open>w\<close>.\<close>

partial_function (option) yandex_poll_loop ::
  "'w api_env \<Rightarrow> 'w http_client \<Rightarrow> yandex_codec \<Rightarrow> (nat \<Rightarrow> 'w wait) \<Rightarrow> YandexConfig \<Rightarrow> string \<Rightarrow> instant
   \<Rightarrow> nat \<Rightarrow> 'w \<Rightarrow> (string result \<times> 'w) option" where
  "yandex_poll_loop A C K tick cfg opID deadline n w =
     (case tick n w of
        (Some e, w1) \<Rightarrow> Some (Inl e, w1)
      | (None, w1) \<Rightarrow>
          if deadline < api_now A w1 then Some (Inl (ErrNew (''yandex: operation '' @ opID @ '' timed out'')), w1)
          else
            (case yandexFetchOperation C K cfg opID w1 of
               (Inl e, w2) \<Rightarrow> Some (Inl e, w2)
             | (Inr op, w2) \<Rightarrow>
                 if \<not> op_Done op then yandex_poll_loop A C K tick cfg opID deadline (Suc n) w2
                 else Some (yandexExtractResponse K op, w2)))"

definition yandexPollOperation ::
  "'w api_env \<Rightarrow> 'w http_client \<Rightarrow> yandex_codec \<Rightarrow> ('w \<Rightarrow> nat \<Rightarrow> 'w wait) \<Rightarrow> YandexConfig \<Rightarrow> string \<Rightarrow> 'w
   \<Rightarrow> (string result \<times> 'w) option" where
  "yandexPollOperation A C K newTicker cfg opID w =
     yandex_poll_loop A C K (newTicker w) cfg opID (api_now A w + yandexMaxPollWait) 0 w"

definition month_of :: "'w api_env \<Rightarrow> 'w \<Rightarrow> int" where
  "month_of A w = fst (snd (civil (day_of (api_tz A) (api_now A w))))"

text \<open>\<open>SearchYandexAPI\<close>; \<open>q\<close> is the package's monthly counter.\<close>

definition SearchYandexAPI ::
  "'w api_env \<Rightarrow> 'w http_client \<Rightarrow> yandex_codec \<Rightarrow> ('w \<Rightarrow> nat \<Rightarrow> 'w wait) \<Rightarrow> YandexConfig \<Rightarrow> string \<Rightarrow> string \<Rightarrow> string
   \<Rightarrow> quota \<Rightarrow> 'w \<Rightarrow> (Result list result \<times> quota \<times> 'w) option" where
  "SearchYandexAPI A C K newTicker cfg query region timeRange q w =
     (if APIKey cfg = '''' \<or> FolderID cfg = ''''
      then Some (Inl (ErrNew ''yandex: api key and folder_id required''), q, w)
      else
        let (ok, q1) = yandexCheckLimit (MonthlyLimit cfg) (month_of A w) q
        in if \<not> ok then Some (Inr [], q1, w)
           else
             let region = (if region = '''' then yandexDefaultRegion else region);
                 dateFilter = timeRangeToYandexDate (api_U A) (api_tz A) (api_now A w) timeRange;
                 query = (if dateFilter \<noteq> '''' then TrimSpace (query @ '' '' @ dateFilter) else query)
             in (case yandexStartSearch C K cfg query region w of
                   (Inl e, w1) \<Rightarrow> Some (Inl (ErrWrap ''yandex start: '' e), q1, w1)
                 | (Inr opID, w1) \<Rightarrow>
                     (case yandexPollOperation A C K newTicker cfg opID w1 of
                        None \<Rightarrow> None
                      | Some (Inl e, w2) \<Rightarrow> Some (Inl (ErrWrap ''yandex poll: '' e), q1, w2)
                      | Some (Inr xml, w2) \<Rightarrow>
                          Some (case ParseYandexXML (dec_xml K) xml of
                                  Inl e \<Rightarrow> Inl (ErrWrap ''yandex parse: '' e)
                                | Inr rs \<Rightarrow> Inr rs, q1, w2))))"

text \<open>The ticker's promise: its \<open>n\<close>-th tick comes no sooner than \<open>n\<close> intervals after it
  was started, however long the rounds before took.\<close>

definition ticker_law :: "'w api_env \<Rightarrow> ('w \<Rightarrow> nat \<Rightarrow> 'w wait) \<Rightarrow> bool" where
  "ticker_law A newTicker \<longleftrightarrow>
     (\<forall>w0 n w. fst (newTicker w0 n w) = None \<longrightarrow>
        api_now A w0 + int (Suc n) * yandexPollInterval \<le> api_now A (snd (newTicker w0 n w)))"

text \<open>Requests are counted by \<open>sent\<close>; waiting sends none.\<close>

definition counts_requests :: "'w http_client \<Rightarrow> ('w \<Rightarrow> nat \<Rightarrow> 'w wait) \<Rightarrow> ('w \<Rightarrow> nat) \<Rightarrow> bool" where
  "counts_requests C newTicker sent \<longleftrightarrow>
     (\<forall>req w. sent (snd (Client_Do C req w)) = Suc (sent w)) \<and> (\<forall>w0 n w. sent (snd (newTicker w0 n w)) = sent w)"

lemma send_count:
  "\<forall>req w. sent (snd (Client_Do C req w)) = Suc (sent w) \<Longrightarrow> sent (snd (send a b C req w)) \<le> Suc (sent w)"
  by (simp add: send_def le_SucI split: option.splits prod.splits sum.splits) (metis snd_conv order_refl)

lemma fetch_count:
  "counts_requests C tick sent \<Longrightarrow> sent (snd (yandexFetchOperation C K cfg opID w)) \<le> Suc (sent w)"
  using send_count[of sent C] by (simp add: yandexFetchOperation_def counts_requests_def split_def Let_def)

lemma poll_rounds:
  assumes "ticker_law A newTicker" "counts_requests C newTicker sent" "n + k = 20"
  shows "\<exists>r w'. yandex_poll_loop A C K (newTicker w0) cfg opID (api_now A w0 + yandexMaxPollWait) n w = Some (r, w')
    \<and> sent w' \<le> sent w + k"
  using assms(3)
proof (induction k arbitrary: n w)
  case 0
  have "fst (newTicker w0 20 w) = None \<Longrightarrow>
      api_now A w0 + yandexMaxPollWait < api_now A (snd (newTicker w0 20 w))"
    using assms(1)[unfolded ticker_law_def, rule_format, of w0 20 w]
    by (simp add: yandexPollInterval_def yandexMaxPollWait_def sec_def)
  moreover have "sent (snd (newTicker w0 20 w)) = sent w" using assms(2) by (simp add: counts_requests_def)
  ultimately show ?case using 0
    by (subst yandex_poll_loop.simps) (auto split: prod.splits option.splits)
next
  case (Suc k)
  let ?w1 = "snd (newTicker w0 n w)" let ?w2 = "snd (yandexFetchOperation C K cfg opID ?w1)"
  have t: "sent ?w1 = sent w" using assms(2) by (simp add: counts_requests_def)
  then have f: "sent ?w2 \<le> Suc (sent w)" using fetch_count[OF assms(2), of K cfg opID ?w1] by simp
  from Suc.prems have "Suc n + k = 20" by simp
  from Suc.IH[OF this, of ?w2] obtain r w' where
    "yandex_poll_loop A C K (newTicker w0) cfg opID (api_now A w0 + yandexMaxPollWait) (Suc n) ?w2 = Some (r, w')"
    "sent w' \<le> sent ?w2 + k" by blast
  with t f show ?case
    by (subst yandex_poll_loop.simps) (auto split: prod.splits option.splits sum.splits)
qed

lemma poll_bounded:
  assumes "ticker_law A newTicker" "counts_requests C newTicker sent"
  shows "\<exists>r w'. yandexPollOperation A C K newTicker cfg opID w = Some (r, w') \<and> sent w' \<le> sent w + 20"
  unfolding yandexPollOperation_def using poll_rounds[OF assms, of 0 20] by simp

lemma start_count:
  "counts_requests C newTicker sent \<Longrightarrow> sent (snd (yandexStartSearch C K cfg query region w)) \<le> Suc (sent w)"
  using send_count[of sent C]
  by (simp add: yandexStartSearch_def counts_requests_def split_def Let_def le_SucI split: sum.splits)

lemma yandex_returns_aux:
  assumes "ticker_law A newTicker" "counts_requests C newTicker sent"
  shows "\<exists>r q' w'. SearchYandexAPI A C K newTicker cfg query region timeRange q w = Some (r, q', w')
    \<and> sent w' \<le> sent w + 21"
proof -
  obtain ok q1 where q: "yandexCheckLimit (MonthlyLimit cfg) (month_of A w) q = (ok, q1)" by fastforce
  let ?q = "let d = timeRangeToYandexDate (api_U A) (api_tz A) (api_now A w) timeRange
    in if d \<noteq> '''' then TrimSpace (query @ '' '' @ d) else query"
  let ?r = "if region = '''' then yandexDefaultRegion else region"
  obtain s w1 where s: "yandexStartSearch C K cfg ?q ?r w = (s, w1)" by fastforce
  have n: "sent w1 \<le> Suc (sent w)" using start_count[OF assms(2), of K cfg ?q ?r w] s by simp
  show ?thesis
  proof (cases s)
    case (Inl e)
    then show ?thesis using q s n by (auto simp: SearchYandexAPI_def Let_def)
  next
    case (Inr opID)
    obtain r w' where "yandexPollOperation A C K newTicker cfg opID w1 = Some (r, w')" "sent w' \<le> sent w1 + 20"
      using poll_bounded[OF assms] by blast
    then show ?thesis using q s n Inr by (cases r) (auto simp: SearchYandexAPI_def Let_def)
  qed
qed

text \<open>C16: A Yandex search always returns, after at most 21 requests (one to start the operation
  and twenty polls in the ten seconds it is given), whatever the servers answer and however
  long the rounds take, provided only that the ticker keeps its period.\<close>

theorem yandex_search_returns:
  assumes "ticker_law A newTicker" "counts_requests C newTicker sent"
  shows "\<exists>r q' w'. SearchYandexAPI A C K newTicker cfg query region timeRange q w = Some (r, q', w')
    \<and> sent w' \<le> sent w + 21"
  by (rule yandex_returns_aux[OF assms])

text \<open>A world for evaluation: a clock and a request counter; every operation is unfinished.\<close>

definition lab_api :: "(int \<times> nat) api_env" where
  "lab_api = \<lparr>api_U = ascii_tables, api_tz = 0, api_now = fst\<rparr>"

definition lab_client :: "http_response \<Rightarrow> (int \<times> nat) http_client" where
  "lab_client r = \<lparr>NewRequest = (\<lambda>_. None), Client_Do = (\<lambda>_ (t, n). (Inr r, t, Suc n))\<rparr>"

definition lab_ticker :: "int \<times> nat \<Rightarrow> nat \<Rightarrow> (int \<times> nat) wait" where
  "lab_ticker w0 n w = (None, max (fst w) (fst w0 + int (Suc n) * yandexPollInterval), snd w)"

definition lab_codec :: "yandexOperation \<Rightarrow> yandex_codec" where
  "lab_codec op = \<lparr>marshal_request = Inr \<circ> yr_queryText, dec_operation = (\<lambda>_. Inr op),
     dec_rawData = (\<lambda>_. Inl (ErrNew '''')), dec_json_string = (\<lambda>_. Inl (ErrNew '''')),
     dec_xml = (\<lambda>_. Inr (YandexGroups []))\<rparr>"

definition ok_response :: "string \<Rightarrow> http_response" where
  "ok_response b = \<lparr>StatusCode = 200, Header = [], BodyBytes = b, BodyErr = None\<rparr>"

theorem yandex_search_returns_witness:
  "\<exists>r q' w'. SearchYandexAPI lab_api (lab_client (ok_response ''{}''))
      (lab_codec \<lparr>op_ID = ''op'', op_Done = False, op_Response = '''', op_Error = None\<rparr>) lab_ticker
      \<lparr>APIKey = ''k'', FolderID = ''f'', MonthlyLimit = 0\<rparr> ''go'' '''' '''' \<lparr>count = 0, period = 0\<rparr> (0, 0) = Some (r, q', w')
    \<and> snd w' \<le> snd (0::int, 0::nat) + 21"
proof (rule yandex_search_returns)
  show "ticker_law lab_api lab_ticker" by (simp add: ticker_law_def lab_ticker_def lab_api_def)
  show "counts_requests (lab_client (ok_response ''{}'')) lab_ticker snd"
    by (simp add: counts_requests_def lab_ticker_def lab_client_def)
qed

text \<open>Over its monthly limit, or without credentials, the engine sends nothing.\<close>

lemma yandex_gated:
  "APIKey cfg = '''' \<or> FolderID cfg = '''' \<Longrightarrow>
     SearchYandexAPI A C K newTicker cfg query region timeRange q w
       = Some (Inl (ErrNew ''yandex: api key and folder_id required''), q, w)"
  "APIKey cfg \<noteq> '''' \<Longrightarrow> FolderID cfg \<noteq> '''' \<Longrightarrow>
     yandexCheckLimit (MonthlyLimit cfg) (month_of A w) q = (False, q1) \<Longrightarrow>
     SearchYandexAPI A C K newTicker cfg query region timeRange q w = Some (Inr [], q1, w)"
  by (auto simp: SearchYandexAPI_def)

text \<open>The XML of a finished operation reaches the parser byte for byte in each of the three
  forms the API uses: base64 inside an object, a JSON string, or raw.\<close>

lemma yandex_response_forms:
  fixes xml :: string
  assumes "xml \<noteq> ''''"
  shows "op_Response op \<noteq> '''' \<Longrightarrow> dec_rawData K (op_Response op) = Inr (StdEncoding xml) \<Longrightarrow>
      yandexExtractResponse K op = Inr xml"
    and "op_Response op \<noteq> '''' \<Longrightarrow> dec_rawData K (op_Response op) = Inl e \<Longrightarrow>
      dec_json_string K (op_Response op) = Inr xml \<Longrightarrow> yandexExtractResponse K op = Inr xml"
    and "op_Response op = xml \<Longrightarrow> dec_rawData K xml = Inl e \<Longrightarrow> dec_json_string K xml = Inl e' \<Longrightarrow>
      yandexExtractResponse K op = Inr xml"
proof -
  have "StdEncoding xml \<noteq> ''''"
    using assms b64_encode_not_Nil[of "map byte xml" b64_std] by (simp add: StdEncoding_def pad64_def)
  then show "op_Response op \<noteq> '''' \<Longrightarrow> dec_rawData K (op_Response op) = Inr (StdEncoding xml) \<Longrightarrow>
      yandexExtractResponse K op = Inr xml"
    by (simp add: yandexExtractResponse_def StdDecode_StdEncoding)
qed (use assms in \<open>auto simp: yandexExtractResponse_def Let_def\<close>)

subsection \<open>SearXNG\<close>

record searxngRawResult =
  sx_Title :: string
  sx_URL :: string
  sx_Content :: string
  sx_Score :: real
  sx_Engines :: "string list"
  sx_Metadata :: string

text \<open>\<open>toResults\<close>: the metadata is decoded only when it is a JSON object; a failed decoding
  leaves what it had set so far, which \<open>dec_meta\<close> gives.\<close>

definition toResults :: "(string \<Rightarrow> (string, string) gomap) \<Rightarrow> searxngRawResult list \<Rightarrow> Result list" where
  "toResults dec_meta rs =
     map (\<lambda>sr. \<lparr>Title = sx_Title sr, URL = sx_URL sr, Content = sx_Content sr, Score = sx_Score sr,
                Metadata = (if sx_Metadata sr \<noteq> '''' \<and> hd (sx_Metadata sr) = CHR ''{''
                            then dec_meta (sx_Metadata sr) else [])\<rparr>) rs"

record 'w SearXNG =
  sx_baseURL :: string
  sx_client :: "'w http_client"
  sx_maxResults :: int

datatype 'w SearXNGOption = WithSearXNGHTTPClient "'w http_client" | WithSearXNGMaxResults int

primrec searxng_option :: "'w SearXNGOption \<Rightarrow> 'w SearXNG \<Rightarrow> 'w SearXNG" where
  "searxng_option (WithSearXNGHTTPClient c) s = s\<lparr>sx_client := c\<rparr>"
| "searxng_option (WithSearXNGMaxResults n) s = s\<lparr>sx_maxResults := n\<rparr>"

definition NewSearXNG :: "'w http_client \<Rightarrow> string \<Rightarrow> 'w SearXNGOption list \<Rightarrow> 'w SearXNG" where
  "NewSearXNG DefaultClient baseURL opts =
     fold searxng_option opts \<lparr>sx_baseURL = baseURL, sx_client = DefaultClient, sx_maxResults = 0\<rparr>"

text \<open>A parsed address: what stands before the query, the query's values, and the fragment
  with its mark.\<close>

record parsed_url =
  url_front :: string
  url_Query :: url_values
  url_back :: string

definition url_String :: "parsed_url \<Rightarrow> string" where
  "url_String u =
     (let q = values_Encode (url_Query u)
      in url_front u @ (if q \<noteq> '''' then ''?'' @ q else '''') @ url_back u)"

definition set_if :: "bool \<Rightarrow> string \<Rightarrow> string \<Rightarrow> url_values \<Rightarrow> url_values" where
  "set_if b k v vs = (if b then values_Set k v vs else vs)"

definition searxng_values :: "string \<Rightarrow> string \<Rightarrow> string \<Rightarrow> string \<Rightarrow> string \<Rightarrow> url_values \<Rightarrow> url_values" where
  "searxng_values query language timeRange engines categories vs =
     set_if (categories \<noteq> '''') ''categories'' categories
       (set_if (engines \<noteq> '''') ''engines'' engines
         (set_if (timeRange \<noteq> '''') ''time_range'' timeRange
           (set_if (language \<noteq> '''' \<and> language \<noteq> ''all'') ''language'' language
             (values_Set ''format'' ''json'' (values_Set ''q'' query vs)))))"

record searxng_codec =
  parse_url :: "string \<Rightarrow> parsed_url result"
  dec_searxng :: "string result \<Rightarrow> searxngRawResult list result"
  dec_metadata :: "string \<Rightarrow> (string, string) gomap"

text \<open>\<open>SearchAdvanced\<close>.  The decoder reads the body itself, so it is given what reading
  answers; the body of an error answer is read as far as it goes.\<close>

definition searxng_answer :: "searxng_codec \<Rightarrow> http_response \<Rightarrow> Result list result" where
  "searxng_answer K r =
     (if StatusCode r \<noteq> 200
      then Inl (ErrNew (''searxng HTTP '' @ Itoa (StatusCode r) @ '': ''
        @ BodyBytes r))
      else case dec_searxng K (ReadAll r) of
        Inl e \<Rightarrow> Inl (ErrWrap ''searxng json: '' e)
      | Inr rs \<Rightarrow> Inr (toResults (dec_metadata K) rs))"

definition SearchAdvanced ::
  "searxng_codec \<Rightarrow> 'w SearXNG \<Rightarrow> string \<Rightarrow> string \<Rightarrow> string \<Rightarrow> string \<Rightarrow> string \<Rightarrow> 'w
   \<Rightarrow> Result list result \<times> 'w" where
  "SearchAdvanced K s query language timeRange engines categories w =
     (case parse_url K (sx_baseURL s @ ''/search'') of
        Inl e \<Rightarrow> (Inl (ErrWrap ''searxng: '' e), w)
      | Inr u \<Rightarrow>
          let u = u\<lparr>url_Query := searxng_values query language timeRange engines categories (url_Query u)\<rparr>;
              (resp, w1) = send ''searxng request: '' ''searxng http: '' (sx_client s)
                (get (url_String u) [(''X-Forwarded-For'', ''127.0.0.1'')]) w
          in (case resp of Inl e \<Rightarrow> Inl e | Inr r \<Rightarrow> searxng_answer K r, w1))"

definition SearXNG_Search :: "searxng_codec \<Rightarrow> 'w SearXNG \<Rightarrow> 'w search" where
  "SearXNG_Search K s query opts w =
     (case SearchAdvanced K s query (Language opts) (TimeRange opts) (Engines opts) '''' w of
        (Inl e, w1) \<Rightarrow> (Inl e, w1)
      | (Inr rs, w1) \<Rightarrow> (Inr (applyLimit rs (if Limit opts = 0 then sx_maxResults s else Limit opts)), w1))"

text \<open>The instance receives exactly the caller's query: the pairs it reads from the address
  hold the query under \<open>q\<close> and no other, JSON as the format, and each filter if and only if
  it was asked for, whatever characters the caller's text has, where the configured base
  address has no such parameter of its own.\<close>

theorem searxng_request_params:
  fixes base :: url_values and query language timeRange engines categories x :: string
  assumes "distinct (map fst base)" "map_of base ''language'' = None" "map_of base ''time_range'' = None"
    and "map_of base ''engines'' = None" "map_of base ''categories'' = None"
  defines "seen \<equiv> set (read_query (values_Encode (searxng_values query language timeRange engines categories base)))"
  shows "((''q'', x) \<in> seen \<longleftrightarrow> x = query)
    \<and> ((''format'', x) \<in> seen \<longleftrightarrow> x = ''json'')
    \<and> ((''language'', x) \<in> seen \<longleftrightarrow> x = language \<and> language \<noteq> '''' \<and> language \<noteq> ''all'')
    \<and> ((''time_range'', x) \<in> seen \<longleftrightarrow> x = timeRange \<and> timeRange \<noteq> '''')
    \<and> ((''engines'', x) \<in> seen \<longleftrightarrow> x = engines \<and> engines \<noteq> '''')
    \<and> ((''categories'', x) \<in> seen \<longleftrightarrow> x = categories \<and> categories \<noteq> '''')"
proof -
  let ?vs = "searxng_values query language timeRange engines categories base"
  have "distinct (map fst ?vs)" using assms(1) by (simp add: searxng_values_def set_if_def)
  then have *: "(k, y) \<in> seen \<longleftrightarrow> (case map_of ?vs k of Some xs \<Rightarrow> y \<in> set xs | None \<Rightarrow> False)" for k y
    unfolding seen_def read_values_Encode by (rule values_pairs_iff)
  show ?thesis unfolding * searxng_values_def set_if_def using assms(2-5) by simp
qed

theorem searxng_request_params_witness:
  "(''q'', ''a&b=c'') \<in> set (read_query (values_Encode (searxng_values ''a&b=c'' '''' '''' '''' '''' [])))"
  using searxng_request_params[of "[]" "''a&b=c''" "''a&b=c''" "''''" "''''" "''''" "''''"] by simp

subsection \<open>StackOverflow and arXiv\<close>

record 'w api_client =
  ap_baseURL :: string
  ap_client :: "'w http_client"

datatype 'w ApiOption = WithBaseURL string | WithClient "'w http_client"

primrec api_option :: "'w ApiOption \<Rightarrow> 'w api_client \<Rightarrow> 'w api_client" where
  "api_option (WithBaseURL u) a = a\<lparr>ap_baseURL := u\<rparr>"
| "api_option (WithClient c) a = a\<lparr>ap_client := c\<rparr>"

definition NewStackOverflow :: "'w http_client \<Rightarrow> 'w ApiOption list \<Rightarrow> 'w api_client" where
  "NewStackOverflow fresh opts =
     fold api_option opts \<lparr>ap_baseURL = ''https://api.stackexchange.com/2.3'', ap_client = fresh\<rparr>"

definition NewArxiv :: "'w http_client \<Rightarrow> 'w ApiOption list \<Rightarrow> 'w api_client" where
  "NewArxiv fresh opts =
     fold api_option opts \<lparr>ap_baseURL = ''http://export.arxiv.org'', ap_client = fresh\<rparr>"

text \<open>\<open>soReadBody\<close>: \<open>gunzip\<close> opens a gzip reader on the body and answers what reading it gives.\<close>

definition soReadBody :: "(string result \<Rightarrow> string result result) \<Rightarrow> http_response \<Rightarrow> string result" where
  "soReadBody gunzip r =
     (if header_value ''Content-Encoding'' (Header r) = ''gzip''
      then (case gunzip (ReadAll r) of Inl e \<Rightarrow> Inl (ErrWrap ''gzip open: '' e) | Inr d \<Rightarrow> d)
      else ReadAll r)"

text \<open>The day of the year, from 1.\<close>

definition leap_year :: "int \<Rightarrow> bool" where
  "leap_year y \<longleftrightarrow> y mod 4 = 0 \<and> (y mod 100 \<noteq> 0 \<or> y mod 400 = 0)"

definition year_day :: "int \<Rightarrow> int" where
  "year_day z =
     (let (y, m, d) = civil z
      in [0, 31, 59, 90, 120, 151, 181, 212, 243, 273, 304, 334] ! nat (m - 1) + d
         + (if m > 2 \<and> leap_year y then 1 else 0))"

definition limit_or_10 :: "SearchOpts \<Rightarrow> int" where
  "limit_or_10 opts = (if Limit opts \<le> 0 then 10 else Limit opts)"

definition api_answer ::
  "string \<Rightarrow> (http_response \<Rightarrow> string result) \<Rightarrow> (string \<Rightarrow> Result list result) \<Rightarrow> int \<Rightarrow> http_response
   \<Rightarrow> Result list result" where
  "api_answer eng readBody parse n r =
     (if StatusCode r \<noteq> 200 then Inl (ErrNew (eng @ '': status '' @ Itoa (StatusCode r)))
      else case readBody r of
        Inl e \<Rightarrow> Inl (ErrWrap (eng @ '': read body: '') e)
      | Inr body \<Rightarrow>
          (case parse body of
             Inl e \<Rightarrow> Inl (ErrWrap (eng @ '': '') e)
           | Inr rs \<Rightarrow> Inr (applyLimit rs n)))"

definition so_params :: "string \<Rightarrow> int \<Rightarrow> (string \<times> string) list" where
  "so_params query n =
     [(''q'', query), (''site'', ''stackoverflow''), (''order'', ''desc''), (''sort'', ''relevance''),
      (''pagesize'', Itoa n), (''filter'', ''withbody'')]"

definition StackOverflow_Search ::
  "'w api_env \<Rightarrow> (string result \<Rightarrow> string result result) \<Rightarrow> (string \<Rightarrow> soItem list result) \<Rightarrow> 'w api_client
   \<Rightarrow> string \<Rightarrow> SearchOpts \<Rightarrow> quota \<Rightarrow> 'w \<Rightarrow> Result list result \<times> quota \<times> 'w" where
  "StackOverflow_Search A gunzip dec so query opts q w =
     (let (ok, q1) = soCheckLimit (year_day (day_of 0 (api_now A w))) q
      in if \<not> ok then (Inr [], q1, w)
         else
           let n = limit_or_10 opts;
               u = ap_baseURL so @ ''/search/advanced?'' @ Encode (so_params query n);
               (resp, w1) = send ''stackoverflow: build request: '' ''stackoverflow: request: '' (ap_client so) (get u []) w
           in (case resp of
                 Inl e \<Rightarrow> Inl e
               | Inr r \<Rightarrow> api_answer ''stackoverflow'' (soReadBody gunzip) (ParseStackOverflowJSON dec) n r, q1, w1))"

definition Arxiv_Search :: "(string \<Rightarrow> arxivEntry list result) \<Rightarrow> 'w api_client \<Rightarrow> 'w search" where
  "Arxiv_Search dec a query opts w =
     (let n = limit_or_10 opts;
          u = ap_baseURL a @ ''/api/query?search_query=all:'' @ QueryEscape query
            @ ''&max_results='' @ Itoa n @ ''&sortBy=relevance'';
          (resp, w1) = send ''arxiv: build request: '' ''arxiv: request: '' (ap_client a) (get u []) w
      in (case resp of
            Inl e \<Rightarrow> Inl e
          | Inr r \<Rightarrow> api_answer ''arxiv'' ReadAll (ParseArxivAtom dec) n r, w1))"

lemma api_answer_limited:
  "api_answer eng rd p n r = Inr rs \<Longrightarrow> n > 0 \<Longrightarrow> int (length rs) \<le> n"
  by (auto simp: api_answer_def applyLimit_bound split: if_splits sum.splits)

text \<open>Both engines never answer more results than asked for, ten when the caller did not say.\<close>

lemma limit_or_10_pos: "limit_or_10 opts > 0"
  by (simp add: limit_or_10_def)

lemma api_engines_limited:
  "Arxiv_Search dec a query opts w = (Inr rs, w') \<Longrightarrow> int (length rs) \<le> limit_or_10 opts"
  "StackOverflow_Search A gunzip sdec so query opts q w = (Inr rs, q', w'') \<Longrightarrow> int (length rs) \<le> limit_or_10 opts"
  using limit_or_10_pos[of opts]
  by (auto simp: Arxiv_Search_def StackOverflow_Search_def Let_def split_def split: if_splits sum.splits
      dest!: api_answer_limited)

subsection \<open>Wrappers of package search\<close>

text \<open>\<open>m\<close> is the metrics registry: nil, or its increment.\<close>

definition incr :: "(string \<Rightarrow> 'w \<Rightarrow> 'w) option \<Rightarrow> string \<Rightarrow> 'w \<Rightarrow> 'w" where
  "incr m name w = (case m of None \<Rightarrow> w | Some f \<Rightarrow> f name w)"

definition search_SearchYandexAPI where
  "search_SearchYandexAPI m A C K newTicker cfg query region timeRange q w =
     SearchYandexAPI A C K newTicker
       \<lparr>APIKey = APIKey cfg, FolderID = FolderID cfg, MonthlyLimit = MonthlyLimit cfg\<rparr>
       query region timeRange q (incr m ''yandex_requests'' w)"

record 'w searxngConfig =
  sc_httpClient :: "'w http_client option"
  sc_metrics :: "(string \<Rightarrow> 'w \<Rightarrow> 'w) option"

datatype 'w search_SearXNGOption =
    WithHTTPClient "'w http_client option" | WithMetrics "(string \<Rightarrow> 'w \<Rightarrow> 'w) option"

primrec search_searxng_option :: "'w search_SearXNGOption \<Rightarrow> 'w searxngConfig \<Rightarrow> 'w searxngConfig" where
  "search_searxng_option (WithHTTPClient c) cfg = cfg\<lparr>sc_httpClient := c\<rparr>"
| "search_searxng_option (WithMetrics m) cfg = cfg\<lparr>sc_metrics := m\<rparr>"

text \<open>The client of package \<open>search\<close>: the inner engine and the registry.\<close>

definition search_NewSearXNG ::
  "'w http_client \<Rightarrow> string \<Rightarrow> 'w search_SearXNGOption list \<Rightarrow> 'w SearXNG \<times> (string \<Rightarrow> 'w \<Rightarrow> 'w) option" where
  "search_NewSearXNG DefaultClient baseURL opts =
     (let cfg = fold search_searxng_option opts \<lparr>sc_httpClient = None, sc_metrics = None\<rparr>;
          wsOpts = (case sc_httpClient cfg of None \<Rightarrow> [] | Some c \<Rightarrow> [WithSearXNGHTTPClient c])
      in (NewSearXNG DefaultClient baseURL wsOpts, sc_metrics cfg))"

record Query =
  qText :: string
  qLimit :: int
  qTimeRange :: string
  qLanguage :: string
  qExtra :: "(string, string) gomap"

definition extra :: "Query \<Rightarrow> string \<Rightarrow> string" where
  "extra q k = (case map_of (qExtra q) k of Some v \<Rightarrow> v | None \<Rightarrow> '''')"

definition SearchQuery ::
  "searxng_codec \<Rightarrow> (string \<Rightarrow> 'w \<Rightarrow> 'w) option \<Rightarrow> 'w SearXNG \<Rightarrow> Query \<Rightarrow> 'w \<Rightarrow> Result list result \<times> 'w" where
  "SearchQuery K m s q w =
     SearchAdvanced K s (qText q) (qLanguage q) (qTimeRange q) (extra q ''engines'') (extra q ''categories'')
       (incr m ''search_requests_total'' w)"

definition search_SearXNG_Search where
  "search_SearXNG_Search K m s query language timeRange engines w =
     SearchAdvanced K s query language timeRange engines '''' (incr m ''search_requests_total'' w)"

text \<open>The limit of a query is documented as the maximum number of results; SearXNG ignores it.\<close>

lemma searxng_ignores_limit: "SearchQuery K m s (q\<lparr>qLimit := n\<rparr>) w = SearchQuery K m s q w"
  by (simp add: SearchQuery_def extra_def)

subsection \<open>The Brave API\<close>

record braveAPIResult =
  ba_Title :: string
  ba_URL :: string
  ba_Description :: string

definition braveAPIEndpoint :: string where
  "braveAPIEndpoint = ''https://api.search.brave.com/res/v1/web/search''"

definition braveAPIFetch :: "'w http_client \<Rightarrow> string \<Rightarrow> headers \<Rightarrow> 'w \<Rightarrow> string result \<times> 'w" where
  "braveAPIFetch C reqURL h w =
     (case NewRequest C reqURL of
        Some e \<Rightarrow> (Inl e, w)
      | None \<Rightarrow>
          (case Client_Do C (get reqURL h) w of
             (Inl e, w1) \<Rightarrow> (Inl e, w1)
           | (Inr r, w1) \<Rightarrow>
               (if StatusCode r = 429 then Inl (ErrNew ''brave_api 429 rate limited'')
                else if StatusCode r \<noteq> 200 then Inl (ErrNew (''brave_api HTTP '' @ Itoa (StatusCode r)))
                else ReadAll r, w1)))"

definition brave_api_item :: "braveAPIResult \<Rightarrow> Result option" where
  "brave_api_item r =
     (if ba_URL r = '''' \<or> ba_Title r = '''' then None
      else Some \<lparr>Title = ba_Title r, URL = ba_URL r, Content = TrimSpace (ba_Description r), Score = 1 / 2,
                 Metadata = [(''engine'', ''brave_api'')]\<rparr>)"

definition incrSourceResult :: "(string \<Rightarrow> 'w \<Rightarrow> 'w) option \<Rightarrow> string \<Rightarrow> string \<Rightarrow> 'w \<Rightarrow> 'w" where
  "incrSourceResult m source outcome =
     incr m (''source_result_total{source='' @ source @ '',outcome='' @ outcome @ ''}'')"

definition SearchBraveAPI ::
  "'w wait \<Rightarrow> 'w http_client \<Rightarrow> (string \<Rightarrow> braveAPIResult list result) \<Rightarrow> (string \<Rightarrow> 'w \<Rightarrow> 'w) option
   \<Rightarrow> string \<Rightarrow> string \<Rightarrow> 'w \<Rightarrow> Result list \<times> 'w" where
  "SearchBraveAPI limiter C dec m apiKey query w =
     (if apiKey = '''' then ([], w)
      else case limiter w of
        (Some _, w1) \<Rightarrow> ([], incrSourceResult m ''brave_api'' ''fail'' w1)
      | (None, w1) \<Rightarrow>
          let reqURL = braveAPIEndpoint @ ''?'' @ Encode [(''q'', query), (''count'', ''10'')];
              h = [(''X-Subscription-Token'', apiKey), (''Accept'', ''application/json'')]
          in (case braveAPIFetch C reqURL h w1 of
                (Inl _, w2) \<Rightarrow> ([], incrSourceResult m ''brave_api'' ''fail'' w2)
              | (Inr body, w2) \<Rightarrow>
                  (case dec body of
                     Inl _ \<Rightarrow> ([], incrSourceResult m ''brave_api'' ''fail'' w2)
                   | Inr items \<Rightarrow>
                       let results = List.map_filter brave_api_item items
                       in (results, incrSourceResult m ''brave_api'' (if results = [] then ''fail'' else ''ok'') w2))))"

text \<open>With a key, exactly one outcome is counted per call, and it is \<open>ok\<close> exactly when
  results are returned.  Events are recorded by a registry that appends them.\<close>

definition log_metric :: "string \<Rightarrow> string list \<times> 'v \<Rightarrow> string list \<times> 'v" where
  "log_metric name w = (fst w @ [name], snd w)"

definition silent :: "(string list \<times> 'v) wait \<Rightarrow> (string list \<times> 'v) http_client \<Rightarrow> bool" where
  "silent limiter C \<longleftrightarrow> (\<forall>w. fst (snd (limiter w)) = fst w) \<and> (\<forall>req w. fst (snd (Client_Do C req w)) = fst w)"

definition brave_outcome :: "bool \<Rightarrow> string" where
  "brave_outcome ok = (if ok then ''source_result_total{source=brave_api,outcome=ok}''
                       else ''source_result_total{source=brave_api,outcome=fail}'')"

lemma brave_fetch_silent: "silent limiter C \<Longrightarrow> fst (snd (braveAPIFetch C u h w)) = fst w"
proof -
  assume "silent limiter C"
  then have "fst (snd (Client_Do C (get u h) w)) = fst w" by (cases w) (simp add: silent_def)
  then show ?thesis by (auto simp: braveAPIFetch_def split: option.splits prod.splits sum.splits)
qed

lemma log_outcome:
  "fst (incrSourceResult (Some log_metric) ''brave_api'' (if ok then ''ok'' else ''fail'') w) = fst w @ [brave_outcome ok]"
  by (simp add: incrSourceResult_def incr_def log_metric_def brave_outcome_def)

lemma brave_api_counted:
  assumes "silent limiter C" "apiKey \<noteq> ''''"
    and "SearchBraveAPI limiter C dec (Some log_metric) apiKey query w = (rs, w')"
  shows "fst w' = fst w @ [brave_outcome (rs \<noteq> [])]"
proof -
  let ?u = "braveAPIEndpoint @ ''?'' @ Encode [(''q'', query), (''count'', ''10'')]"
  let ?h = "[(''X-Subscription-Token'', apiKey), (''Accept'', ''application/json'')]"
  note out = log_outcome[where ok = True, simplified if_True] log_outcome[where ok = False, simplified if_False]
  obtain l w1 where l: "limiter w = (l, w1)" by (rule prod.exhaust)
  have "fst (snd (limiter w)) = fst w" using assms(1) unfolding silent_def by blast
  with l have w1: "fst w1 = fst w" by simp
  obtain b w2 where b: "braveAPIFetch C ?u ?h w1 = (b, w2)" by (rule prod.exhaust)
  with w1 have w2: "fst w2 = fst w" using brave_fetch_silent[OF assms(1), of ?u ?h w1] by simp
  show ?thesis
  proof (cases l)
    case Some
    then show ?thesis using assms(2,3) l w1 by (auto simp: SearchBraveAPI_def out)
  next
    case None
    then show ?thesis
      using assms(2,3) l b w2
      by (cases b) (auto simp: SearchBraveAPI_def Let_def out split: sum.splits)
  qed
qed

end
