(* ===== verification/Mutex_Collect.thy ===== *)
theory Mutex_Collect
  imports Work_System "HOL-Library.Multiset"
begin

text \<open>
  A pattern the engine uses twice: a \<open>sync.WaitGroup\<close> of goroutines that share the world, each
  appending what it found to one list under a mutex, and a caller that reads the list after
  \<open>wg.Wait\<close>.  A run is a sequence of steps: a goroutine finishing its work, or a goroutine
  appending.  The group is a work system, and the list is the goroutines' findings, whole, in
  the order in which they took the lock.
\<close>

subsection \<open>Runs\<close>

text \<open>A goroutine's work: \<open>None\<close> when it never returns, else what it appends.\<close>

type_synonym ('w, 'a) job = "'w \<Rightarrow> ('a list \<times> 'w) option"

datatype 'a job_state = Searching | Found "'a list" | Appended "'a list"

record ('w, 'a) direct_run =
  dr_world :: 'w
  dr_jobs :: "'a job_state list"
  dr_all :: "'a list"
  dr_order :: "nat list"

text \<open>\<open>dr_order\<close> only records in which order the mutex was taken.\<close>

definition dr_init :: "('w, 'a) job list \<Rightarrow> 'w \<Rightarrow> ('w, 'a) direct_run" where
  "dr_init js w = \<lparr>dr_world = w, dr_jobs = replicate (length js) Searching, dr_all = [], dr_order = []\<rparr>"

inductive dr_step :: "('w, 'a) job list \<Rightarrow> ('w, 'a) direct_run \<Rightarrow> ('w, 'a) direct_run \<Rightarrow> bool" for js where
  finish: "i < length (dr_jobs s) \<Longrightarrow> dr_jobs s ! i = Searching \<Longrightarrow> (js ! i) (dr_world s) = Some (r, w') \<Longrightarrow>
    dr_step js s (s\<lparr>dr_world := w', dr_jobs := (dr_jobs s)[i := Found r]\<rparr>)"
| collect: "i < length (dr_jobs s) \<Longrightarrow> dr_jobs s ! i = Found r \<Longrightarrow>
    dr_step js s (s\<lparr>dr_jobs := (dr_jobs s)[i := Appended r], dr_all := dr_all s @ r,
                    dr_order := dr_order s @ [i]\<rparr>)"

inductive_cases dr_stepE: "dr_step js s t"

primrec appended :: "'a job_state \<Rightarrow> bool" where
  "appended Searching = False"
| "appended (Found r) = False"
| "appended (Appended r) = True"

primrec job_answer :: "'a job_state \<Rightarrow> 'a list" where
  "job_answer Searching = []"
| "job_answer (Found r) = r"
| "job_answer (Appended r) = r"

primrec job_work :: "'a job_state \<Rightarrow> nat" where
  "job_work Searching = 2"
| "job_work (Found r) = 1"
| "job_work (Appended r) = 0"

text \<open>\<open>wg.Wait\<close> returns.\<close>

definition dr_final :: "('w, 'a) direct_run \<Rightarrow> bool" where
  "dr_final s \<longleftrightarrow> list_all appended (dr_jobs s)"

definition dr_work :: "('w, 'a) direct_run \<Rightarrow> nat" where
  "dr_work s = sum_list (map job_work (dr_jobs s))"

text \<open>Every job returns from every world.\<close>

definition returns :: "('w, 'a) job list \<Rightarrow> bool" where
  "returns js \<longleftrightarrow> (\<forall>j \<in> set js. \<forall>w. \<exists>r w'. j w = Some (r, w'))"

definition dr_inv :: "('w, 'a) job list \<Rightarrow> ('w, 'a) direct_run \<Rightarrow> bool" where
  "dr_inv js s \<longleftrightarrow>
     length (dr_jobs s) = length js \<and> distinct (dr_order s)
     \<and> set (dr_order s) = {i. i < length js \<and> appended (dr_jobs s ! i)}
     \<and> dr_all s = concat (map (\<lambda>i. job_answer (dr_jobs s ! i)) (dr_order s))
     \<and> (\<forall>i < length js. dr_jobs s ! i \<noteq> Searching \<longrightarrow> (\<exists>w w'. (js ! i) w = Some (job_answer (dr_jobs s ! i), w')))"

subsection \<open>Correctness of the run\<close>

lemma dr_inv_init: "dr_inv js (dr_init js w)"
  by (simp add: dr_inv_def dr_init_def)

lemma map_if_other: "i \<notin> set ks \<Longrightarrow> map (\<lambda>k. f (if i = k then x else g k)) ks = map (\<lambda>k. f (g k)) ks"
  by (induction ks) auto

lemma dr_inv_step:
  assumes "dr_inv js s" "dr_step js s t"
  shows "dr_inv js t"
  using assms(2)
proof (cases rule: dr_step.cases)
  case (finish i r w')
  have "i \<notin> set (dr_order s)" using assms(1) finish by (simp add: dr_inv_def)
  note same = map_if_other[OF this, where f = job_answer]
  from assms(1) finish show ?thesis by (auto simp: dr_inv_def nth_list_update same)
next
  case (collect i r)
  have i: "i \<notin> set (dr_order s)" using assms(1) collect by (simp add: dr_inv_def)
  note same = map_if_other[OF i, where f = job_answer]
  have "\<exists>w w'. (js ! i) w = Some (r, w')" using assms(1) collect by (force simp: dr_inv_def)
  with assms(1) collect i show ?thesis by (auto simp: dr_inv_def nth_list_update same)
qed

lemma dr_work_step:
  assumes "dr_step js s t"
  shows "Suc (dr_work t) = dr_work s"
  using assms
proof (cases rule: dr_step.cases)
  case (finish i r w')
  then show ?thesis using sum_list_update_nat[of i "dr_jobs s" job_work "Found r"] by (simp add: dr_work_def)
next
  case (collect i r)
  then show ?thesis using sum_list_update_nat[of i "dr_jobs s" job_work "Appended r"] by (simp add: dr_work_def)
qed

lemma dr_final_work: "dr_final s \<longleftrightarrow> dr_work s = 0"
proof -
  have "appended p \<longleftrightarrow> job_work p = 0" for p by (cases p) auto
  then show ?thesis by (auto simp: dr_final_def dr_work_def list_all_iff)
qed

lemma dr_progress:
  assumes "returns js" "dr_inv js s" "\<not> dr_final s"
  shows "\<exists>t. dr_step js s t"
proof -
  from assms(3) obtain i where i: "i < length (dr_jobs s)" "\<not> appended (dr_jobs s ! i)"
    by (auto simp: dr_final_def list_all_iff in_set_conv_nth)
  show ?thesis
  proof (cases "dr_jobs s ! i")
    case Searching
    moreover have "js ! i \<in> set js" using assms(2) i(1) by (simp add: dr_inv_def)
    then obtain r w' where "(js ! i) (dr_world s) = Some (r, w')" using assms(1) unfolding returns_def by blast
    ultimately show ?thesis using i(1) by (auto intro: dr_step.finish)
  qed (use i in \<open>auto intro: dr_step.collect\<close>)
qed

text \<open>A group of engines that all return is a work system.\<close>

interpretation dr: work_system "dr_step js" "\<lambda>s. returns js \<and> dr_inv js s" dr_final dr_work for js
  by unfold_locales (auto intro: dr_inv_step dr_work_step dr_progress simp: dr_final_work)

lemma dr_reach_inv: "(dr_step js)\<^sup>*\<^sup>* s t \<Longrightarrow> dr_inv js s \<Longrightarrow> dr_inv js t"
  by (induction rule: rtranclp_induct) (auto intro: dr_inv_step)


text \<open>When \<open>wg.Wait\<close> returns, every goroutine has contributed exactly once.\<close>

definition merged_from :: "('w, 'a) job list \<Rightarrow> 'a list \<Rightarrow> bool" where
  "merged_from js xs \<longleftrightarrow>
     (\<exists>ans order. mset order = mset [0..<length js] \<and> xs = concat (map ans order)
        \<and> (\<forall>i < length js. \<exists>w w'. (js ! i) w = Some (ans i, w')))"

lemma dr_merged:
  assumes "(dr_step js)\<^sup>*\<^sup>* (dr_init js w) s" "dr_final s"
  shows "merged_from js (dr_all s)"
proof -
  let ?ans = "\<lambda>i. job_answer (dr_jobs s ! i)"
  have inv: "dr_inv js s" using dr_reach_inv[OF assms(1) dr_inv_init] .
  then have all: "\<forall>i < length js. appended (dr_jobs s ! i)"
    using assms(2) by (auto simp: dr_inv_def dr_final_def list_all_iff)
  with inv have "set (dr_order s) = {0..<length js}" "distinct (dr_order s)" by (auto simp: dr_inv_def)
  then have "mset (dr_order s) = mset [0..<length js]"
    by (metis distinct_upt set_eq_iff_mset_eq_distinct set_upt)
  moreover have "dr_all s = concat (map ?ans (dr_order s))" using inv by (simp add: dr_inv_def)
  moreover have "\<forall>i < length js. \<exists>w w'. (js ! i) w = Some (?ans i, w')"
    using inv all unfolding dr_inv_def by force
  ultimately show ?thesis unfolding merged_from_def by blast
qed

lemma dr_ends:
  assumes "returns js" "(dr_step js ^^ n) (dr_init js w) s"
  shows "dr_final s \<longleftrightarrow> n = 2 * length js"
    and "\<exists>u. (dr_step js)\<^sup>*\<^sup>* s u \<and> dr_final u"
proof -
  have ok: "returns js \<and> dr_inv js (dr_init js w)" by (intro conjI assms(1) dr_inv_init)
  have "dr_work (dr_init js w) = 2 * length js" by (simp add: dr_work_def dr_init_def sum_list_replicate)
  with dr.final_after[OF assms(2) ok] show "dr_final s \<longleftrightarrow> n = 2 * length js" by simp
  show "\<exists>u. (dr_step js)\<^sup>*\<^sup>* s u \<and> dr_final u"
    by (rule dr.never_stuck[OF relpowp_imp_rtranclp[OF assms(2)] ok])
qed

lemma dr_completes:
  assumes "returns js"
  obtains s where "(dr_step js)\<^sup>*\<^sup>* (dr_init js w) s" "dr_final s"
  using dr_ends(2)[OF assms, of 0 w "dr_init js w"] by auto


lemma merged_set:
  assumes "merged_from js xs" "x \<in> set xs"
  shows "\<exists>j rs w w'. j \<in> set js \<and> j w = Some (rs, w') \<and> x \<in> set rs"
proof -
  from assms obtain ans order i where "mset order = mset [0..<length js]" "i \<in> set order" "x \<in> set (ans i)"
    "\<forall>i < length js. \<exists>w w'. (js ! i) w = Some (ans i, w')"
    by (auto simp: merged_from_def)
  moreover from this(1,2) have "i < length js" by (metis atLeastLessThan_iff set_mset_mset set_upt)
  ultimately show ?thesis using nth_mem by metis
qed

end
