(* ===== verification/Go_Int.thy ===== *)
theory Go_Int
  imports Go_Runes "HOL-Library.Word"
begin

text \<open>
  Machine integers: \<open>int\<close>, \<open>int64\<close> and \<open>time.Duration\<close> are
  64-bit two's complement, so a product that leaves the range wraps around; and
  \<open>strconv.Atoi\<close>, which reads an optional sign and decimal digits and rejects a
  value out of range.
\<close>

definition wrap64 :: "int \<Rightarrow> int" where
  "wrap64 x = sint (word_of_int x :: 64 word)"

abbreviation in_int64 :: "int \<Rightarrow> bool" where
  "in_int64 x \<equiv> - (2 ^ 63) \<le> x \<and> x < 2 ^ 63"

lemma wrap64_alt: "wrap64 x = (x + 2 ^ 63) mod 2 ^ 64 - 2 ^ 63"
  unfolding wrap64_def by (simp add: int_word_sint)

lemma wrap64_range: "in_int64 (wrap64 x)"
  unfolding wrap64_def
  using sint_greater_eq[of "word_of_int x :: 64 word"] sint_less[of "word_of_int x :: 64 word"] by simp

lemma wrap64_id: "in_int64 x \<Longrightarrow> wrap64 x = x"
  by (simp add: wrap64_alt)

lemma wrap64_cong: "wrap64 x mod 2 ^ 64 = x mod 2 ^ 64"
  unfolding wrap64_alt by (simp add: mod_diff_left_eq)

definition Atoi :: "string \<Rightarrow> int option" where
  "Atoi s =
     (let (neg, ds) = (case s of [] \<Rightarrow> (False, [])
            | c # cs \<Rightarrow> if c = CHR ''-'' then (True, cs) else if c = CHR ''+'' then (False, cs) else (False, s));
          v = (if neg then - 1 else 1) * int (digits_val 0 ds)
      in if ds \<noteq> [] \<and> list_all is_digit_byte ds \<and> in_int64 v then Some v else None)"

lemma nat_digits_hd_digit: "nat_digits n = c # cs \<Longrightarrow> is_digit_byte c"
  using nat_digits_all[of n] by simp

lemma Atoi_Itoa: "in_int64 n \<Longrightarrow> Atoi (Itoa n) = Some n"
proof -
  assume n: "in_int64 n"
  obtain c cs where c: "nat_digits (nat n) = c # cs" using nat_digits_nonempty by (meson neq_Nil_conv)
  have "c \<noteq> CHR ''-''" "c \<noteq> CHR ''+''"
    using nat_digits_hd_digit[OF c] by (auto simp: is_digit_byte_def)
  then have "n \<ge> 0 \<Longrightarrow> ?thesis"
    using n c nat_digits_all[of "nat n"] digits_val_nat_digits[of "nat n"] by (auto simp: Atoi_def Itoa_def)
  moreover have "n < 0 \<Longrightarrow> ?thesis"
    using n nat_digits_all[of "nat (- n)"] digits_val_nat_digits[of "nat (- n)"] by (simp add: Atoi_def Itoa_def)
  ultimately show ?thesis by linarith
qed

lemma Atoi_range: "Atoi s = Some v \<Longrightarrow> in_int64 v"
  by (auto simp: Atoi_def Let_def split: if_splits prod.splits)

end
