(* ===== verification/Ws_Direct.thy ===== *)
theory Ws_Direct
  imports Ws_Apis Mutex_Collect Go_Int
begin

text \<open>
  \<open>SearchDirect\<close> of package \<open>websearch\<close> (\<open>websearch/direct.go\<close>): the engines that are
  switched on run in one goroutine each, and each appends its results to a shared list under a
  mutex; the function returns the list when all have finished.  The goroutines share the world
  (the network, the clock, the engine's counters), so a run is a sequence of steps: a goroutine
  finishing its search, or a goroutine appending what it found.  The pacer of
  \<open>search/pacer.go\<close> is here too.
\<close>

subsection \<open>The engines\<close>

record 'w ws_cfg =
  wc_Browser :: "'w browser option"
  wc_DDG :: bool
  wc_Startpage :: bool
  wc_Brave :: bool
  wc_Reddit :: bool
  wc_Bing :: bool
  wc_Yep :: bool
  wc_Yandex :: YandexConfig
  wc_DDGLimiter :: "'w wait option"
  wc_StartpageLimiter :: "'w wait option"
  wc_BraveLimiter :: "'w wait option"
  wc_RedditLimiter :: "'w wait option"
  wc_BingLimiter :: "'w wait option"

text \<open>An engine behind its optional limiter: a cancelled wait is an empty answer without error.\<close>

definition limited_run ::
  "'w wait option \<Rightarrow> ('w \<Rightarrow> Result list result \<times> 'w) \<Rightarrow> 'w \<Rightarrow> Result list result \<times> 'w" where
  "limited_run lm run w =
     (case lm of
        None \<Rightarrow> run w
      | Some wait \<Rightarrow>
          (case wait w of
             (Some _, w1) \<Rightarrow> (Inr [], w1)
           | (None, w1) \<Rightarrow> run w1))"

definition runDDGDirect :: "('w, 'n) ws_env \<Rightarrow> 'w ws_cfg \<Rightarrow> string \<Rightarrow> 'w \<Rightarrow> Result list result \<times> 'w" where
  "runDDGDirect E cfg query =
     limited_run (wc_DDGLimiter cfg)
       (\<lambda>w. case NewDDG (wc_Browser cfg) ddgDefaultRegion of
              Inl e \<Rightarrow> (Inl e, w)
            | Inr (b, r) \<Rightarrow> DDG_Search E b r query no_opts w)"

definition runStartpageDirect :: "('w, 'n) ws_env \<Rightarrow> 'w ws_cfg \<Rightarrow> string \<Rightarrow> string \<Rightarrow> 'w \<Rightarrow> Result list result \<times> 'w" where
  "runStartpageDirect E cfg query language =
     limited_run (wc_StartpageLimiter cfg)
       (Startpage_Search E (wc_Browser cfg) startpageDefaultLang query (no_opts\<lparr>Language := language\<rparr>))"

definition runBraveDirect :: "('w, 'n) ws_env \<Rightarrow> 'w ws_cfg \<Rightarrow> string \<Rightarrow> 'w \<Rightarrow> Result list result \<times> 'w" where
  "runBraveDirect E cfg query = limited_run (wc_BraveLimiter cfg) (Brave_Search E (wc_Browser cfg) query no_opts)"

definition runBingDirect :: "('w, 'n) ws_env \<Rightarrow> 'w ws_cfg \<Rightarrow> string \<Rightarrow> 'w \<Rightarrow> Result list result \<times> 'w" where
  "runBingDirect E cfg query = limited_run (wc_BingLimiter cfg) (Bing_Search E (wc_Browser cfg) query no_opts)"

definition runRedditDirect :: "('w, 'n) ws_env \<Rightarrow> 'w ws_cfg \<Rightarrow> string \<Rightarrow> 'w \<Rightarrow> Result list result \<times> 'w" where
  "runRedditDirect E cfg query =
     limited_run (wc_RedditLimiter cfg) (Reddit_Search E (wc_Browser cfg) query (no_opts\<lparr>Limit := 10\<rparr>))"

text \<open>What the Yandex engine needs of the world: its API environment and the place of its
  monthly counter.\<close>

record 'w yandex_env =
  ye_api :: "'w api_env"
  ye_client :: "'w http_client"
  ye_codec :: yandex_codec
  ye_ticker :: "'w \<Rightarrow> nat \<Rightarrow> 'w wait"
  ye_counter :: "'w \<Rightarrow> quota"
  ye_set_counter :: "quota \<Rightarrow> 'w \<Rightarrow> 'w"

text \<open>What a goroutine appends: the results of a search without error.\<close>

definition found :: "Result list result \<times> 'w \<Rightarrow> Result list \<times> 'w" where
  "found a = (case fst a of Inl _ \<Rightarrow> [] | Inr rs \<Rightarrow> rs, snd a)"

definition run_yandex ::
  "'w yandex_env \<Rightarrow> YandexConfig \<Rightarrow> string \<Rightarrow> 'w \<Rightarrow> (Result list result \<times> 'w) option" where
  "run_yandex Y cfg query w =
     (case SearchYandexAPI (ye_api Y) (ye_client Y) (ye_codec Y) (ye_ticker Y) cfg query '''' '''' (ye_counter Y w) w of
        None \<Rightarrow> None
      | Some (r, q, w1) \<Rightarrow> Some (r, ye_set_counter Y q w1))"

definition ws_jobs :: "('w, 'n) ws_env \<Rightarrow> 'w yandex_env \<Rightarrow> 'w ws_cfg \<Rightarrow> string \<Rightarrow> string \<Rightarrow> (bool \<times> ('w, Result) job) list" where
  "ws_jobs E Y cfg query language =
     [(wc_DDG cfg, Some \<circ> found \<circ> runDDGDirect E cfg query),
      (wc_Startpage cfg, Some \<circ> found \<circ> runStartpageDirect E cfg query language),
      (wc_Brave cfg, Some \<circ> found \<circ> runBraveDirect E cfg query),
      (wc_Reddit cfg, Some \<circ> found \<circ> runRedditDirect E cfg query),
      (wc_Bing cfg, Some \<circ> found \<circ> runBingDirect E cfg query),
      (wc_Yep cfg, Some \<circ> found \<circ> Yep_Search E (wc_Browser cfg) query no_opts),
      (APIKey (wc_Yandex cfg) \<noteq> '''', map_option found \<circ> run_yandex Y (wc_Yandex cfg) query)]"

definition started_jobs :: "('w, 'n) ws_env \<Rightarrow> 'w yandex_env \<Rightarrow> 'w ws_cfg \<Rightarrow> string \<Rightarrow> string \<Rightarrow> ('w, Result) job list" where
  "started_jobs E Y cfg query language =
     (if wc_Browser cfg = None then [] else map snd (filter fst (ws_jobs E Y cfg query language)))"

subsection \<open>Where the results come from\<close>

definition engine_of :: "Result \<Rightarrow> string option" where
  "engine_of r = map_of (Metadata r) ''engine''"

definition names :: "string \<Rightarrow> Result list result \<Rightarrow> bool" where
  "names eng x \<longleftrightarrow> (case x of Inl _ \<Rightarrow> True | Inr rs \<Rightarrow> list_all (\<lambda>r. engine_of r = Some eng) rs)"

lemma names_usable: "all_usable eng x \<Longrightarrow> names eng x"
  by (auto simp: all_usable_def names_def usable_def engine_of_def list_all_iff split: sum.splits)

lemma names_filter: "(\<And>i r. f i = Some r \<Longrightarrow> engine_of r = Some eng) \<Longrightarrow> names eng (Inr (List.map_filter f is))"
  by (simp add: names_def map_filter_usable)

lemma names_simps [simp]: "names eng (Inl e)" "names eng (Inr [])"
  by (simp_all add: names_def)

lemma names_limit: "names eng (Inr rs) \<Longrightarrow> names eng (Inr (applyLimit rs n))"
  using set_applyLimit[of rs n] by (auto simp: names_def list_all_iff)

lemma engine_result_of: "engine_of (engine_result eng t c u) = Some eng"
  by (simp add: engine_of_def engine_result_def)

lemma names_node:
  "(\<And>n r. f n = Some r \<Longrightarrow> engine_of r = Some eng) \<Longrightarrow> names eng (each_node ctx D sel f body)"
  by (auto simp: each_node_def names_filter split: sum.splits)

lemma item_engines:
  "brave_node D n = Some r \<Longrightarrow> engine_of r = Some ''brave''"
  "startpage_node D n = Some r \<Longrightarrow> engine_of r = Some ''startpage''"
  "ddg_node q D n = Some r \<Longrightarrow> engine_of r = Some ''ddg''"
  "parseBingResult q D n = Some r \<Longrightarrow> engine_of r = Some ''bing''"
  "ddg_item i = Some r \<Longrightarrow> engine_of r = Some ''ddg''"
  "reddit_item p = Some r \<Longrightarrow> engine_of r = Some ''reddit''"
  "yandex_item d = Some r \<Longrightarrow> engine_of r = Some ''yandex''"
  "yep_item y = Some r \<Longrightarrow> engine_of r = Some ''yep''"
  using brave_node_usable[of D n r] startpage_node_usable[of D n r] ddg_node_usable[of q D n r]
    reddit_item_usable[of p r] yep_item_usable[of y r]
  by (auto simp: usable_def engine_of_def parseBingResult_def ddg_item_def yandex_item_def engine_result_def Let_def
      split: option.splits if_splits prod.splits)

lemma parsers_name:
  "names ''brave'' (ParseBraveHTML D body)"
  "names ''startpage'' (ParseStartpageHTML D body)"
  "names ''ddg'' (ParseDDGHTML q D body)"
  "names ''bing'' (ParseBingHTML q D body)"
  unfolding ParseBraveHTML_def ParseStartpageHTML_def ParseDDGHTML_def ParseBingHTML_def
  by (rule names_node, erule item_engines)+

lemma decoders_name:
  "names ''ddg'' (ParseDDGResponse d1 body)"
  "names ''reddit'' (ParseRedditJSON d2 body)"
  "names ''yep'' (ParseYepJSON d4 d5 d6 body)"
  by (simp_all add: ParseDDGResponse_def ParseRedditJSON_def ParseYepJSON_def Let_def
      names_filter item_engines split: sum.splits)

lemma yandex_names: "names ''yandex'' (ParseYandexXML d3 body)"
proof -
  have "list_all (\<lambda>r. engine_of r = Some ''yandex'') (List.map_filter yandex_item g)" for g
    using names_filter[of yandex_item "''yandex''" g] by (simp add: names_def item_engines)
  then show ?thesis
    by (auto simp: ParseYandexXML_def names_def list_all_iff split: sum.splits yandex_answer.splits)
qed

lemma serp_names: "(\<And>d. names eng (p d)) \<Longrightarrow> names eng (serp_answer e l p n ans)"
  by (auto simp: serp_answer_def intro!: names_limit split: sum.splits prod.splits) (metis+)

lemma limited_names: "(\<And>w. names eng (fst (run w))) \<Longrightarrow> names eng (fst (limited_run lm run w))"
  by (auto simp: limited_run_def split: option.splits prod.splits)

lemma ddg_names: "names ''ddg'' (fst (DDG_Search E b r query opts w))"
proof -
  have h: "names ''ddg'' (fst (ddg_searchHTML E b query rg tr w))" for rg tr w
    by (simp add: ddg_searchHTML_def Let_def split_def parsers_name split: option.splits sum.splits)
  have d: "names ''ddg'' (fst (ddg_searchDJS E b query v rg tr w))" for v rg tr w
    by (simp add: ddg_searchDJS_def Let_def split_def decoders_name split: option.splits sum.splits)
  have f: "names ''ddg'' (fst (ddg_fallback E b query rg opts w))" for rg w
    using d by (auto simp: ddg_fallback_def intro!: names_limit split: sum.splits prod.splits) (metis fst_conv)
  show ?thesis
    using h f by (auto simp: DDG_Search_def Let_def intro!: names_limit split: sum.splits prod.splits list.splits)
      (metis fst_conv)+
qed

lemma engines_name:
  "names ''brave'' (fst (Brave_Search E br query opts w))"
  "names ''bing'' (fst (Bing_Search E br query opts w))"
  "names ''startpage'' (fst (Startpage_Search E br l query opts w))"
  by (simp_all add: Brave_Search_def Bing_Search_def Startpage_Search_def Let_def split_def serp_names parsers_name
      split: option.splits)

lemma json_engines_name:
  "names ''yep'' (fst (Yep_Search E br query opts w))"
  "names ''reddit'' (fst (Reddit_Search E br query opts w))"
  using decoders_name(2,3)
  by (auto simp: Yep_Search_def Reddit_Search_def Let_def split_def intro!: names_limit
      split: option.splits sum.splits) (metis+)

lemma yandex_search_names:
  "SearchYandexAPI A C K newTicker cfg query region timeRange q w = Some (r, q', w') \<Longrightarrow> names ''yandex'' r"
  using yandex_names[of "dec_xml K"]
  by (auto simp: SearchYandexAPI_def Let_def split: if_splits prod.splits sum.splits option.splits)

text \<open>The engines that are switched on, by the names they give their results.\<close>

definition engine_flags :: "'w ws_cfg \<Rightarrow> (bool \<times> string) list" where
  "engine_flags cfg =
     [(wc_DDG cfg, ''ddg''), (wc_Startpage cfg, ''startpage''), (wc_Brave cfg, ''brave''),
      (wc_Reddit cfg, ''reddit''), (wc_Bing cfg, ''bing''), (wc_Yep cfg, ''yep''),
      (APIKey (wc_Yandex cfg) \<noteq> '''', ''yandex'')]"

definition from_enabled :: "'w ws_cfg \<Rightarrow> Result \<Rightarrow> bool" where
  "from_enabled cfg r \<longleftrightarrow> wc_Browser cfg \<noteq> None \<and> list_ex (\<lambda>(on, l). on \<and> engine_of r = Some l) (engine_flags cfg)"

lemma names_found: "names l (fst a) \<Longrightarrow> found a = (rs, w') \<Longrightarrow> r \<in> set rs \<Longrightarrow> engine_of r = Some l"
  by (auto simp: names_def found_def list_all_iff split: sum.splits)

lemma runs_name:
  "names ''ddg'' (fst (runDDGDirect E cfg query w))"
  "names ''startpage'' (fst (runStartpageDirect E cfg query language w))"
  "names ''brave'' (fst (runBraveDirect E cfg query w))"
  "names ''bing'' (fst (runBingDirect E cfg query w))"
  "names ''reddit'' (fst (runRedditDirect E cfg query w))"
  unfolding runDDGDirect_def runStartpageDirect_def runBraveDirect_def runBingDirect_def runRedditDirect_def
  by (rule limited_names, simp add: engines_name json_engines_name ddg_names split: sum.splits prod.splits)+

definition gives :: "('w, Result) job \<Rightarrow> string \<Rightarrow> bool" where
  "gives j l \<longleftrightarrow> (\<forall>w rs w' r. j w = Some (rs, w') \<longrightarrow> r \<in> set rs \<longrightarrow> engine_of r = Some l)"

lemma gives_found: "(\<And>w. names l (fst (run w))) \<Longrightarrow> gives (Some \<circ> found \<circ> run) l"
  by (auto simp: gives_def intro: names_found)

lemma gives_yandex: "gives (map_option found \<circ> run_yandex Y c q) ''yandex''"
proof -
  have "names ''yandex'' (fst a)" if "run_yandex Y c q v = Some a" for a v
    using that by (auto simp: run_yandex_def dest: yandex_search_names split: option.splits)
  note y = this
  show ?thesis unfolding gives_def
  proof (intro allI impI)
    fix w rs w' r
    assume "(map_option found \<circ> run_yandex Y c q) w = Some (rs, w')" and r: "r \<in> set rs"
    then obtain a where "run_yandex Y c q w = Some a" "found a = (rs, w')" by auto
    then show "engine_of r = Some ''yandex''" using names_found[OF y _ r] by blast
  qed
qed

lemma jobs_match_flags:
  "list_all2 (\<lambda>(on, j) (on', l). on = on' \<and> gives j l) (ws_jobs E Y cfg query language) (engine_flags cfg)"
  by (simp add: ws_jobs_def engine_flags_def gives_found runs_name json_engines_name gives_yandex)

lemma started_from_enabled:
  assumes "j \<in> set (started_jobs E Y cfg query language)" "j w = Some (rs, w')" "r \<in> set rs"
  shows "from_enabled cfg r"
proof -
  from assms(1) have b: "wc_Browser cfg \<noteq> None" and "(True, j) \<in> set (ws_jobs E Y cfg query language)"
    by (auto simp: started_jobs_def split: if_splits)
  then obtain i where i: "i < length (ws_jobs E Y cfg query language)" "ws_jobs E Y cfg query language ! i = (True, j)"
    by (auto simp: in_set_conv_nth)
  with list_all2_nthD[OF jobs_match_flags i(1)] list_all2_lengthD[OF jobs_match_flags[of E Y cfg query language]]
  obtain l where "(True, l) \<in> set (engine_flags cfg)" "gives j l" by (auto simp: split_beta) (metis nth_mem prod.collapse)
  with b assms(2,3) show ?thesis by (auto simp: from_enabled_def gives_def list_ex_iff)
qed

subsection \<open>Correctness of the run\<close>

text \<open>C14: Whatever the interleaving, when \<open>SearchDirect\<close> returns each started engine has
  contributed exactly once: the list is the results of the engines that succeeded, whole and
  one engine after another, in the order in which they took the lock; a failed engine
  contributes nothing and disturbs no other.  Every result names an engine that is switched
  on, and without a browser there is none.\<close>

theorem ws_direct_collects:
  assumes "(dr_step (started_jobs E Y cfg query language))\<^sup>*\<^sup>* (dr_init (started_jobs E Y cfg query language) w) s"
    and "dr_final s"
  shows "merged_from (started_jobs E Y cfg query language) (dr_all s) \<and> list_all (from_enabled cfg) (dr_all s)"
proof
  show m: "merged_from (started_jobs E Y cfg query language) (dr_all s)" using assms by (rule dr_merged)
  show "list_all (from_enabled cfg) (dr_all s)"
    unfolding list_all_iff using merged_set[OF m] started_from_enabled by metis
qed

text \<open>\<open>SearchDirect\<close> returns: with a ticker that keeps its period no engine waits forever, and
  then no interleaving can block, and every run ends after two steps per engine.\<close>

lemma started_jobs_return:
  assumes "ticker_law (ye_api Y) (ye_ticker Y)" "counts_requests (ye_client Y) (ye_ticker Y) sent"
  shows "returns (started_jobs E Y cfg query language)"
proof -
  have "\<exists>w' r. run_yandex Y c q w = Some (r, w')" for c q w
    using yandex_returns_aux[OF assms, of "ye_codec Y" c q "''''" "''''" "ye_counter Y w" w]
    by (auto simp: run_yandex_def)
  then show ?thesis by (auto simp: returns_def started_jobs_def ws_jobs_def found_def)
qed


lemma scrapers_return: "APIKey (wc_Yandex cfg) = '''' \<Longrightarrow> returns (started_jobs E Y cfg query language)"
  by (auto simp: returns_def started_jobs_def ws_jobs_def found_def)

text \<open>Three engines for evaluation: Brave over a browser whose requests fail, Bing behind a limiter
  that is cancelled, and Yandex with operations that never finish.\<close>

definition lab_ws_env :: "(int \<times> nat, unit) ws_env" where
  "lab_ws_env =
     \<lparr>ws_U = ascii_tables, ws_tz = 0, ws_now = fst, ws_ctxErr = (\<lambda>_. None), ws_defaultUA = '''',
      ws_dom = ws_dom (still_env None), ws_query_of = ws_query_of (still_env None),
      ws_dec_ddg = ws_dec_ddg (still_env None), ws_dec_yep_env = ws_dec_yep_env (still_env None),
      ws_dec_string = ws_dec_string (still_env None), ws_dec_yep = ws_dec_yep (still_env None),
      ws_dec_reddit = ws_dec_reddit (still_env None), ws_dec_reddit_err = ws_dec_reddit_err (still_env None)\<rparr>"

definition lab_yandex :: "(int \<times> nat) yandex_env" where
  "lab_yandex =
     \<lparr>ye_api = lab_api, ye_client = lab_client (ok_response ''{}''),
      ye_codec = lab_codec \<lparr>op_ID = ''op'', op_Done = False, op_Response = '''', op_Error = None\<rparr>,
      ye_ticker = lab_ticker, ye_counter = (\<lambda>_. \<lparr>count = 0, period = 0\<rparr>), ye_set_counter = (\<lambda>_ w. w)\<rparr>"

lemma lab_ticker_ok:
  "ticker_law lab_api lab_ticker" "counts_requests (lab_client r) lab_ticker snd"
  by (simp_all add: ticker_law_def lab_ticker_def lab_api_def counts_requests_def lab_client_def)

definition lab_engines :: "(int \<times> nat) ws_cfg" where
  "lab_engines =
     \<lparr>wc_Browser = Some \<lparr>Do = (\<lambda>_ w. (Inl Canceled, w)), identity = None\<rparr>, wc_DDG = False, wc_Startpage = False,
      wc_Brave = True, wc_Reddit = False, wc_Bing = True, wc_Yep = False,
      wc_Yandex = \<lparr>APIKey = ''k'', FolderID = ''f'', MonthlyLimit = 0\<rparr>,
      wc_DDGLimiter = None, wc_StartpageLimiter = None, wc_BraveLimiter = None,
      wc_RedditLimiter = None, wc_BingLimiter = Some (\<lambda>w. (Some Canceled, w))\<rparr>"

lemma lab_returns: "returns (started_jobs lab_ws_env lab_yandex lab_engines query language)"
  using started_jobs_return[of lab_yandex snd] lab_ticker_ok by (simp add: lab_yandex_def)

theorem ws_direct_collects_witness:
  "\<exists>s :: (int \<times> nat, Result) direct_run. dr_final s
     \<and> merged_from (started_jobs lab_ws_env lab_yandex lab_engines ''go'' ''en'') (dr_all s)
     \<and> list_all (from_enabled lab_engines) (dr_all s)"
proof -
  obtain s where s: "(dr_step (started_jobs lab_ws_env lab_yandex lab_engines ''go'' ''en''))\<^sup>*\<^sup>*
      (dr_init (started_jobs lab_ws_env lab_yandex lab_engines ''go'' ''en'') (0, 0)) s" "dr_final s"
    by (rule dr_completes[OF lab_returns])
  show ?thesis using s(2) ws_direct_collects[OF s] by blast
qed

text \<open>\<open>SearchDirect\<close> of package \<open>websearch\<close> always returns: with a ticker that keeps its
  period no engine waits forever, no interleaving of the goroutines can block, and a run has
  ended exactly after two steps per started engine.\<close>

theorem ws_direct_returns:
  assumes "ticker_law (ye_api Y) (ye_ticker Y)" "counts_requests (ye_client Y) (ye_ticker Y) sent"
    and "(dr_step (started_jobs E Y cfg query language) ^^ n) (dr_init (started_jobs E Y cfg query language) w) s"
  shows "(dr_final s \<longleftrightarrow> n = 2 * length (started_jobs E Y cfg query language))
    \<and> (\<exists>u. (dr_step (started_jobs E Y cfg query language))\<^sup>*\<^sup>* s u \<and> dr_final u)"
  using dr_ends[OF started_jobs_return[OF assms(1,2)] assms(3)] by blast

theorem ws_direct_returns_witness:
  "\<exists>u. (dr_step (started_jobs lab_ws_env lab_yandex lab_engines ''go'' ''en''))\<^sup>*\<^sup>*
       (dr_init (started_jobs lab_ws_env lab_yandex lab_engines ''go'' ''en'') (0, 0)) u \<and> dr_final u"
proof -
  let ?js = "started_jobs lab_ws_env lab_yandex lab_engines ''go'' ''en''"
  have ok: "ticker_law (ye_api lab_yandex) (ye_ticker lab_yandex)"
    "counts_requests (ye_client lab_yandex) (ye_ticker lab_yandex) snd"
    using lab_ticker_ok by (simp_all add: lab_yandex_def)
  have "(dr_step ?js ^^ 0) (dr_init ?js (0, 0)) (dr_init ?js (0, 0))" by simp
  from ws_direct_returns[OF ok this] show ?thesis by blast
qed

subsection \<open>The pacer's configuration\<close>

definition envIntDefault :: "(string \<Rightarrow> string) \<Rightarrow> string \<Rightarrow> int \<Rightarrow> int" where
  "envIntDefault Getenv name defaultVal =
     (let s = Getenv name
      in if s = '''' then defaultVal
         else case Atoi s of
           None \<Rightarrow> defaultVal
         | Some v \<Rightarrow> if v < 0 then defaultVal else v)"

text \<open>\<open>NewScraperPacer\<close>: the two durations handed to the keyed pacer, in nanoseconds.\<close>

definition NewScraperPacer :: "(string \<Rightarrow> string) \<Rightarrow> duration \<times> duration" where
  "NewScraperPacer Getenv =
     (wrap64 (envIntDefault Getenv ''SCRAPER_PACE_MIN_MS'' 1000 * 1000000),
      wrap64 (envIntDefault Getenv ''SCRAPER_PACE_JITTER_MS'' 1500 * 1000000))"

lemma envIntDefault_nonneg: "0 \<le> d \<Longrightarrow> 0 \<le> envIntDefault Getenv name d"
  by (simp add: envIntDefault_def Let_def split: option.splits)

text \<open>A value above 9223372036854 milliseconds overflows to a negative delay.\<close>

lemma pacer_delay_exact:
  assumes "envIntDefault Getenv ''SCRAPER_PACE_MIN_MS'' 1000 \<le> 9223372036854"
  shows "fst (NewScraperPacer Getenv) = envIntDefault Getenv ''SCRAPER_PACE_MIN_MS'' 1000 * 1000000"
  using assms envIntDefault_nonneg[of 1000 Getenv "''SCRAPER_PACE_MIN_MS''"]
  by (simp add: NewScraperPacer_def wrap64_id)

lemma pacer_delay_overflow:
  assumes "Atoi s = Some 9223372036855"
  shows "fst (NewScraperPacer (\<lambda>_. s)) = -9223372036854551616"
proof -
  have "s \<noteq> ''''" using assms by (auto simp: Atoi_def)
  with assms show ?thesis by (simp add: NewScraperPacer_def envIntDefault_def wrap64_alt)
qed

end
