(* ===== verification/Search_Jobs.thy ===== *)
theory Search_Jobs
  imports Search_Ox Search_Runners Ws_Direct
begin

text \<open>
  The fan-out of \<open>search/direct.go\<close> with its sources in it.  \<open>Search_Fanout\<close> lets a
  source answer anything; here a source answers what its runner answers
  (\<open>search/direct_runners.go\<close>), behind the pacer (\<open>search/pacer.go\<close>) and through the
  dual browser, or its context ends first.  Each source reads a world of its own: the clock and
  the network as they are when it runs.  Every run of this system is a run of the fan-out, so
  what is shown of the fan-out holds of it; and the way of a refusal is followed from the
  browser's answer to the next search.
\<close>

subsection \<open>The job table\<close>

record ('w, 'n) source_env =
  sv_ws :: "('w, 'n) ws_env"
  sv_wikipedia :: "string \<Rightarrow> (string \<times> string) list result"
  sv_marginalia :: "string \<Rightarrow> (string \<times> marginaliaItem list) result"
  sv_errText :: "go_error \<Rightarrow> string"
  sv_gate :: "'w \<Rightarrow> bool \<times> 'w"
  sv_yandex :: "'w yandex_env"

text \<open>The part of the configuration that \<open>DirectConfig\<close> and \<open>run_cfg\<close> do not hold.\<close>

record 'w source_cfg =
  sc_run :: "'w run_cfg"
  FallbackBrowser :: "'w browser iface"
  Yandex :: YandexConfig
  Pacer :: "(string \<Rightarrow> 'w wait) option"

type_synonym 'w source = "'w \<Rightarrow> (answer \<times> 'w) option"

definition answers :: "('w \<Rightarrow> Result list result \<times> 'w) \<Rightarrow> 'w source" where
  "answers fn w = (let (r, w1) = fn w in Some (of_result r, w1))"

definition yandex_job :: "'w yandex_env \<Rightarrow> 'w run_cfg \<Rightarrow> YandexConfig \<Rightarrow> string \<Rightarrow> 'w source" where
  "yandex_job Y rc cfg query w =
     (case search_SearchYandexAPI (Some (Incr rc)) (ye_api Y) (ye_client Y) (ye_codec Y) (ye_ticker Y)
             cfg query '''' (RunTimeRange rc) (ye_counter Y w) w of
        None \<Rightarrow> None
      | Some (r, q, w1) \<Rightarrow> Some (of_result r, ye_set_counter Y q w1))"

text \<open>\<open>cfg.Browser = newDualBrowser(cfg.Browser, cfg.FallbackBrowser)\<close>, then the jobs in the
  order of the table.\<close>

definition with_dual :: "'w source_cfg \<Rightarrow> 'w run_cfg" where
  "with_dual sc = (sc_run sc)\<lparr>Browser := newDualBrowser (Browser (sc_run sc)) (FallbackBrowser sc)\<rparr>"

definition job_fns :: "('w, 'n) source_env \<Rightarrow> 'w source_cfg \<Rightarrow> string \<Rightarrow> string \<Rightarrow> 'w source list" where
  "job_fns S sc query language =
     (let E = sv_ws S; rc = with_dual sc in
      [\<lambda>w. Some (runDDG E rc query w),
       \<lambda>w. Some (runStartpage E rc query language w),
       \<lambda>w. Some (runBrave E rc query w),
       \<lambda>w. Some (runReddit E rc query w),
       \<lambda>w. Some (runBing E rc query w),
       answers (Yep_Search E (browser_of (Browser rc)) query (no_opts\<lparr>TimeRange := RunTimeRange rc\<rparr>)),
       yandex_job (sv_yandex S) rc (Yandex sc) query,
       answers (runWikipedia E (sv_wikipedia S) rc query language),
       answers (runMarginalia E (sv_marginalia S) (sv_errText S) (sv_gate S) rc query),
       answers (runMojeek E rc query)])"

text \<open>A \<open>directJob\<close>: whether it is enabled, its label, its function.\<close>

type_synonym 'w directJob = "bool \<times> string \<times> 'w source"

definition search_jobs ::
  "('w, 'n) source_env \<Rightarrow> DirectConfig \<Rightarrow> 'w source_cfg \<Rightarrow> string \<Rightarrow> string \<Rightarrow> 'w directJob list" where
  "search_jobs S cfg sc query language =
     map (\<lambda>((enabled, l), fn). (enabled, l, fn)) (zip (direct_jobs cfg) (job_fns S sc query language))"

text \<open>\<open>applyPacing\<close>: an enabled job waits for its turn first; a cancelled wait skips the engine.\<close>

definition paced :: "(string \<Rightarrow> 'w wait) \<Rightarrow> 'w directJob \<Rightarrow> 'w directJob" where
  "paced wait j =
     (let (enabled, l, inner) = j
      in if \<not> enabled then j
         else (enabled, l, \<lambda>w. case wait l w of
                 (Some e, w1) \<Rightarrow> Some (ok_res [], w1)
               | (None, w1) \<Rightarrow> inner w1))"

definition applyPacing :: "'w directJob list \<Rightarrow> (string \<Rightarrow> 'w wait) option \<Rightarrow> 'w directJob list" where
  "applyPacing jobs pacer = (case pacer of None \<Rightarrow> jobs | Some wait \<Rightarrow> map (paced wait) jobs)"

text \<open>The function that is run for a launched label.\<close>

definition source_fn ::
  "('w, 'n) source_env \<Rightarrow> DirectConfig \<Rightarrow> 'w source_cfg \<Rightarrow> string \<Rightarrow> string \<Rightarrow> string \<Rightarrow> 'w source" where
  "source_fn S cfg sc query language l w =
     (case map_of (map snd (applyPacing (search_jobs S cfg sc query language) (Pacer sc))) l of
        None \<Rightarrow> None
      | Some fn \<Rightarrow> fn w)"

text \<open>Pacing keeps the table: the same jobs, enabled and labelled as before.\<close>

lemma job_table:
  "map (\<lambda>(enabled, l, fn). (enabled, l)) (applyPacing (search_jobs S cfg sc query language) p) = direct_jobs cfg"
  by (simp add: applyPacing_def paced_def search_jobs_def job_fns_def direct_jobs_def Let_def split: option.split)

subsection \<open>The fan-out over the sources\<close>

inductive sd_step :: "(string \<Rightarrow> 'w source) \<Rightarrow> collect_cfg \<Rightarrow> fan \<Rightarrow> fan \<Rightarrow> bool" for fns g where
  answered: "pending s = xs @ l # ys \<Longrightarrow> fns l w = Some ((rs, e), w1) \<Longrightarrow>
    sd_step fns g s (s\<lparr>pending := xs @ ys, chan := chan s @ [(now, runSourceWithTimeout l d (FnDone rs e cause))]\<rparr>)"
| expired: "pending s = xs @ l # ys \<Longrightarrow>
    sd_step fns g s (s\<lparr>pending := xs @ ys, chan := chan s @ [(now, runSourceWithTimeout l d (CtxDone c))]\<rparr>)"
| received: "chan s = x # rest \<Longrightarrow>
    sd_step fns g s (s\<lparr>chan := rest, coll := collect_step g x (coll s)\<rparr>)"

lemma run_label [simp]: "label (runSourceWithTimeout l d rc) = l"
  by (cases rc) simp_all

lemma sd_fan_step: "sd_step fns g s t \<Longrightarrow> fan_step g s t"
  by (induction rule: sd_step.induct) (auto intro: fan_step.intros)

lemma sd_fan_run: "(sd_step fns g)\<^sup>*\<^sup>* s t \<Longrightarrow> (fan_step g)\<^sup>*\<^sup>* s t"
  by (rule mono_rtranclp[rule_format, of "sd_step fns g"]) (rule sd_fan_step)

lemma sd_progress: "\<not> fan_done s \<Longrightarrow> \<exists>t. sd_step fns g s t"
proof (cases "chan s")
  case Nil
  assume "\<not> fan_done s"
  with Nil obtain l ys where "pending s = [] @ l # ys" by (cases "pending s") (auto simp: fan_done_def)
  from expired[OF this] show ?thesis by blast
next
  case (Cons x rest)
  from received[OF this] show ?thesis by blast
qed

lemma fan_done_work: "fan_done s \<longleftrightarrow> fan_work s = 0"
  by (simp add: fan_done_def fan_work_def)

interpretation sd: work_system "sd_step fns g" "fan_inv g launched bc" fan_done fan_work for fns g launched bc
  by unfold_locales
    (auto intro: fan_inv_step sd_fan_step sd_progress fan_work_step simp: fan_done_work)

text \<open>What arrives: for each launched source one result, which its runner answered or which
  stands for the end of its context.\<close>

definition genuine :: "(string \<Rightarrow> 'w source) \<Rightarrow> directResult \<Rightarrow> bool" where
  "genuine fns r \<longleftrightarrow>
     (\<exists>w rs e w1 d cause. fns (label r) w = Some ((rs, e), w1) \<and> r = runSourceWithTimeout (label r) d (FnDone rs e cause))
     \<or> (\<exists>d c. r = runSourceWithTimeout (label r) d (CtxDone c))"

definition sd_inv :: "(string \<Rightarrow> 'w source) \<Rightarrow> collect_cfg \<Rightarrow> string list \<Rightarrow> DirectBlockCache option \<Rightarrow> fan \<Rightarrow> bool" where
  "sd_inv fns g launched bc s \<longleftrightarrow> (\<exists>processed. coll s = collectResults g bc processed
     \<and> mset (labels processed) + mset (labels (chan s)) + mset (pending s) = mset launched
     \<and> list_all (genuine fns \<circ> snd) (processed @ chan s))"

lemma sd_inv_step:
  assumes "sd_inv fns g launched bc s" "sd_step fns g s t"
  shows "sd_inv fns g launched bc t"
proof -
  obtain p where p: "coll s = collectResults g bc p"
    "mset (labels p) + mset (labels (chan s)) + mset (pending s) = mset launched"
    "list_all (genuine fns \<circ> snd) (p @ chan s)"
    using assms(1) by (auto simp: sd_inv_def)
  from assms(2) show ?thesis
  proof (cases rule: sd_step.cases)
    case (answered xs l ys w rs e w1 now d cause)
    then have "genuine fns (runSourceWithTimeout l d (FnDone rs e cause))"
      unfolding genuine_def run_label by blast
    with p answered show ?thesis unfolding sd_inv_def by (intro exI[of _ p]) (simp add: ac_simps)
  next
    case (expired xs l ys now d c)
    have "genuine fns (runSourceWithTimeout l d (CtxDone c))" unfolding genuine_def run_label by blast
    with p expired show ?thesis unfolding sd_inv_def by (intro exI[of _ p]) (simp add: ac_simps)
  next
    case (received x rest)
    with p show ?thesis unfolding sd_inv_def
      by (intro exI[of _ "p @ [x]"]) (auto simp: collect_snoc ac_simps)
  qed
qed

lemma sd_arrivals:
  assumes "(sd_step fns g)\<^sup>*\<^sup>* (fan_init launched bc) s" "fan_done s"
  obtains arrivals where "coll s = collectResults g bc arrivals" "mset (labels arrivals) = mset launched"
    "list_all (genuine fns \<circ> snd) arrivals"
proof -
  have "sd_inv fns g launched bc (fan_init launched bc)"
    unfolding sd_inv_def fan_init_def by (intro exI[of _ "[]"]) simp
  with assms(1) have "sd_inv fns g launched bc s"
    by (induction rule: rtranclp_induct) (auto intro: sd_inv_step)
  with assms(2) that show ?thesis by (auto simp: sd_inv_def fan_done_def)
qed


subsection \<open>A refused engine\<close>

text \<open>A limiter or pacer that grants every wait.\<close>

definition grants :: "'w wait option \<Rightarrow> bool" where
  "grants lm \<longleftrightarrow> (case lm of None \<Rightarrow> True | Some wait \<Rightarrow> \<forall>w. fst (wait w) = None)"

definition unhindered :: "'w source_cfg \<Rightarrow> bool" where
  "unhindered sc \<longleftrightarrow> grants (StartpageLimiter (sc_run sc)) \<and> grants (BraveLimiter (sc_run sc))
     \<and> grants (BingLimiter (sc_run sc)) \<and> grants (RedditLimiter (sc_run sc))
     \<and> (\<forall>l. grants (map_option (\<lambda>wait. wait l) (Pacer sc))) \<and> 0 \<le> maxRetries (sc_run sc)"

text \<open>The engines whose page goes through the browser without a tier in between.\<close>

definition scraped :: "'w source_cfg \<Rightarrow> string \<Rightarrow> bool" where
  "scraped sc l \<longleftrightarrow> l \<in> {''startpage'', ''brave'', ''bing''}
     \<or> l = ''reddit'' \<and> RedditOAuth (sc_run sc) = None \<and> RedditCookieSearch (sc_run sc) = None
       \<and> RedditBrowserRender (sc_run sc) = None"

lemma refused_retry:
  assumes "\<And>w. ctxErr w = None" "\<And>w. fst (fn w) = Inl (ErrRateLimited eng 0)" "0 \<le> n"
  shows "fst (RetryDo ctxErr backoff n zero fn w) = Inl (ErrRateLimited eng 0)"
proof -
  obtain w1 where "fn w = (Inl (ErrRateLimited eng 0), w1)" using assms(2)[of w] by (metis prod.collapse)
  moreover have "\<not> IsRetryable (ErrRateLimited eng 0)" by (simp add: IsRetryable_def)
  ultimately show ?thesis using assms(1,3) by (simp add: RetryDo_def retry_loop_permanent)
qed

lemma refused_limited:
  assumes "\<And>w. ws_ctxErr E w = None" "\<And>w. fst (fn w) = Inl (ErrRateLimited eng 0)" "0 \<le> maxRetries cfg" "grants lm"
  shows "fst (run_limited E cfg lm fn w) = ([], Some (ErrRateLimited eng 0))"
proof -
  have "fst (let (r, w1) = RetryDo (ws_ctxErr E) (retryBackoff cfg) (maxRetries cfg) [] fn w in (of_result r, w1))
      = ([], Some (ErrRateLimited eng 0))" for w
  proof -
    have "fst (RetryDo (ws_ctxErr E) (retryBackoff cfg) (maxRetries cfg) [] fn w) = Inl (ErrRateLimited eng 0)"
      by (rule refused_retry) (use assms in auto)
    then show ?thesis
      by (cases "RetryDo (ws_ctxErr E) (retryBackoff cfg) (maxRetries cfg) [] fn w") (simp add: of_result_def)
  qed
  with assms(4) show ?thesis
    by (auto simp: run_limited_def grants_def split: option.splits prod.splits) (metis fst_conv option.distinct(1))
qed

text \<open>Every request of the browser is refused with the status \<open>st\<close>.\<close>

definition refuses :: "'w browser \<Rightarrow> int \<Rightarrow> bool" where
  "refuses b st \<longleftrightarrow> isRateLimitStatus st \<and> (\<forall>rq w. \<exists>d h w1. Do b rq w = (Inr (d, h, st), w1))"

lemma refused_engines:
  assumes "refuses b st" "\<And>w. ws_ctxErr E w = None"
  shows "fst (Brave_Search E (Some b) q opts w) = Inl (ErrRateLimited ''brave'' 0)"
    and "fst (Bing_Search E (Some b) q opts w) = Inl (ErrRateLimited ''bing'' 0)"
    and "fst (Startpage_Search E (Some b) lang q opts w) = Inl (ErrRateLimited ''startpage'' 0)"
    and "fst (Reddit_Search E (Some b) q opts w) = Inl (ErrRateLimited ''reddit'' 0)"
proof -
  have "\<forall>rq w. \<exists>x. Do b rq w = (Inr (fst x, fst (snd x), st), snd (snd x))" and st: "isRateLimitStatus st"
    using assms(1) by (auto simp: refuses_def)
  then obtain x where x: "\<And>rq w. Do b rq w = (Inr (fst (x rq w), fst (snd (x rq w)), st), snd (snd (x rq w)))" by metis
  note s = assms(2) x st serp_blocked Let_def
  show "fst (Brave_Search E (Some b) q opts w) = Inl (ErrRateLimited ''brave'' 0)" by (simp add: Brave_Search_def s)
  show "fst (Bing_Search E (Some b) q opts w) = Inl (ErrRateLimited ''bing'' 0)" by (simp add: Bing_Search_def s)
  show "fst (Startpage_Search E (Some b) lang q opts w) = Inl (ErrRateLimited ''startpage'' 0)" by (simp add: Startpage_Search_def s)
  show "fst (Reddit_Search E (Some b) q opts w) = Inl (ErrRateLimited ''reddit'' 0)" by (simp add: Reddit_Search_def s)
qed


text \<open>The dual browser the engines are given, as a browser that refuses.\<close>

definition refused_config :: "('w, 'n) source_env \<Rightarrow> 'w source_cfg \<Rightarrow> bool" where
  "refused_config S sc \<longleftrightarrow> unhindered sc \<and> (\<forall>w. ws_ctxErr (sv_ws S) w = None)
     \<and> (\<exists>b st. newDualBrowser (Browser (sc_run sc)) (FallbackBrowser sc) = Iface b \<and> refuses b st)"

lemma refused_runners:
  assumes "refused_config S sc"
  shows "fst (runStartpage (sv_ws S) (with_dual sc) q lang w) = ([], Some (ErrRateLimited ''startpage'' 0))"
    and "fst (runBrave (sv_ws S) (with_dual sc) q w) = ([], Some (ErrRateLimited ''brave'' 0))"
    and "fst (runBing (sv_ws S) (with_dual sc) q w) = ([], Some (ErrRateLimited ''bing'' 0))"
    and "scraped sc ''reddit'' \<Longrightarrow> fst (runReddit (sv_ws S) (with_dual sc) q w) = ([], Some (ErrRateLimited ''reddit'' 0))"
proof -
  obtain b st where b: "newDualBrowser (Browser (sc_run sc)) (FallbackBrowser sc) = Iface b" "refuses b st"
    and u: "unhindered sc" and c: "\<And>w. ws_ctxErr (sv_ws S) w = None"
    using assms by (auto simp: refused_config_def)
  have br: "browser_of (Browser (with_dual sc)) = Some b" by (simp add: with_dual_def b browser_of_def)
  note eng = refused_engines[OF b(2), of "sv_ws S", OF c]
  have n: "0 \<le> maxRetries (with_dual sc)" using u by (simp add: unhindered_def with_dual_def)
  have g: "grants (StartpageLimiter (with_dual sc))" "grants (BraveLimiter (with_dual sc))"
    "grants (BingLimiter (with_dual sc))" "grants (RedditLimiter (with_dual sc))"
    using u by (simp_all add: unhindered_def with_dual_def)
  show "fst (runStartpage (sv_ws S) (with_dual sc) q lang w) = ([], Some (ErrRateLimited ''startpage'' 0))"
    unfolding runStartpage_def by (rule refused_limited[OF c _ n g(1)]) (simp add: SearchStartpageDirect_def br eng)
  show "fst (runBrave (sv_ws S) (with_dual sc) q w) = ([], Some (ErrRateLimited ''brave'' 0))"
    unfolding runBrave_def by (rule refused_limited[OF c _ n g(2)]) (simp add: SearchBraveDirect_def br eng)
  show "fst (runBing (sv_ws S) (with_dual sc) q w) = ([], Some (ErrRateLimited ''bing'' 0))"
    unfolding runBing_def by (rule refused_limited[OF c _ n g(3)]) (simp add: SearchBingDirect_def br eng)
  assume "scraped sc ''reddit''"
  then have t: "RedditOAuth (with_dual sc) = None" "RedditCookieSearch (with_dual sc) = None" "RedditBrowserRender (with_dual sc) = None"
    by (auto simp: scraped_def with_dual_def)
  then have tiers: "runReddit_tiers (sv_ws S) (with_dual sc) q = (\<lambda>v. let (r, v1) = RetryDo (ws_ctxErr (sv_ws S))
      (retryBackoff (with_dual sc)) (maxRetries (with_dual sc)) [] (SearchRedditDirect (sv_ws S) (with_dual sc) q) v
      in (of_result r, v1))"
    by (simp add: runReddit_tiers_def fun_eq_iff)
  have "runReddit (sv_ws S) (with_dual sc) q w =
      run_limited (sv_ws S) (with_dual sc) (RedditLimiter (with_dual sc)) (SearchRedditDirect (sv_ws S) (with_dual sc) q) w"
    unfolding runReddit_def run_limited_def tiers Let_def by (rule refl)
  then show "fst (runReddit (sv_ws S) (with_dual sc) q w) = ([], Some (ErrRateLimited ''reddit'' 0))"
    using refused_limited[OF c _ n g(4), of "SearchRedditDirect (sv_ws S) (with_dual sc) q" "''reddit''" w]
    by (simp add: SearchRedditDirect_def br eng)
qed

lemma paced_source:
  assumes "map_of (map snd (map (paced wait) js)) l = Some fn'"
  obtains fn where "map_of (map snd js) l = Some fn"
    "fn' = fn \<or> fn' = (\<lambda>w. case wait l w of (Some e, w1) \<Rightarrow> Some (ok_res [], w1) | (None, w1) \<Rightarrow> fn w1)"
  using assms
proof (induction js arbitrary: thesis)
  case (Cons j js)
  obtain en k inner where j: "j = (en, k, inner)" by (cases j)
  show ?case
  proof (cases "k = l")
    case True
    with Cons.prems(2) show ?thesis by (intro Cons.prems(1)[of inner]) (auto simp: j paced_def split: if_splits)
  next
    case False
    moreover have "fst (snd (paced wait j)) = k" by (simp add: j paced_def)
    ultimately have "map_of (map snd (map (paced wait) js)) l = Some fn'"
      using Cons.prems(2) by (cases "paced wait j") auto
    from Cons.IH[OF _ this] Cons.prems(1) False show ?thesis by (auto simp: j)
  qed
qed simp

lemma refused_job:
  assumes "refused_config S sc" "scraped sc l" "map_of (map snd (search_jobs S cfg sc q lang)) l = Some fn" "fn v = Some (a, v1)"
  shows "a = ([], Some (ErrRateLimited l 0))"
  using assms(2-4) refused_runners[OF assms(1), of q]
  by (auto simp: scraped_def search_jobs_def job_fns_def direct_jobs_def Let_def) (metis fst_conv)+

lemma refused_source:
  assumes "refused_config S sc" "scraped sc l" "source_fn S cfg sc q lang l w = Some (a, w1)"
  shows "a = ([], Some (ErrRateLimited l 0))"
proof (cases "Pacer sc")
  case None
  with assms(3) refused_job[OF assms(1,2)] show ?thesis
    by (auto simp: source_fn_def applyPacing_def split: option.splits)
next
  case (Some wait)
  with assms(3) obtain fn' where f: "map_of (map snd (map (paced wait) (search_jobs S cfg sc q lang))) l = Some fn'" "fn' w = Some (a, w1)"
    by (auto simp: source_fn_def applyPacing_def split: option.splits)
  from f(1) obtain fn where fn: "map_of (map snd (search_jobs S cfg sc q lang)) l = Some fn"
    "fn' = fn \<or> fn' = (\<lambda>w. case wait l w of (Some e, w1) \<Rightarrow> Some (ok_res [], w1) | (None, w1) \<Rightarrow> fn w1)" by (rule paced_source)
  have "fst (wait l w) = None" using assms(1) Some by (auto simp: refused_config_def unhindered_def grants_def)
  then obtain v where "wait l w = (None, v)" by (metis prod.collapse)
  with fn(2) f(2) have "\<exists>v. fn v = Some (a, w1)" by auto
  with refused_job[OF assms(1,2) fn(1)] show ?thesis by blast
qed


text \<open>A mark in a run of marks on distinct engines lasts to its own end, whatever the clock.\<close>

lemma mark_lasts:
  assumes "distinct (labels arr)" "(t, r) \<in> set arr" "marks (oxEscalate g) r"
    "length arr \<le> nat n" "0 < n" "0 < d" "now \<le> t + d"
  shows "\<exists>c'. cache (collectResults g (Some (NewDirectBlockCache d n)) arr) = Some c' \<and> fst (IsBlocked now (label r) c')"
proof -
  obtain pre post where arr: "arr = pre @ (t, r) # post" using assms(2) by (metis split_list)
  let ?ops = "mark_ops (oxEscalate g) arr"
  have ops: "?ops = mark_ops (oxEscalate g) pre @ MarkOp t (label r) # mark_ops (oxEscalate g) post"
    using arr assms(3) by (simp add: mark_ops_def)
  have "marked_hosts (mark_ops ox xs) \<subseteq> set (labels xs)" for ox xs
    by (induction xs) (auto simp: mark_ops_def)
  then have "card (marked_hosts ?ops) \<le> card (set (labels arr))" by (intro card_mono) auto
  also have "\<dots> \<le> length arr" using card_length[of "labels arr"] by simp
  finally have room: "card (marked_hosts ?ops) \<le> nat n" using assms(4) by simp
  have "label r \<notin> set (labels post)" using assms(1) arr by simp
  then have "keeps_host d (label r) now (mark_ops (oxEscalate g) post)"
    by (induction post) (auto simp: mark_ops_def)
  then have "fst (IsBlocked now (label r) (bc_run ?ops (NewDirectBlockCache d n)))"
    unfolding bc_run_def using room assms(5-7)
    by (intro dbc.blocked_run_complete[OF bc_wf_New _ ops]) auto
  then show ?thesis by (simp add: collect_cache)
qed

text \<open>What the collector makes of a refused engine's result.\<close>

lemma refused_result:
  assumes "refused_config S sc" "scraped sc (label r)" "genuine (source_fn S cfg sc q lang) r"
  shows "(\<exists>d c. r = runSourceWithTimeout (label r) d (CtxDone c))
    \<or> err r = Some (ErrRateLimited (label r) 0) \<and> results r = [] \<and> marks ox r"
  using assms(3) unfolding genuine_def
proof
  assume "\<exists>w rs e w1 d cause. source_fn S cfg sc q lang (label r) w = Some ((rs, e), w1)
    \<and> r = runSourceWithTimeout (label r) d (FnDone rs e cause)"
  then obtain w rs e w1 d cause where f: "source_fn S cfg sc q lang (label r) w = Some ((rs, e), w1)"
    and r: "r = runSourceWithTimeout (label r) d (FnDone rs e cause)" by blast
  from refused_source[OF assms(1,2) f] have "rs = []" "e = Some (ErrRateLimited (label r) 0)" by simp_all
  with arg_cong[OF r, of err] arg_cong[OF r, of results]
  have "err r = Some (ErrRateLimited (label r) 0) \<and> results r = []" by (simp split: option.splits)
  then show ?thesis by (simp add: marks_def is_shed_def)
qed blast




text \<open>A world in which the browser is always refused.\<close>

definition lab_sources :: "(int \<times> nat, unit) source_env" where
  "lab_sources = \<lparr>sv_ws = lab_ws_env, sv_wikipedia = (\<lambda>_. Inr []), sv_marginalia = (\<lambda>_. Inr ('''', [])),
     sv_errText = (\<lambda>_. ''''), sv_gate = (\<lambda>w. (True, w)), sv_yandex = lab_yandex\<rparr>"

definition lab_refused :: "(int \<times> nat) source_cfg" where
  "lab_refused =
     \<lparr>sc_run = \<lparr>Browser = Iface \<lparr>Do = (\<lambda>_ w. (Inr ('''', [], 429), w)), identity = None\<rparr>, MojeekBrowser = NilIface,
        DDGLimiter = None, StartpageLimiter = None, BraveLimiter = Some (\<lambda>w. (None, w)), RedditLimiter = None,
        BingLimiter = None, maxRetries = 2, retryBackoff = (\<lambda>_ w. (None, w)), RunTimeRange = '''', MarginaliaKey = '''',
        MarginaliaBudget = NilIface, RedditOAuth = None, RedditCookieSearch = None, RedditBrowserRender = None,
        Incr = (\<lambda>_ w. w)\<rparr>,
      FallbackBrowser = NilIface, Yandex = \<lparr>APIKey = '''', FolderID = '''', MonthlyLimit = 0\<rparr>,
      Pacer = Some (\<lambda>_ w. (None, w))\<rparr>"

lemma lab_refuses: "refused_config lab_sources lab_refused"
  unfolding refused_config_def refuses_def
  by (auto simp: lab_sources_def lab_refused_def lab_ws_env_def unhindered_def grants_def newDualBrowser_def
      isNilInterface_def isRateLimitStatus_def)



text \<open>The results of a search come from its sources.\<close>

lemma genuine_okay:
  assumes "genuine fns r" "is_okay r"
  shows "\<exists>w rs w1. fns (label r) w = Some ((rs, None), w1) \<and> results r = rs"
  using assms(1) unfolding genuine_def
proof
  assume "\<exists>w rs e w1 d cause. fns (label r) w = Some ((rs, e), w1) \<and> r = runSourceWithTimeout (label r) d (FnDone rs e cause)"
  then obtain w rs e w1 d cause where f: "fns (label r) w = Some ((rs, e), w1)"
    and r: "r = runSourceWithTimeout (label r) d (FnDone rs e cause)" by blast
  from arg_cong[OF r, of err] assms(2) have "e = None" by (auto simp: is_okay_def split: option.splits if_splits)
  with f arg_cong[OF r, of results] show ?thesis by auto
next
  assume "\<exists>d c. r = runSourceWithTimeout (label r) d (CtxDone c)"
  then obtain d c where "r = runSourceWithTimeout (label r) d (CtxDone c)" by blast
  from arg_cong[OF this, of err] assms(2) show ?thesis by (simp add: is_okay_def)
qed

text \<open>The fan-out over the real sources refines the fan-out over sources that may answer
  anything: each of its runs is a run of the latter.  When it is done each launched source has
  delivered one result, and every merged result was returned, without an error, by the runner
  of a launched engine; nothing that came with an error or after the end of a source's context
  is merged.\<close>

theorem sources_refine_fanout:
  assumes "(sd_step fns g)\<^sup>*\<^sup>* (fan_init launched bc) s" "fan_done s"
  shows "(fan_step g)\<^sup>*\<^sup>* (fan_init launched bc) s
    \<and> Attempted (stats (coll s)) + Shed (stats (coll s)) = length launched
    \<and> (\<forall>x. x \<in> set (all (coll s)) \<longrightarrow>
        (\<exists>l w rs w1. l \<in> set launched \<and> fns l w = Some ((rs, None), w1) \<and> x \<in> set rs))"
proof (intro conjI allI impI)
  show "(fan_step g)\<^sup>*\<^sup>* (fan_init launched bc) s" by (rule sd_fan_run[OF assms(1)])
  obtain arr where a: "coll s = collectResults g bc arr" "mset (labels arr) = mset launched"
    "list_all (genuine fns \<circ> snd) arr" by (rule sd_arrivals[OF assms])
  have "length arr = length launched" using mset_eq_length[OF a(2)] by simp
  moreover have "Attempted (stats (coll s)) + Shed (stats (coll s)) = length arr"
    unfolding a(1) collect_stats by (induction arr) auto
  ultimately show "Attempted (stats (coll s)) + Shed (stats (coll s)) = length launched" by simp
  fix x assume "x \<in> set (all (coll s))"
  then obtain t r where r: "(t, r) \<in> set arr" "is_okay r" "x \<in> set (results r)"
    by (auto simp: a(1) collect_all)
  then have "genuine fns r" using a(3) by (auto simp: list_all_iff)
  from genuine_okay[OF this r(2)] obtain w w1 where f: "fns (label r) w = Some ((results r, None), w1)" by blast
  have "label r \<in> set (labels arr)" using r(1) by force
  then have "label r \<in> set launched" using a(2) by (metis mset_eq_setD)
  with f r(3) show "\<exists>l w rs w1. l \<in> set launched \<and> fns l w = Some ((rs, None), w1) \<and> x \<in> set rs" by blast
qed

theorem sources_refine_fanout_witness:
  "\<exists>s. fan_done s \<and> (fan_step lab_collect)\<^sup>*\<^sup>* (fan_init [''ddg'', ''brave''] None) s
     \<and> Attempted (stats (coll s)) + Shed (stats (coll s)) = 2"
proof -
  obtain s where s: "(sd_step (source_fn lab_sources lab_cfg lab_refused ''q'' ''en'') lab_collect)\<^sup>*\<^sup>*
      (fan_init [''ddg'', ''brave''] None) s" "fan_done s"
    using sd.can_finish[OF fan_inv_init] by blast
  from sources_refine_fanout[OF s] s(2) show ?thesis by auto
qed

end
