(* ===== verification/Search_Run.thy ===== *)
theory Search_Run
  imports Search_Jobs
begin

text \<open>
  A whole run of \<open>SearchDirect\<close>: the fan-out over its sources (\<open>Search_Jobs\<close>), then the
  escalation tier with its goroutines.  \<open>Search_Ox\<close> describes the tier by the order in which
  its engines finish; here each admitted engine is a goroutine of
  \<open>search/direct_runners.go\<close>, cut where another one can run: it raises the gauge of
  renders in flight, renders, counts its outcome, sends its results or removes its mark, and
  leaves.  Every run is one of the schedules of \<open>Search_Ox\<close>, so the theorems about
  \<open>SearchDirect\<close> hold of it.
\<close>

subsection \<open>The goroutines of the escalation\<close>

datatype ox_phase =
    Enter
  | Rendering
  | Counting "Result list" string
  | Delivering "Result list" string
  | Leaving
  | Gone

record ox_run =
  or_phases :: "(string \<times> ox_phase) list"
  or_held :: nat
  or_inflight :: int
  or_chan :: "Result list list"
  or_all :: "Result list"
  or_events :: "sr_event list"
  or_cache :: DirectBlockCache

definition ox_start :: "string list \<Rightarrow> sr_event list \<Rightarrow> DirectBlockCache \<Rightarrow> ox_run" where
  "ox_start acq ev c = \<lparr>or_phases = map (\<lambda>l. (l, Enter)) acq, or_held = length acq, or_inflight = 0,
     or_chan = [], or_all = [], or_events = ev, or_cache = c\<rparr>"

text \<open>\<open>render l w\<close> is \<open>runOxEngine\<close> for the label \<open>l\<close> in the world \<open>w\<close>; the registry is
  present when \<open>m\<close>.\<close>

type_synonym 'w renderer = "string \<Rightarrow> 'w \<Rightarrow> (Result list \<times> string) \<times> 'w"

inductive ox_step :: "bool \<Rightarrow> 'w renderer \<Rightarrow> ox_run \<Rightarrow> ox_run \<Rightarrow> bool" for m render where
  enter: "i < length (or_phases s) \<Longrightarrow> or_phases s ! i = (l, Enter) \<Longrightarrow>
    ox_step m render s (s\<lparr>or_phases := (or_phases s)[i := (l, Rendering)],
      or_inflight := or_inflight s + (if m then 1 else 0)\<rparr>)"
| render: "i < length (or_phases s) \<Longrightarrow> or_phases s ! i = (l, Rendering) \<Longrightarrow> render l w = ((res, out), w1) \<Longrightarrow>
    ox_step m render s (s\<lparr>or_phases := (or_phases s)[i := (l, Counting res out)]\<rparr>)"
| count: "i < length (or_phases s) \<Longrightarrow> or_phases s ! i = (l, Counting res out) \<Longrightarrow>
    ox_step m render s (s\<lparr>or_phases := (or_phases s)[i := (l, Delivering res out)],
      or_events := or_events s @ (if m then [OxEscalation l out] else [])\<rparr>)"
| send: "i < length (or_phases s) \<Longrightarrow> or_phases s ! i = (l, Delivering res out) \<Longrightarrow> res \<noteq> [] \<Longrightarrow>
    ox_step m render s (s\<lparr>or_phases := (or_phases s)[i := (l, Leaving)], or_chan := or_chan s @ [res]\<rparr>)"
| unmark: "i < length (or_phases s) \<Longrightarrow> or_phases s ! i = (l, Delivering [] out) \<Longrightarrow>
    ox_step m render s (s\<lparr>or_phases := (or_phases s)[i := (l, Leaving)], or_cache := Unmark l (or_cache s)\<rparr>)"
| leave: "i < length (or_phases s) \<Longrightarrow> or_phases s ! i = (l, Leaving) \<Longrightarrow>
    ox_step m render s (s\<lparr>or_phases := (or_phases s)[i := (l, Gone)],
      or_inflight := or_inflight s - (if m then 1 else 0), or_held := or_held s - 1\<rparr>)"
| take: "or_chan s = x # rest \<Longrightarrow>
    ox_step m render s (s\<lparr>or_chan := rest, or_all := or_all s @ x\<rparr>)"

text \<open>All goroutines are gone, the channel is closed and drained.\<close>

definition ox_done :: "ox_run \<Rightarrow> bool" where
  "ox_done s \<longleftrightarrow> list_all (\<lambda>(l, ph). ph = Gone) (or_phases s) \<and> or_chan s = []"

primrec ox_phase_work :: "ox_phase \<Rightarrow> nat" where
  "ox_phase_work Enter = 6"
| "ox_phase_work Rendering = 5"
| "ox_phase_work (Counting res out) = 4"
| "ox_phase_work (Delivering res out) = 3"
| "ox_phase_work Leaving = 1"
| "ox_phase_work Gone = 0"

definition ox_work :: "ox_run \<Rightarrow> nat" where
  "ox_work s = sum_list (map (ox_phase_work \<circ> snd) (or_phases s)) + length (or_chan s)"

lemma phase_sum:
  assumes "i < length phs" "phs ! i = (l, ph)"
  shows "sum_list (map (ox_phase_work \<circ> snd) (phs[i := (l, ph')])) + ox_phase_work ph
    = sum_list (map (ox_phase_work \<circ> snd) phs) + ox_phase_work ph'"
  using sum_list_update_nat[OF assms(1), of "ox_phase_work \<circ> snd" "(l, ph')"] assms(2) by (simp add: comp_def)

lemma ox_step_work: "ox_step m render s t \<Longrightarrow> ox_work t < ox_work s"
proof (induction rule: ox_step.induct)
  case (enter i s l)
  from phase_sum[OF this, of Rendering] show ?case by (simp add: ox_work_def)
next
  case (render i s l w res out w1)
  from phase_sum[OF this(1,2), of "Counting res out"] show ?case by (simp add: ox_work_def)
next
  case (count i s l res out)
  from phase_sum[OF this, of "Delivering res out"] show ?case by (simp add: ox_work_def)
next
  case (send i s l res out)
  from phase_sum[OF this(1,2), of Leaving] show ?case by (simp add: ox_work_def)
next
  case (unmark i s l out)
  from phase_sum[OF this, of Leaving] show ?case by (simp add: ox_work_def)
next
  case (leave i s l)
  from phase_sum[OF this, of Gone] show ?case by (simp add: ox_work_def)
qed (simp add: ox_work_def)

lemma ox_progress:
  assumes "\<not> ox_done s"
  shows "\<exists>t. ox_step m render s t"
proof (cases "or_chan s")
  case (Cons x rest)
  from take[OF this] show ?thesis by blast
next
  case Nil
  with assms obtain i where i: "i < length (or_phases s)" "snd (or_phases s ! i) \<noteq> Gone"
    by (auto simp: ox_done_def list_all_length case_prod_beta)
  obtain l ph where ph: "or_phases s ! i = (l, ph)" by fastforce
  obtain res out w1 where r: "render l undefined = ((res, out), w1)" by (metis prod.exhaust)
  show ?thesis
  proof (cases ph)
    case (Delivering res out)
    with i ph show ?thesis by (cases res) (auto intro: send unmark)
  qed (use i ph r in \<open>auto intro: enter render count leave\<close>)
qed

interpretation ox: bounded_system "ox_step m render" "\<lambda>_. True" ox_done ox_work for m render
proof (unfold_locales)
  show "ox_step m render s t \<Longrightarrow> ox_work t < ox_work s" for s t by (rule ox_step_work)
  show "\<not> ox_step m render s t" if "ox_done s" for s t
    using that by (auto simp: ox_done_def list_all_length elim!: ox_step.cases)
  show "\<not> ox_done s \<Longrightarrow> \<exists>t. ox_step m render s t" for s by (rule ox_progress)
qed simp


subsection \<open>Every run is a schedule\<close>

definition undelivered :: "ox_phase \<Rightarrow> bool" where
  "undelivered ph \<longleftrightarrow> ph \<noteq> Leaving \<and> ph \<noteq> Gone"

definition counted_events :: "bool \<Rightarrow> string \<times> ox_phase \<Rightarrow> sr_event multiset" where
  "counted_events m x = (case x of (l, Delivering res out) \<Rightarrow> (if m then {#OxEscalation l out#} else {#}) | _ \<Rightarrow> {#})"

definition rendered :: "'w renderer \<Rightarrow> string \<Rightarrow> Result list \<Rightarrow> string \<Rightarrow> bool" where
  "rendered render l res out \<longleftrightarrow> (\<exists>w. fst (render l w) = (res, out))"

definition phase_rendered :: "'w renderer \<Rightarrow> string \<times> ox_phase \<Rightarrow> bool" where
  "phase_rendered render x = (case x of
      (l, Counting res out) \<Rightarrow> rendered render l res out
    | (l, Delivering res out) \<Rightarrow> rendered render l res out
    | _ \<Rightarrow> True)"

text \<open>\<open>fin\<close>: the engines that have delivered, in the order in which they did.\<close>

definition ox_inv_at ::
  "bool \<Rightarrow> 'w renderer \<Rightarrow> string list \<Rightarrow> sr_event list \<Rightarrow> DirectBlockCache \<Rightarrow> (string \<times> Result list \<times> string) list \<Rightarrow> ox_run \<Rightarrow> bool" where
  "ox_inv_at m render acq ev c fin s \<longleftrightarrow>
     (let f = fold (ox_finish m) fin \<lparr>ox_all = [], ox_events = ev, ox_cache = c\<rparr> in
       ox_all f = or_all s @ concat (or_chan s) \<and> ox_cache f = or_cache s
       \<and> mset (or_events s) = mset (ox_events f) + \<Sum>\<^sub># (image_mset (counted_events m) (mset (or_phases s)))
       \<and> mset (map fst fin) + image_mset fst (filter_mset (undelivered \<circ> snd) (mset (or_phases s))) = mset acq
       \<and> list_all (\<lambda>(l, res, out). rendered render l res out) fin
       \<and> (\<forall>x \<in># mset (or_phases s). phase_rendered render x))"

text \<open>One goroutine moves on, the others stay.\<close>

lemma mset_moved:
  assumes "i < length xs" "xs ! i = x"
  obtains M where "mset xs = add_mset x M" "\<And>y. mset (xs[i := y]) = add_mset y M"
proof
  show "mset xs = add_mset x (mset xs - {#x#})" using assms by (metis insert_DiffM nth_mem_mset)
  show "mset (xs[i := y]) = add_mset y (mset xs - {#x#})" for y using assms mset_update[of i xs y] by simp
qed

text \<open>A step of the tier as a change of one phase: \<open>M\<close> are the goroutines that stay.\<close>

lemma ox_step_moves:
  assumes "ox_step m render s t"
  obtains
    (enter) l M phs where "mset (or_phases s) = add_mset (l, Enter) M" "mset phs = add_mset (l, Rendering) M"
      "t = s\<lparr>or_phases := phs, or_inflight := or_inflight s + (if m then 1 else 0)\<rparr>"
  | (render) l res out M phs where "mset (or_phases s) = add_mset (l, Rendering) M" "mset phs = add_mset (l, Counting res out) M"
      "rendered render l res out" "t = s\<lparr>or_phases := phs\<rparr>"
  | (count) l res out M phs where "mset (or_phases s) = add_mset (l, Counting res out) M"
      "mset phs = add_mset (l, Delivering res out) M"
      "t = s\<lparr>or_phases := phs, or_events := or_events s @ (if m then [OxEscalation l out] else [])\<rparr>"
  | (send) l res out M phs where "mset (or_phases s) = add_mset (l, Delivering res out) M" "mset phs = add_mset (l, Leaving) M"
      "res \<noteq> []" "t = s\<lparr>or_phases := phs, or_chan := or_chan s @ [res]\<rparr>"
  | (unmark) l out M phs where "mset (or_phases s) = add_mset (l, Delivering [] out) M" "mset phs = add_mset (l, Leaving) M"
      "t = s\<lparr>or_phases := phs, or_cache := Unmark l (or_cache s)\<rparr>"
  | (leave) l M phs where "mset (or_phases s) = add_mset (l, Leaving) M" "mset phs = add_mset (l, Gone) M"
      "t = s\<lparr>or_phases := phs, or_inflight := or_inflight s - (if m then 1 else 0), or_held := or_held s - 1\<rparr>"
  | (take) x rest where "or_chan s = x # rest" "t = s\<lparr>or_chan := rest, or_all := or_all s @ x\<rparr>"
  using assms
proof (cases rule: ox_step.cases)
  case (enter i l)
  show ?thesis by (rule mset_moved[OF enter(2,3)], rule that(1)[OF _ _ enter(1)])
next
  case (render i l w res out w1)
  then have rd: "rendered render l res out" unfolding rendered_def by (metis fst_conv)
  show ?thesis by (rule mset_moved[OF render(2,3)], rule that(2)[OF _ _ rd render(1)])
next
  case (count i l res out)
  show ?thesis by (rule mset_moved[OF count(2,3)], rule that(3)[OF _ _ count(1)])
next
  case (send i l res out)
  show ?thesis by (rule mset_moved[OF send(2,3)], rule that(4)[OF _ _ send(4,1)])
next
  case (unmark i l out)
  show ?thesis by (rule mset_moved[OF unmark(2,3)], rule that(5)[OF _ _ unmark(1)])
next
  case (leave i l)
  show ?thesis by (rule mset_moved[OF leave(2,3)], rule that(6)[OF _ _ leave(1)])
qed (rule that(7))

lemma ox_finish_sent: "res \<noteq> [] \<Longrightarrow>
  ox_all (ox_finish m (l, res, out) f) = ox_all f @ res \<and> ox_cache (ox_finish m (l, res, out) f) = ox_cache f
  \<and> ox_events (ox_finish m (l, res, out) f) = ox_events f @ (if m then [OxEscalation l out] else [])"
  by (simp add: ox_finish_def Let_def)

lemma ox_finish_unmarked:
  "ox_all (ox_finish m (l, [], out) f) = ox_all f \<and> ox_cache (ox_finish m (l, [], out) f) = Unmark l (ox_cache f)
  \<and> ox_events (ox_finish m (l, [], out) f) = ox_events f @ (if m then [OxEscalation l out] else [])"
  by (simp add: ox_finish_def Let_def)

lemmas ox_inv_simps = ox_inv_at_def Let_def undelivered_def counted_events_def phase_rendered_def

lemma ox_inv_step:
  assumes "ox_inv_at m render acq ev c fin s" "ox_step m render s t"
  shows "\<exists>fin'. ox_inv_at m render acq ev c fin' t"
  using assms(2)
proof (cases rule: ox_step_moves)
  case (send l res out M phs)
  with assms(1) ox_finish_sent[OF send(3)] show ?thesis
    by (intro exI[of _ "fin @ [(l, res, out)]"]) (simp add: ox_inv_simps)
next
  case (unmark l out M phs)
  with assms(1) ox_finish_unmarked show ?thesis
    by (intro exI[of _ "fin @ [(l, [], out)]"]) (simp add: ox_inv_simps)
qed (use assms(1) in \<open>intro exI[of _ fin], simp add: ox_inv_simps\<close>)+

lemma ox_inv_start: "ox_inv_at m render acq ev c [] (ox_start acq ev c)"
proof -
  have "\<Sum>\<^sub># (image_mset (counted_events m) (image_mset (\<lambda>l. (l, Enter)) (mset acq))) = {#}"
    by (simp add: image_mset.compositionality comp_def counted_events_def)
  moreover have "image_mset fst (filter_mset (undelivered \<circ> snd) (image_mset (\<lambda>l. (l, Enter)) (mset acq))) = mset acq"
    by (simp add: filter_mset_image_mset image_mset.compositionality comp_def undelivered_def)
  ultimately show ?thesis by (auto simp: ox_inv_at_def ox_start_def Let_def phase_rendered_def)
qed

lemma ox_run_schedule:
  assumes "(ox_step m render)\<^sup>*\<^sup>* (ox_start acq ev c) u" "ox_done u"
  obtains fin where "mset (map fst fin) = mset acq" "list_all (\<lambda>(l, res, out). rendered render l res out) fin"
    "ox_all (fold (ox_finish m) fin \<lparr>ox_all = [], ox_events = ev, ox_cache = c\<rparr>) = or_all u"
    "ox_cache (fold (ox_finish m) fin \<lparr>ox_all = [], ox_events = ev, ox_cache = c\<rparr>) = or_cache u"
    "mset (ox_events (fold (ox_finish m) fin \<lparr>ox_all = [], ox_events = ev, ox_cache = c\<rparr>)) = mset (or_events u)"
proof -
  from assms(1) have "\<exists>fin. ox_inv_at m render acq ev c fin u"
  proof (induction rule: rtranclp_induct)
    case base
    show ?case using ox_inv_start by blast
  next
    case (step s t)
    then show ?case using ox_inv_step by blast
  qed
  then obtain fin where f: "ox_inv_at m render acq ev c fin u" ..
  have gone: "snd x = Gone" if "x \<in># mset (or_phases u)" for x
    using assms(2) that by (auto simp: ox_done_def list_all_iff)
  have "counted_events m x = {#}" if "snd x = Gone" for x using that by (cases x) (simp add: counted_events_def)
  with gone have "image_mset (counted_events m) (mset (or_phases u)) = image_mset (\<lambda>_. {#}) (mset (or_phases u))"
    by (intro image_mset_cong) blast
  moreover have und: "filter_mset (undelivered \<circ> snd) (mset (or_phases u)) = {#}"
    using gone by (auto simp: filter_mset_eq_conv undelivered_def)
  ultimately show ?thesis using f[unfolded ox_inv_at_def Let_def und] assms(2) that[of fin] by (simp add: ox_done_def)
qed

subsection \<open>The gauge and the semaphore\<close>

text \<open>The gauge shows the engines that have entered and not left, and a slot is held until an
  engine leaves: neither exceeds the number admitted, and both are back to zero in the end.\<close>

definition ox_slots :: "bool \<Rightarrow> nat \<Rightarrow> ox_run \<Rightarrow> bool" where
  "ox_slots m n s \<longleftrightarrow> length (or_phases s) = n
     \<and> or_held s = size (filter_mset (\<lambda>x. snd x \<noteq> Gone) (mset (or_phases s)))
     \<and> or_inflight s = (if m then int (size (filter_mset (\<lambda>x. snd x \<notin> {Enter, Gone}) (mset (or_phases s)))) else 0)"

lemma ox_slots_step:
  assumes "ox_slots m n s" "ox_step m render s t"
  shows "ox_slots m n t"
  using assms(2)
proof (cases rule: ox_step_moves)
  case (leave l M phs)
  then have "length phs = length (or_phases s)" by (metis size_add_mset size_mset)
  with leave assms(1) show ?thesis by (simp add: ox_slots_def)
qed (use assms(1) in \<open>simp add: ox_slots_def flip: size_mset\<close>)+

lemma ox_slots_start: "ox_slots m (length acq) (ox_start acq ev c)"
  by (simp add: ox_slots_def ox_start_def filter_mset_image_mset)

lemma ox_slots_run:
  assumes "(ox_step m render)\<^sup>*\<^sup>* (ox_start acq ev c) u"
  shows "0 \<le> or_inflight u \<and> or_inflight u \<le> int (or_held u) \<and> or_held u \<le> length acq
    \<and> (ox_done u \<longrightarrow> or_inflight u = 0 \<and> or_held u = 0)"
proof -
  from assms have s: "ox_slots m (length acq) u"
    by (induction rule: rtranclp_induct) (auto intro: ox_slots_start ox_slots_step)
  have "size (filter_mset (\<lambda>x. snd x \<notin> {Enter, Gone}) M) \<le> size (filter_mset (\<lambda>x. snd x \<noteq> Gone) M)" for M :: "(string \<times> ox_phase) multiset"
    by (induction M) auto
  moreover have "size (filter_mset P (mset (or_phases u))) \<le> length acq" for P
    using s size_filter_mset_lesseq[of P "mset (or_phases u)"] by (simp add: ox_slots_def)
  moreover have "snd x = Gone" if "ox_done u" "x \<in># mset (or_phases u)" for x
    using that by (auto simp: ox_done_def list_all_iff)
  ultimately show ?thesis using s by (auto simp: ox_slots_def filter_mset_eq_conv)
qed


subsection \<open>A whole search\<close>

text \<open>The renderer of a configuration.\<close>

definition renderer_of :: "('w, 'n) source_env \<Rightarrow> 'w ox_fetch \<Rightarrow> 'w source_cfg \<Rightarrow> string \<Rightarrow> 'w renderer" where
  "renderer_of S fetch sc query l = runOxEngine (sv_ws S) fetch (RunTimeRange (sc_run sc)) query l"

text \<open>A run of \<open>SearchDirect\<close> with a block cache: the launch loop, the fan-out until all
  sources have answered and the channel is drained, the admission, and the tier until its
  goroutines are gone.\<close>

definition search_run ::
  "('w, 'n) source_env \<Rightarrow> 'w ox_fetch \<Rightarrow> DirectConfig \<Rightarrow> 'w source_cfg \<Rightarrow> string \<Rightarrow> string
   \<Rightarrow> (string \<Rightarrow> instant) \<Rightarrow> (nat \<Rightarrow> instant) \<Rightarrow> DirectBlockCache \<Rightarrow> fan \<Rightarrow> ox_run \<Rightarrow> bool" where
  "search_run S fetch cfg sc query language clk oclk bc s u \<longleftrightarrow>
     (let g = collect_cfg_of cfg;
          (launched, bc1) = launch_jobs clk (direct_jobs cfg) (Some bc);
          (acq, ev, bc2) = ox_admitted cfg oclk (int (length (all (coll s)))) (earlyAt g) (cache (coll s))
      in (sd_step (source_fn S cfg sc query language) g)\<^sup>*\<^sup>* (fan_init launched bc1) s \<and> fan_done s
         \<and> (ox_step (hasMetrics cfg) (renderer_of S fetch sc query))\<^sup>*\<^sup>* (ox_start acq ev (the bc2)) u \<and> ox_done u)"

lemma launch_Some_cache: "\<exists>c1. snd (launch_jobs clk js (Some c)) = Some c1"
proof (induction js arbitrary: c)
  case (Cons j js)
  then show ?case by (cases j) (auto simp: split_def Let_def)
qed simp

lemma search_run_schedule:
  assumes "search_run S fetch cfg sc query language clk oclk bc s u" "hasBrowser cfg" "enabled_labels cfg \<noteq> []"
  obtains arrivals finished where "direct_schedule cfg clk oclk (Some bc) arrivals finished"
    "list_all (genuine (source_fn S cfg sc query language) \<circ> snd) arrivals"
    "list_all (\<lambda>(l, res, out). rendered (renderer_of S fetch sc query) l res out) finished"
    "merged (SearchDirect cfg clk oclk (Some bc) arrivals finished) = all (coll s) @ or_all u"
    "dstats (SearchDirect cfg clk oclk (Some bc) arrivals finished) = stats (coll s)"
    "dcache (SearchDirect cfg clk oclk (Some bc) arrivals finished) = Some (or_cache u)"
    "mset (devents (SearchDirect cfg clk oclk (Some bc) arrivals finished)) = mset (events (coll s)) + mset (or_events u)"
proof -
  define g where "g = collect_cfg_of cfg"
  obtain launched bc1 where l: "launch_jobs clk (direct_jobs cfg) (Some bc) = (launched, bc1)" by fastforce
  obtain acq ev bc2 where a: "ox_admitted cfg oclk (int (length (all (coll s)))) (earlyAt g) (cache (coll s)) = (acq, ev, bc2)"
    by (metis prod.exhaust)
  have r: "(sd_step (source_fn S cfg sc query language) g)\<^sup>*\<^sup>* (fan_init launched bc1) s" "fan_done s"
    "(ox_step (hasMetrics cfg) (renderer_of S fetch sc query))\<^sup>*\<^sup>* (ox_start acq ev (the bc2)) u" "ox_done u"
    using assms(1) l a by (simp_all add: search_run_def g_def Let_def)
  obtain arr where arr: "coll s = collectResults g bc1 arr" "mset (labels arr) = mset launched"
    "list_all (genuine (source_fn S cfg sc query language) \<circ> snd) arr" by (rule sd_arrivals[OF r(1,2)])
  obtain c1 where c1: "bc1 = Some c1" using launch_Some_cache[of clk "direct_jobs cfg" bc] l by auto
  then obtain c2 where c2: "cache (coll s) = Some c2" by (simp add: arr(1) collect_cache)
  then have "bc2 \<noteq> None" using a unfolding c2 by (auto simp: ox_admitted_def split: if_splits prod.splits)
  then obtain c3 where c3: "bc2 = Some c3" by blast
  obtain fin where fin: "mset (map fst fin) = mset acq"
    "list_all (\<lambda>(l, res, out). rendered (renderer_of S fetch sc query) l res out) fin"
    "ox_all (fold (ox_finish (hasMetrics cfg)) fin \<lparr>ox_all = [], ox_events = ev, ox_cache = c3\<rparr>) = or_all u"
    "ox_cache (fold (ox_finish (hasMetrics cfg)) fin \<lparr>ox_all = [], ox_events = ev, ox_cache = c3\<rparr>) = or_cache u"
    "mset (ox_events (fold (ox_finish (hasMetrics cfg)) fin \<lparr>ox_all = [], ox_events = ev, ox_cache = c3\<rparr>)) = mset (or_events u)"
    using ox_run_schedule[OF r(3,4)] c3 by auto
  have sch: "direct_schedule cfg clk oclk (Some bc) arr fin"
    using arr(2) fin(1) a by (simp add: direct_schedule_def l Let_def arr(1) flip: g_def) (simp add: ox_schedule_def)
  have esc: "runOxEscalation cfg oclk (int (length (all (coll s)))) (earlyAt g) (cache (coll s)) fin =
      (or_all u, ox_events (fold (ox_finish (hasMetrics cfg)) fin \<lparr>ox_all = [], ox_events = ev, ox_cache = c3\<rparr>), Some (or_cache u))"
    using a c3 fin by (cases "acq = []") (auto simp: runOxEscalation_def Let_def)
  have "SearchDirect cfg clk oclk (Some bc) arr fin = \<lparr>merged = all (coll s) @ or_all u, dstats = stats (coll s),
      devents = events (coll s) @ ox_events (fold (ox_finish (hasMetrics cfg)) fin \<lparr>ox_all = [], ox_events = ev, ox_cache = c3\<rparr>),
      dcache = Some (or_cache u)\<rparr>"
    using assms(2,3) l esc by (simp add: SearchDirect_def Let_def arr(1) flip: g_def)
  with sch arr(3) fin(2,5) that[of arr fin] show ?thesis by simp
qed


lemma ox_page_ok: "ox_page limited parse html = (res, out) \<Longrightarrow> res \<noteq> [] \<Longrightarrow> out = ''ok''"
  by (auto simp: ox_page_def split: sum.splits if_splits)

lemma render_ok:
  assumes "fst (runOxEngine E fetch tr query l w) = (res, out)" "res \<noteq> []"
  shows "out = ''ok'' \<and> l \<in> {''ddg'', ''brave'', ''bing''}"
  using assms ox_page_ok
  by (auto simp: runOxEngine_def runOxDDG_def runOxBrave_def runOxBing_def split: if_splits prod.splits)

lemma ox_run_results:
  assumes "(ox_step m render)\<^sup>*\<^sup>* (ox_start acq ev c) u" "ox_done u" "x \<in> set (or_all u)"
  shows "\<exists>l w res out. l \<in> set acq \<and> fst (render l w) = (res, out) \<and> x \<in> set res"
proof -
  obtain fin where fin: "mset (map fst fin) = mset acq" "list_all (\<lambda>(l, res, out). rendered render l res out) fin"
    "or_all u = concat (map (fst \<circ> snd) fin)"
    using ox_run_schedule[OF assms(1,2)] by (metis append_Nil ox_fold_all ox_state.select_convs(1))
  from assms(3) fin(3) obtain l res out where y: "(l, res, out) \<in> set fin" "x \<in> set res" by auto
  then have "l \<in> set (map fst fin)" by force
  then have "l \<in> set acq" using mset_eq_setD[OF fin(1)] by simp
  with y fin(2) show ?thesis by (fastforce simp: list_all_iff rendered_def)
qed

lemma admitted_sub:
  assumes "ox_admitted cfg clk n t bc = (acq, ev, bc2)"
  shows "set acq \<subseteq> set (OxEscalate cfg) \<and> length acq \<le> ox_concurrency (OxConcurrency cfg)"
proof -
  have "set (fst (acquireOxSlots m k 0 (fst (ox_eligible clk 0 ls c)))) \<subseteq> set ls
      \<and> length (fst (acquireOxSlots m k 0 (fst (ox_eligible clk 0 ls c)))) \<le> k" for m k ls c
    using eligible_sub[of clk 0 ls c] set_take_subset[of k "fst (ox_eligible clk 0 ls c)"] by (auto simp: acquire_take)
  with assms show ?thesis
    by (auto simp: ox_admitted_def Let_def split_def split: option.splits if_splits) blast
qed

text \<open>Every configuration has a run: no schedule of either part can get stuck.\<close>

lemma search_run_exists: "\<exists>s u. search_run S fetch cfg sc query language clk oclk bc s u"
proof -
  obtain launched bc1 where l: "launch_jobs clk (direct_jobs cfg) (Some bc) = (launched, bc1)" by fastforce
  obtain s where s: "(sd_step (source_fn S cfg sc query language) (collect_cfg_of cfg))\<^sup>*\<^sup>* (fan_init launched bc1) s" "fan_done s"
    using sd.can_finish[OF fan_inv_init] by blast
  obtain acq ev bc2 where a: "ox_admitted cfg oclk (int (length (all (coll s)))) (earlyAt (collect_cfg_of cfg)) (cache (coll s)) = (acq, ev, bc2)"
    by (metis prod.exhaust)
  obtain u where "(ox_step (hasMetrics cfg) (renderer_of S fetch sc query))\<^sup>*\<^sup>* (ox_start acq ev (the bc2)) u" "ox_done u"
    using ox.can_finish by blast
  with l s a show ?thesis by (auto simp: search_run_def Let_def intro!: exI[of _ s] exI[of _ u])
qed

text \<open>C6: Whatever order the sources answer in, whenever their contexts end, and however the
  goroutines of the escalation interleave, a search does what \<open>SearchDirect\<close> does on one of its
  schedules: the same results in the same order, the same statistics, the same block cache
  and the same counts.  Each result was returned, without an error, by the runner of a launched
  engine, or was rendered with outcome ok by an engine of the escalation; and when the search
  returns no render is left in flight.\<close>

theorem search_run_refines:
  assumes "search_run S fetch cfg sc query language clk oclk bc s u" "hasBrowser cfg" "enabled_labels cfg \<noteq> []"
  shows "(\<exists>arrivals finished. direct_schedule cfg clk oclk (Some bc) arrivals finished
      \<and> (let d = SearchDirect cfg clk oclk (Some bc) arrivals finished in
           merged d = all (coll s) @ or_all u \<and> dstats d = stats (coll s) \<and> dcache d = Some (or_cache u)
           \<and> mset (devents d) = mset (events (coll s)) + mset (or_events u)))
    \<and> (\<forall>x. x \<in> set (all (coll s)) \<longrightarrow>
        (\<exists>l w rs w1. l \<in> set (fst (launch_jobs clk (direct_jobs cfg) (Some bc)))
           \<and> source_fn S cfg sc query language l w = Some ((rs, None), w1) \<and> x \<in> set rs))
    \<and> (\<forall>x. x \<in> set (or_all u) \<longrightarrow>
        (\<exists>l w res. l \<in> {''ddg'', ''brave'', ''bing''} \<and> l \<in> set (OxEscalate cfg)
           \<and> fst (renderer_of S fetch sc query l w) = (res, ''ok'') \<and> x \<in> set res))
    \<and> or_inflight u = 0"
proof -
  obtain arr fin where d: "direct_schedule cfg clk oclk (Some bc) arr fin"
    "list_all (\<lambda>(l, res, out). rendered (renderer_of S fetch sc query) l res out) fin"
    "merged (SearchDirect cfg clk oclk (Some bc) arr fin) = all (coll s) @ or_all u"
    "dstats (SearchDirect cfg clk oclk (Some bc) arr fin) = stats (coll s)"
    "dcache (SearchDirect cfg clk oclk (Some bc) arr fin) = Some (or_cache u)"
    "mset (devents (SearchDirect cfg clk oclk (Some bc) arr fin)) = mset (events (coll s)) + mset (or_events u)"
    by (rule search_run_schedule[OF assms], rule that)
  obtain launched bc1 where l: "launch_jobs clk (direct_jobs cfg) (Some bc) = (launched, bc1)" by fastforce
  obtain acq ev bc2 where a: "ox_admitted cfg oclk (int (length (all (coll s)))) (earlyAt (collect_cfg_of cfg)) (cache (coll s)) = (acq, ev, bc2)"
    by (metis prod.exhaust)
  have r: "(sd_step (source_fn S cfg sc query language) (collect_cfg_of cfg))\<^sup>*\<^sup>* (fan_init launched bc1) s" "fan_done s"
    "(ox_step (hasMetrics cfg) (renderer_of S fetch sc query))\<^sup>*\<^sup>* (ox_start acq ev (the bc2)) u" "ox_done u"
    using assms(1) l a by (simp_all add: search_run_def Let_def)
  have e: "\<exists>l w res. l \<in> {''ddg'', ''brave'', ''bing''} \<and> l \<in> set (OxEscalate cfg)
      \<and> fst (renderer_of S fetch sc query l w) = (res, ''ok'') \<and> x \<in> set res" if x: "x \<in> set (or_all u)" for x
  proof -
    obtain l w res out where o: "l \<in> set acq" "fst (renderer_of S fetch sc query l w) = (res, out)" "x \<in> set res"
      using ox_run_results[OF r(3,4) x] by blast
    from o(3) have "res \<noteq> []" by auto
    then have "out = ''ok''" "l \<in> {''ddg'', ''brave'', ''bing''}"
      using render_ok[OF o(2)[unfolded renderer_of_def]] by simp_all
    moreover have "l \<in> set (OxEscalate cfg)" using o(1) admitted_sub[OF a] by blast
    ultimately show ?thesis using o(2,3) by blast
  qed
  have "or_inflight u = 0" using ox_slots_run[OF r(3)] r(4) by simp
  moreover note sources_refine_fanout[OF r(1,2)]
  ultimately show ?thesis using d e l unfolding Let_def by (intro conjI) (blast, simp, blast, blast)
qed

theorem search_run_refines_witness:
  "\<exists>s u. or_inflight u = 0 \<and> search_run lab_sources (\<lambda>_ w. (Inl Canceled, w)) lab_cfg lab_refused ''q'' ''en'' (\<lambda>_. 0) (\<lambda>_. 0)
     (NewDirectBlockCache 100 10) s u
   \<and> (\<forall>x. x \<in> set (all (coll s)) \<longrightarrow> (\<exists>l w rs w1. l \<in> {''ddg'', ''brave''}
        \<and> source_fn lab_sources lab_cfg lab_refused ''q'' ''en'' l w = Some ((rs, None), w1) \<and> x \<in> set rs))"
proof -
  obtain s u where r: "search_run lab_sources (\<lambda>_ w. (Inl Canceled, w)) lab_cfg lab_refused ''q'' ''en'' (\<lambda>_. 0) (\<lambda>_. 0)
     (NewDirectBlockCache 100 10) s u" using search_run_exists by blast
  have l: "fst (launch_jobs (\<lambda>_. 0) (direct_jobs lab_cfg) (Some (NewDirectBlockCache 100 10))) = [''ddg'', ''brave'']"
    by (simp add: launch_Some[OF jobs_distinct]) (simp add: direct_jobs_def lab_cfg_def IsBlocked_def)
  have "hasBrowser lab_cfg" "enabled_labels lab_cfg \<noteq> []"
    by (simp_all add: lab_cfg_def enabled_labels_def direct_jobs_def)
  from search_run_refines[OF r this] r l show ?thesis by (intro exI[of _ s] exI[of _ u]) auto
qed

end
