(* ===== verification/Fetch_Signals.thy ===== *)
theory Fetch_Signals
  imports Go_Errors
begin

text \<open>
  \<open>fetch/blocksignals.go\<close> and \<open>fetch/hosts.go\<close>: the classification
  of a direct response as blocked or not, and the list of domains that go to the
  proxy at once.  \<open>http.Header\<close> is a map with canonical keys;
  \<open>url.Parse\<close> is a parameter that gives \<open>Host\<close> and
  \<open>Hostname()\<close> of a URL that parses.
\<close>

subsection \<open>HTTP headers\<close>

type_synonym headers = "(string, string) gomap"

definition token_byte :: "char \<Rightarrow> bool" where
  "token_byte c \<longleftrightarrow>
     (48 \<le> byte c \<and> byte c \<le> 57) \<or> (65 \<le> byte c \<and> byte c \<le> 90) \<or> (97 \<le> byte c \<and> byte c \<le> 122)
     \<or> c \<in> set ''!#$%&*+-.^_`|~'' \<or> byte c = 39"

definition upper_byte :: "char \<Rightarrow> char" where
  "upper_byte c = (if 97 \<le> byte c \<and> byte c \<le> 122 then mkbyte (byte c - 32) else c)"

fun canon_from :: "bool \<Rightarrow> string \<Rightarrow> string" where
  "canon_from up [] = []"
| "canon_from up (c # cs) =
     (if up then upper_byte c else lower_byte c) # canon_from (c = CHR ''-'') cs"

text \<open>\<open>textproto.CanonicalMIMEHeaderKey\<close>.\<close>

definition canonical_key :: "string \<Rightarrow> string" where
  "canonical_key k = (if list_all token_byte k then canon_from True k else k)"

definition header_Get :: "headers \<Rightarrow> string \<Rightarrow> string" where
  "header_Get h k = (case map_of h (canonical_key k) of Some v \<Rightarrow> v | None \<Rightarrow> [])"

definition header_Set :: "string \<Rightarrow> string \<Rightarrow> headers \<Rightarrow> headers" where
  "header_Set k v h = AList.update (canonical_key k) v h"

lemma header_Get_Set: "header_Get (header_Set k v h) k = v"
  by (simp add: header_Get_def header_Set_def update_conv')

subsection \<open>Block signals\<close>

datatype blockSig = sigNone | sigHard | sigSoft | sigTLS

definition softBlockBodyThreshold :: nat where
  "softBlockBodyThreshold = 512"

fun label :: "blockSig \<Rightarrow> string" where
  "label sigHard = ''hard''"
| "label sigSoft = ''soft''"
| "label sigTLS = ''tls''"
| "label sigNone = ''unknown''"

definition classifyBlock ::
  "unicode_tables \<Rightarrow> int \<Rightarrow> headers \<Rightarrow> string \<Rightarrow> go_error option \<Rightarrow> blockSig" where
  "classifyBlock U status hdrs body err =
     (if err \<noteq> None then sigTLS
      else if status \<in> {401, 403, 429, 503} then sigHard
      else if header_Get hdrs ''cf-mitigated'' \<noteq> '''' then sigHard
      else let bodyLower = ToLower U body in
        if header_Get hdrs ''server'' = ''cloudflare'' \<and> Contains bodyLower ''__cf_chl'' then sigHard
        else if Contains bodyLower ''just a moment'' then sigHard
        else if Contains bodyLower ''px-captcha'' then sigHard
        else if Contains bodyLower ''_pxappid'' then sigHard
        else if Contains bodyLower ''datadome'' then sigHard
        else if Contains bodyLower ''_incapsula_resource'' then sigHard
        else if Contains bodyLower ''akamai-bot-manager'' then sigHard
        else if status = 200 \<and> length body < softBlockBodyThreshold
          \<and> Contains (header_Get hdrs ''content-type'') ''text/html'' then sigSoft
        else sigNone)"

definition block_markers :: "string list" where
  "block_markers = [''just a moment'', ''px-captcha'', ''_pxappid'', ''datadome'',
     ''_incapsula_resource'', ''akamai-bot-manager'']"

lemma classify_TLS_iff: "classifyBlock U st h b e = sigTLS \<longleftrightarrow> e \<noteq> None"
  by (auto simp: classifyBlock_def Let_def)

lemma classify_hard_iff:
  "classifyBlock U st h b e = sigHard \<longleftrightarrow> e = None \<and>
     (st \<in> {401, 403, 429, 503} \<or> header_Get h ''cf-mitigated'' \<noteq> ''''
      \<or> header_Get h ''server'' = ''cloudflare'' \<and> sublist ''__cf_chl'' (ToLower U b)
      \<or> list_ex (\<lambda>m. sublist m (ToLower U b)) block_markers)"
  by (simp add: classifyBlock_def Let_def Contains_iff block_markers_def)

lemma classify_soft_200:
  "classifyBlock U st h b e = sigSoft \<Longrightarrow> e = None \<and> st = 200 \<and> length b < 512
     \<and> sublist ''text/html'' (header_Get h ''content-type'')"
  by (auto simp: classifyBlock_def Let_def Contains_iff softBlockBodyThreshold_def split: if_splits)

text \<open>A direct response is taken for unblocked exactly when the transport gave no
  error, the status is none of 401, 403, 429, 503, no Cloudflare mitigation
  header and no anti-bot marker (on the lower-cased body) is present, and it is
  not a tiny HTML page with status 200.\<close>

theorem classifyBlock_none_iff:
  "classifyBlock U st h b e = sigNone \<longleftrightarrow>
     e = None \<and> st \<notin> {401, 403, 429, 503} \<and> header_Get h ''cf-mitigated'' = ''''
     \<and> \<not> (header_Get h ''server'' = ''cloudflare'' \<and> sublist ''__cf_chl'' (ToLower U b))
     \<and> list_all (\<lambda>m. \<not> sublist m (ToLower U b)) block_markers
     \<and> \<not> (st = 200 \<and> length b < 512 \<and> sublist ''text/html'' (header_Get h ''content-type''))"
  by (simp add: classifyBlock_def Let_def Contains_iff block_markers_def softBlockBodyThreshold_def
      not_less)

subsection \<open>Proxy-first domains\<close>

definition defaultProxyFirstHosts :: "string list" where
  "defaultProxyFirstHosts = [''linkedin.com'', ''x.com'', ''twitter.com'', ''instagram.com'',
     ''facebook.com'', ''amazon.com'', ''ebay.com'', ''glassdoor.com'', ''indeed.com'',
     ''ziprecruiter.com'', ''medium.com'', ''quora.com'', ''pinterest.com'', ''tiktok.com'',
     ''g2.com'', ''capterra.com'', ''trustpilot.com'', ''yelp.com'']"

text \<open>The set of a \<open>ProxyFirstDomains\<close>, as the list of its members.\<close>

type_synonym ProxyFirstDomains = "string list"

definition NewProxyFirstDomains :: "unicode_tables \<Rightarrow> string list \<Rightarrow> ProxyFirstDomains" where
  "NewProxyFirstDomains U extra =
     remdups (map (\<lambda>h. ToLower U (TrimSpace h)) (defaultProxyFirstHosts @ extra))"

function match_walk :: "ProxyFirstDomains \<Rightarrow> string \<Rightarrow> bool" where
  "match_walk S host =
     (if host \<in> set S then True
      else case IndexByte host (CHR ''.'') of
        None \<Rightarrow> False
      | Some idx \<Rightarrow> match_walk S (drop (idx + 1) host))"
  by pat_completeness auto
termination
  by (relation "measure (length \<circ> snd)") (auto dest: IndexByte_Some)

declare match_walk.simps [simp del]

definition MatchURL ::
  "unicode_tables \<Rightarrow> (string \<Rightarrow> (string \<times> string) option) \<Rightarrow> ProxyFirstDomains \<Rightarrow> string \<Rightarrow> bool" where
  "MatchURL U parse S rawURL =
     (case parse rawURL of
        None \<Rightarrow> False
      | Some (_, hostname) \<Rightarrow>
          let host = ToLower U hostname in if host = '''' then False else match_walk S host)"

text \<open>\<open>d\<close> is the host itself or one of its parent domains.\<close>

definition parent_or_self :: "string \<Rightarrow> string \<Rightarrow> bool" where
  "parent_or_self d host \<longleftrightarrow> d = host \<or> suffix (CHR ''.'' # d) host"

lemma suffix_after_dot:
  assumes "IndexByte host (CHR ''.'') = Some i"
  shows "suffix (CHR ''.'' # d) host \<longleftrightarrow> parent_or_self d (drop (i + 1) host)"
proof -
  from IndexByte_Some[OF assms] have i: "i < length host" "host ! i = CHR ''.''"
    and first: "CHR ''.'' \<notin> set (take i host)" by auto
  define rest where "rest = drop (i + 1) host"
  define pre where "pre = take i host"
  have host: "host = pre @ CHR ''.'' # rest"
    using i id_take_nth_drop[of i host] by (simp add: rest_def pre_def)
  note first = first[folded pre_def]
  show ?thesis
  proof
    assume "suffix (CHR ''.'' # d) host"
    then obtain p where p: "host = p @ CHR ''.'' # d" by (auto simp: suffix_def)
    with host have "pre @ CHR ''.'' # rest = p @ CHR ''.'' # d" by simp
    then consider us where "pre = p @ us" "us @ CHR ''.'' # rest = CHR ''.'' # d"
      | us where "pre @ us = p" "CHR ''.'' # rest = us @ CHR ''.'' # d"
      by (auto simp: append_eq_append_conv2)
    then show "parent_or_self d (drop (i + 1) host)"
    proof cases
      case 1
      with first have "us = []" by (cases us) auto
      with 1 show ?thesis by (simp add: parent_or_self_def rest_def)
    next
      case 2
      then show ?thesis by (cases us) (auto simp: parent_or_self_def rest_def suffix_def)
    qed
  next
    assume "parent_or_self d (drop (i + 1) host)"
    then have "d = rest \<or> suffix (CHR ''.'' # d) rest" by (simp add: parent_or_self_def rest_def)
    then show "suffix (CHR ''.'' # d) host"
    proof
      assume "d = rest"
      then show ?thesis by (subst host) (simp add: suffix_def)
    next
      assume "suffix (CHR ''.'' # d) rest"
      then show ?thesis by (subst host) (auto simp: suffix_def)
    qed
  qed
qed

lemma match_walk_iff: "match_walk S host \<longleftrightarrow> (\<exists>d. d \<in> set S \<and> parent_or_self d host)"
proof (induction S host rule: match_walk.induct)
  case (1 S host)
  show ?case
  proof (cases "IndexByte host (CHR ''.'')")
    case None
    then have "\<not> suffix (CHR ''.'' # d) host" for d
      by (auto simp: suffix_def)
    with None show ?thesis
      by (subst match_walk.simps) (simp add: parent_or_self_def del: IndexByte_None)
  next
    case (Some i)
    show ?thesis
    proof (cases "host \<in> set S")
      case True
      then show ?thesis by (subst match_walk.simps) (auto simp: parent_or_self_def)
    next
      case False
      from 1[OF False Some] Some False suffix_after_dot[OF Some] show ?thesis
        by (subst match_walk.simps) (auto simp: parent_or_self_def[of _ host])
    qed
  qed
qed

text \<open>A URL is routed to the proxy at once exactly when it parses, has a host, and
  that host or one of its parent domains (at a dot boundary, ignoring case) is
  in the built-in list or among the caller's entries.\<close>

theorem MatchURL_iff:
  "MatchURL U parse (NewProxyFirstDomains U extra) rawURL \<longleftrightarrow>
     (\<exists>h hn d. parse rawURL = Some (h, hn) \<and> ToLower U hn \<noteq> ''''
        \<and> d \<in> set (defaultProxyFirstHosts @ extra)
        \<and> parent_or_self (ToLower U (TrimSpace d)) (ToLower U hn))"
  by (auto simp: MatchURL_def match_walk_iff NewProxyFirstDomains_def Let_def split: option.splits)

end
