(* ===== verification/Fetcher.thy ===== *)
theory Fetcher
  imports Fetch_Signals Block_Cache Retry
begin

text \<open>
  \<open>fetch/fetcher.go\<close> with its fallback renderers
  (\<open>oxbrowser.go\<close>, \<open>gobrowser.go\<close>, \<open>byparr.go\<close>) and
  \<open>helpers.go\<close>.  A fetch threads two states: the \<open>Fetcher\<close> (block
  cache, retry tracker, recorded metrics) and a world \<open>'w\<close> for everything
  outside: the clock, the context, the HTTP clients.  What the world does is the
  record \<open>fetch_env\<close> of functions: the two stealth clients, the plain HTTP
  client, the renderers' HTTP calls, \<open>url.Parse\<close> and the JSON codec.
\<close>

subsection \<open>Environment and state\<close>

record http_response =
  StatusCode :: int
  resp_Header :: headers
  resp_Body :: "string result"

record oxFetchResponse =
  ox_Body :: string
  ox_Error :: string

record goBrowserRenderResponse =
  gb_HTML :: string
  gb_Error :: string

record byparrResponse =
  bp_Status :: string
  bp_Message :: string
  bp_Solution :: "string option"

datatype render_request =
    oxFetchRequest string int
  | goBrowserRenderRequest string int
  | byparrRequest string string int

record 'w fetch_env =
  env_now :: "'w \<Rightarrow> instant"
  env_ctxErr :: "'w \<Rightarrow> go_error option"
  env_deadline :: "instant option"
  env_backoff :: "nat \<Rightarrow> 'w \<Rightarrow> go_error option \<times> 'w"
  env_parse :: "string \<Rightarrow> (string \<times> string) option"
  env_unicode :: unicode_tables
  env_chrome :: headers
  env_randomUA :: "'w \<Rightarrow> string \<times> 'w"
  env_direct :: "string \<Rightarrow> headers \<Rightarrow> 'w \<Rightarrow> (string \<times> headers \<times> int) result \<times> 'w"
  env_proxy :: "string \<Rightarrow> headers \<Rightarrow> 'w \<Rightarrow> (string \<times> headers \<times> int) result \<times> 'w"
  env_newRequest :: "string \<Rightarrow> go_error option"
  env_http :: "string \<Rightarrow> headers \<Rightarrow> 'w \<Rightarrow> http_response result \<times> 'w"
  env_gunzip :: "string result \<Rightarrow> string result"
  env_marshal :: "render_request \<Rightarrow> string result"
  env_svcauth :: "string \<Rightarrow> go_error option"
  env_post :: "duration \<Rightarrow> string \<Rightarrow> string \<Rightarrow> 'w \<Rightarrow> http_response result \<times> 'w"
  env_decodeOx :: "string \<Rightarrow> oxFetchResponse result"
  env_decodeGo :: "string \<Rightarrow> goBrowserRenderResponse result"
  env_decodeByparr :: "string \<Rightarrow> byparrResponse result"

datatype fm_event =
    incTier string string
  | incBlockSignal string
  | incEscalation string
  | setBlockCacheHosts int

text \<open>A client is absent, or present; \<open>Client (Some ua)\<close> is a
  \<open>*stealth.BrowserClient\<close> with the user agent of its identity.\<close>

datatype client = NoClient | Client "string option"

record Fetcher =
  proxyClient :: client
  directClient :: client
  maxRetries :: int
  retryTracker :: "RetryTracker option"
  hasProxyPool :: bool
  byparrURL :: string
  oxBrowserURL :: string
  goBrowserURL :: string
  directFirst :: bool
  blockCache :: "DirectBlockCache option"
  proxyFirstDomains :: "ProxyFirstDomains option"
  fmetrics :: "fm_event list"

definition record_metric :: "fm_event \<Rightarrow> Fetcher \<Rightarrow> Fetcher" where
  "record_metric e f = f\<lparr>fmetrics := fmetrics f @ [e]\<rparr>"

subsection \<open>Options and construction\<close>

datatype foption =
    WithRetryConfig int
  | WithProxyPool bool
  | WithDirectFirst bool
  | WithProxyFirstHosts "string list"
  | WithBlockTTL duration
  | WithRetryTracker "RetryTracker option"
  | WithOxBrowser string
  | WithGoBrowserFallback string
  | WithByparrFallback string

fun apply_option :: "unicode_tables \<Rightarrow> foption \<Rightarrow> Fetcher \<Rightarrow> Fetcher" where
  "apply_option U (WithRetryConfig n) f = f\<lparr>maxRetries := n\<rparr>"
| "apply_option U (WithProxyPool present) f = (if present then f\<lparr>hasProxyPool := True\<rparr> else f)"
| "apply_option U (WithDirectFirst b) f = f\<lparr>directFirst := b\<rparr>"
| "apply_option U (WithProxyFirstHosts hosts) f =
     (if proxyFirstDomains f = None
      then f\<lparr>proxyFirstDomains := Some (NewProxyFirstDomains U hosts)\<rparr>
      else f\<lparr>proxyFirstDomains := Some (NewProxyFirstDomains U (hosts @ defaultProxyFirstHosts))\<rparr>)"
| "apply_option U (WithBlockTTL d) f =
     (case blockCache f of
        None \<Rightarrow> f\<lparr>blockCache := Some (NewDirectBlockCache d defaultBlockCacheCap)\<rparr>
      | Some c \<Rightarrow> f\<lparr>blockCache := Some (c\<lparr>ttl := d\<rparr>)\<rparr>)"
| "apply_option U (WithRetryTracker t) f = f\<lparr>retryTracker := t\<rparr>"
| "apply_option U (WithOxBrowser u) f = (if u \<noteq> '''' then f\<lparr>oxBrowserURL := u\<rparr> else f)"
| "apply_option U (WithGoBrowserFallback u) f = (if u \<noteq> '''' then f\<lparr>goBrowserURL := u\<rparr> else f)"
| "apply_option U (WithByparrFallback u) f = (if u \<noteq> '''' then f\<lparr>byparrURL := u\<rparr> else f)"

definition empty_fetcher :: Fetcher where
  "empty_fetcher = \<lparr>proxyClient = NoClient, directClient = NoClient, maxRetries = 3,
     retryTracker = None, hasProxyPool = False, byparrURL = '''', oxBrowserURL = '''',
     goBrowserURL = '''', directFirst = False, blockCache = None, proxyFirstDomains = None,
     fmetrics = []\<rparr>"

text \<open>\<open>proxyBC\<close> and \<open>directBC\<close>: what \<open>stealth.NewClient\<close> gives for
  the two tiers, \<open>None\<close> on error.\<close>

definition New :: "unicode_tables \<Rightarrow> string option \<Rightarrow> string option \<Rightarrow> foption list \<Rightarrow> Fetcher" where
  "New U proxyBC directBC opts =
     (let f = fold (apply_option U) opts empty_fetcher;
          f = (if hasProxyPool f
               then (case proxyBC of Some ua \<Rightarrow> f\<lparr>proxyClient := Client (Some ua)\<rparr> | None \<Rightarrow> f)
               else f)
      in if directFirst f \<and> directClient f = NoClient
         then f\<lparr>directClient := (case directBC of Some ua \<Rightarrow> Client (Some ua) | None \<Rightarrow> NoClient),
                blockCache := (case blockCache f of
                   None \<Rightarrow> Some (NewDirectBlockCache defaultBlockTTL defaultBlockCacheCap)
                 | Some c \<Rightarrow> Some c),
                proxyFirstDomains := (case proxyFirstDomains f of
                   None \<Rightarrow> Some (NewProxyFirstDomains U [])
                 | Some d \<Rightarrow> Some d)\<rparr>
         else f)"

subsection \<open>Request headers\<close>

definition acceptHTML :: string where
  "acceptHTML = ''text/html,application/xhtml+xml,application/xml;q=0.9,*/*;q=0.8''"

definition merge_extra :: "unicode_tables \<Rightarrow> headers \<Rightarrow> headers \<Rightarrow> headers" where
  "merge_extra U extra h = fold (\<lambda>(k, v). AList.update (ToLower U k) v) extra h"

definition mergeHeaders :: "unicode_tables \<Rightarrow> headers \<Rightarrow> headers \<Rightarrow> headers" where
  "mergeHeaders U chrome extra = merge_extra U extra chrome"

definition stealth_headers :: "'w fetch_env \<Rightarrow> client \<Rightarrow> headers \<Rightarrow> headers" where
  "stealth_headers E c extra =
     (let h = AList.update ''accept'' acceptHTML (env_chrome E);
          h = (case c of Client (Some ua) \<Rightarrow> AList.update ''user-agent'' ua h | _ \<Rightarrow> h)
      in merge_extra (env_unicode E) extra h)"

subsection \<open>The tiers\<close>

definition fetchViaProxy ::
  "'w fetch_env \<Rightarrow> string \<Rightarrow> headers \<Rightarrow> Fetcher \<Rightarrow> 'w \<Rightarrow> string result \<times> 'w" where
  "fetchViaProxy E url extra f w =
     RetryDo (env_ctxErr E) (env_backoff E) (maxRetries f) ''''
       (\<lambda>w. case env_proxy E url (stealth_headers E (proxyClient f) extra) w of
          (Inl err, w1) \<Rightarrow> (Inl err, w1)
        | (Inr (data, _, status), w1) \<Rightarrow>
            if status \<noteq> 200 then (Inl (HttpStatusError status), w1) else (Inr data, w1)) w"

definition RetryHTTP ::
  "'w fetch_env \<Rightarrow> int \<Rightarrow> ('w \<Rightarrow> http_response result \<times> 'w) \<Rightarrow> 'w \<Rightarrow> http_response option result \<times> 'w" where
  "RetryHTTP E n fn w =
     RetryDo (env_ctxErr E) (env_backoff E) n None
       (\<lambda>w. case fn w of
          (Inl err, w1) \<Rightarrow> (Inl err, w1)
        | (Inr resp, w1) \<Rightarrow>
            if IsRetryableStatus (StatusCode resp) then (Inl (HttpStatusError (StatusCode resp)), w1)
            else (Inr (Some resp), w1)) w"

definition ReadResponseBody :: "'w fetch_env \<Rightarrow> http_response \<Rightarrow> string result" where
  "ReadResponseBody E resp =
     (if header_Get (resp_Header resp) ''Content-Encoding'' = ''gzip''
      then env_gunzip E (resp_Body resp) else resp_Body resp)"

definition http_headers :: "string \<Rightarrow> headers \<Rightarrow> headers" where
  "http_headers ua extra =
     fold (\<lambda>(k, v). header_Set k v) extra
       (header_Set ''Accept-Encoding'' ''gzip, deflate''
         (header_Set ''Accept-Language'' ''en-US,en;q=0.9''
           (header_Set ''Accept'' acceptHTML (header_Set ''User-Agent'' ua []))))"

definition fetchViaHTTP ::
  "'w fetch_env \<Rightarrow> string \<Rightarrow> headers \<Rightarrow> Fetcher \<Rightarrow> 'w \<Rightarrow> string result \<times> 'w" where
  "fetchViaHTTP E url extra f w =
     (case RetryHTTP E (maxRetries f)
        (\<lambda>w. case env_newRequest E url of
           Some err \<Rightarrow> (Inl err, w)
         | None \<Rightarrow> (let (ua, w1) = env_randomUA E w in env_http E url (http_headers ua extra) w1)) w of
        (Inl err, w1) \<Rightarrow> (Inl err, w1)
      | (Inr None, w1) \<Rightarrow> (Inl (GoPanic ''nil response''), w1)
      | (Inr (Some resp), w1) \<Rightarrow>
          if StatusCode resp \<noteq> 200 then (Inl (HttpStatusError (StatusCode resp)), w1)
          else (ReadResponseBody E resp, w1))"

definition fetchViaProxyOrHTTPWithHeaders ::
  "'w fetch_env \<Rightarrow> string \<Rightarrow> headers \<Rightarrow> Fetcher \<Rightarrow> 'w \<Rightarrow> string result \<times> 'w" where
  "fetchViaProxyOrHTTPWithHeaders E url extra f w =
     (if proxyClient f \<noteq> NoClient then fetchViaProxy E url extra f w
      else fetchViaHTTP E url extra f w)"

definition fetchProxyAndRecordWithHeaders ::
  "'w fetch_env \<Rightarrow> string \<Rightarrow> headers \<Rightarrow> Fetcher \<Rightarrow> 'w \<Rightarrow> string result \<times> Fetcher \<times> 'w" where
  "fetchProxyAndRecordWithHeaders E url extra f w =
     (let (r, w1) = fetchViaProxyOrHTTPWithHeaders E url extra f w
      in (r, record_metric (incTier ''proxy'' (if is_ok r then ''ok'' else ''err'')) f, w1))"

definition errNoDirectClient :: go_error where
  "errNoDirectClient = ErrNew ''fetch: directClient not initialised''"

text \<open>\<open>fetchDirectRaw\<close>: the body, canonical headers, status and error.\<close>

definition fetchDirectRaw ::
  "'w fetch_env \<Rightarrow> string \<Rightarrow> headers \<Rightarrow> Fetcher \<Rightarrow> 'w
   \<Rightarrow> (string \<times> headers \<times> int \<times> go_error option) \<times> 'w" where
  "fetchDirectRaw E url extra f w =
     (if directClient f = NoClient then (('''', [], 0, Some errNoDirectClient), w)
      else case env_direct E url (stealth_headers E (directClient f) extra) w of
        (Inl err, w1) \<Rightarrow> (('''', [], 0, Some err), w1)
      | (Inr (data, respHdrs, status), w1) \<Rightarrow>
          ((data, fold (\<lambda>(k, v). header_Set k v) respHdrs [], status, None), w1))"

definition is_blocked_host :: "instant \<Rightarrow> string \<Rightarrow> Fetcher \<Rightarrow> bool \<times> Fetcher" where
  "is_blocked_host now host f =
     (case blockCache f of
        None \<Rightarrow> (False, f)
      | Some c \<Rightarrow> (let (b, c1) = IsBlocked now host c in (b, f\<lparr>blockCache := Some c1\<rparr>)))"

definition mark_host :: "instant \<Rightarrow> string \<Rightarrow> Fetcher \<Rightarrow> Fetcher" where
  "mark_host now host f =
     (case blockCache f of
        None \<Rightarrow> f
      | Some c \<Rightarrow>
          if host = '''' then f
          else (let c1 = Mark now host c
                in record_metric (setBlockCacheHosts (Len c1)) (f\<lparr>blockCache := Some c1\<rparr>)))"

definition url_host :: "'w fetch_env \<Rightarrow> string \<Rightarrow> string" where
  "url_host E url = (case env_parse E url of Some (h, _) \<Rightarrow> h | None \<Rightarrow> '''')"

definition domain_hint :: "'w fetch_env \<Rightarrow> string \<Rightarrow> Fetcher \<Rightarrow> bool" where
  "domain_hint E url f =
     (case proxyFirstDomains f of
        None \<Rightarrow> False
      | Some d \<Rightarrow> MatchURL (env_unicode E) (env_parse E) d url)"

definition fetchDirectFirstWithHeaders ::
  "'w fetch_env \<Rightarrow> string \<Rightarrow> headers \<Rightarrow> Fetcher \<Rightarrow> 'w \<Rightarrow> string result \<times> Fetcher \<times> 'w" where
  "fetchDirectFirstWithHeaders E url extra f w =
     (if domain_hint E url f
      then fetchProxyAndRecordWithHeaders E url extra (record_metric (incEscalation ''domain_hint'') f) w
      else
        let host = url_host E url;
            (blocked, f) = is_blocked_host (env_now E w) host f
        in if blocked
           then fetchProxyAndRecordWithHeaders E url extra (record_metric (incEscalation ''cached'') f) w
           else
             let ((body, hdrs, status, directErr), w) = fetchDirectRaw E url extra f w;
                 sig = classifyBlock (env_unicode E) status hdrs body directErr
             in if sig = sigNone
                then (case directErr of
                        Some e \<Rightarrow> (Inl e, record_metric (incTier ''direct'' ''err'') f, w)
                      | None \<Rightarrow> (Inr body, record_metric (incTier ''direct'' ''ok'') f, w))
                else
                  let f = mark_host (env_now E w) host (record_metric (incBlockSignal (label sig)) f)
                  in if proxyClient f \<noteq> NoClient
                     then fetchProxyAndRecordWithHeaders E url extra (record_metric (incEscalation (label sig)) f) w
                     else if sig = sigSoft then (Inr body, f, w)
                     else (case directErr of
                             Some e \<Rightarrow> (Inl e, f, w)
                           | None \<Rightarrow> (Inl (HttpStatusError status), f, w)))"

definition fetchPrimaryWithHeaders ::
  "'w fetch_env \<Rightarrow> string \<Rightarrow> bool \<Rightarrow> headers \<Rightarrow> Fetcher \<Rightarrow> 'w \<Rightarrow> string result \<times> Fetcher \<times> 'w" where
  "fetchPrimaryWithHeaders E url perm extra f w =
     (if perm then (Inl ErrPermanentlyFailed, f, w)
      else if \<not> directFirst f
      then (let (r, w1) = fetchViaProxyOrHTTPWithHeaders E url extra f w in (r, f, w1))
      else fetchDirectFirstWithHeaders E url extra f w)"

subsection \<open>The fallback renderers\<close>

definition second :: duration where
  "second = 1000000000"

definition oxBrowserTimeout :: duration where
  "oxBrowserTimeout = 30 * second"

definition goBrowserTimeout :: duration where
  "goBrowserTimeout = 65 * second"

definition byparrTimeout :: duration where
  "byparrTimeout = 90 * second"

text \<open>The timeout of the child context: the shorter of \<open>maxDur\<close> and what
  remains until the parent's deadline.\<close>

definition childTimeout :: "instant \<Rightarrow> instant option \<Rightarrow> duration \<Rightarrow> duration" where
  "childTimeout now deadline maxDur =
     (case deadline of
        Some d \<Rightarrow> if d - now < maxDur then d - now else maxDur
      | None \<Rightarrow> maxDur)"

definition maxTruncate :: nat where
  "maxTruncate = 200"

definition truncate_msg :: "string \<Rightarrow> string" where
  "truncate_msg s = (if length s \<le> maxTruncate then s else take maxTruncate s @ ''...'')"

definition fetchViaOxBrowser ::
  "'w fetch_env \<Rightarrow> duration \<Rightarrow> string \<Rightarrow> Fetcher \<Rightarrow> 'w \<Rightarrow> string result \<times> 'w" where
  "fetchViaOxBrowser E ctxTimeout pageURL f w =
     (case env_marshal E (oxFetchRequest pageURL (oxBrowserTimeout div second)) of
        Inl err \<Rightarrow> (Inl (ErrWrap ''ox-browser marshal'' err), w)
      | Inr payload \<Rightarrow>
      (case env_newRequest E (oxBrowserURL f @ ''/fetch'') of
        Some err \<Rightarrow> (Inl (ErrWrap ''ox-browser request'' err), w)
      | None \<Rightarrow>
      (case env_svcauth E (oxBrowserURL f) of
        Some err \<Rightarrow> (Inl (ErrWrap ''ox-browser svcauth'' err), w)
      | None \<Rightarrow>
      (case env_post E (min ctxTimeout (oxBrowserTimeout + 5 * second)) (oxBrowserURL f @ ''/fetch'') payload w of
        (Inl err, w1) \<Rightarrow> (Inl (ErrWrap ''ox-browser call'' err), w1)
      | (Inr resp, w1) \<Rightarrow>
      (case resp_Body resp of
        Inl err \<Rightarrow> (Inl (ErrWrap ''ox-browser read'' err), w1)
      | Inr respBody \<Rightarrow>
          if StatusCode resp \<noteq> 200
          then (let generic = truncate_msg respBody;
                    msg = (case env_decodeOx E respBody of
                             Inr er \<Rightarrow> if ox_Error er \<noteq> '''' then ox_Error er else generic
                           | Inl _ \<Rightarrow> generic)
                in (Inl (ErrNew (''ox-browser HTTP '' @ Itoa (StatusCode resp) @ '': '' @ msg)), w1))
          else (case env_decodeOx E respBody of
             Inl err \<Rightarrow> (Inl (ErrWrap ''ox-browser parse'' err), w1)
           | Inr res \<Rightarrow>
               if ox_Error res \<noteq> '''' then (Inl (ErrNew (''ox-browser error: '' @ ox_Error res)), w1)
               else if ox_Body res = '''' then (Inl (ErrNew ''ox-browser: empty response''), w1)
               else (Inr (ox_Body res), w1)))))))"

definition fetchViaGoBrowser ::
  "'w fetch_env \<Rightarrow> duration \<Rightarrow> string \<Rightarrow> Fetcher \<Rightarrow> 'w \<Rightarrow> string result \<times> 'w" where
  "fetchViaGoBrowser E ctxTimeout pageURL f w =
     (case env_marshal E (goBrowserRenderRequest pageURL 60) of
        Inl err \<Rightarrow> (Inl (ErrWrap ''go-browser marshal'' err), w)
      | Inr payload \<Rightarrow>
      (case env_newRequest E (goBrowserURL f @ ''/render'') of
        Some err \<Rightarrow> (Inl (ErrWrap ''go-browser request'' err), w)
      | None \<Rightarrow>
      (case env_post E (min ctxTimeout goBrowserTimeout) (goBrowserURL f @ ''/render'') payload w of
        (Inl err, w1) \<Rightarrow> (Inl (ErrWrap ''go-browser call'' err), w1)
      | (Inr resp, w1) \<Rightarrow>
      (case resp_Body resp of
        Inl err \<Rightarrow> (Inl (ErrWrap ''go-browser read'' err), w1)
      | Inr respBody \<Rightarrow>
          if StatusCode resp \<noteq> 200
          then (Inl (ErrNew (''go-browser HTTP '' @ Itoa (StatusCode resp) @ '': '' @ truncate_msg respBody)), w1)
          else (case env_decodeGo E respBody of
             Inl err \<Rightarrow> (Inl (ErrWrap ''go-browser parse'' err), w1)
           | Inr res \<Rightarrow>
               if gb_Error res \<noteq> '''' then (Inl (ErrNew (''go-browser error: '' @ gb_Error res)), w1)
               else if gb_HTML res = '''' then (Inl (ErrNew ''go-browser: empty response''), w1)
               else (Inr (gb_HTML res), w1))))))"

definition fetchViaByparr ::
  "'w fetch_env \<Rightarrow> duration \<Rightarrow> string \<Rightarrow> Fetcher \<Rightarrow> 'w \<Rightarrow> string result \<times> 'w" where
  "fetchViaByparr E ctxTimeout pageURL f w =
     (case env_marshal E (byparrRequest ''request.get'' pageURL (byparrTimeout div 1000000)) of
        Inl err \<Rightarrow> (Inl (ErrWrap ''byparr marshal'' err), w)
      | Inr payload \<Rightarrow>
      (case env_newRequest E (byparrURL f @ ''/v1'') of
        Some err \<Rightarrow> (Inl (ErrWrap ''byparr request'' err), w)
      | None \<Rightarrow>
      (case env_post E (min ctxTimeout byparrTimeout) (byparrURL f @ ''/v1'') payload w of
        (Inl err, w1) \<Rightarrow> (Inl (ErrWrap ''byparr call'' err), w1)
      | (Inr resp, w1) \<Rightarrow>
      (case resp_Body resp of
        Inl err \<Rightarrow> (Inl (ErrWrap ''byparr read'' err), w1)
      | Inr respBody \<Rightarrow>
          if StatusCode resp \<noteq> 200
          then (Inl (ErrNew (''byparr HTTP '' @ Itoa (StatusCode resp) @ '': '' @ truncate_msg respBody)), w1)
          else (case env_decodeByparr E respBody of
             Inl err \<Rightarrow> (Inl (ErrWrap ''byparr parse'' err), w1)
           | Inr res \<Rightarrow>
               if bp_Status res \<noteq> ''ok'' then (Inl (ErrNew (''byparr error: '' @ bp_Message res)), w1)
               else (case bp_Solution res of
                       None \<Rightarrow> (Inl (ErrNew ''byparr: empty response''), w1)
                     | Some html \<Rightarrow>
                         if html = '''' then (Inl (ErrNew ''byparr: empty response''), w1)
                         else (Inr html, w1)))))))"

definition hasFallback :: "Fetcher \<Rightarrow> bool" where
  "hasFallback f \<longleftrightarrow> oxBrowserURL f \<noteq> '''' \<or> goBrowserURL f \<noteq> '''' \<or> byparrURL f \<noteq> ''''"

text \<open>\<open>tryFallbacks\<close>: a successful result passes through; a failed one goes
  through ox-browser, go-browser and Byparr, the latter two only while the
  context lives.\<close>

definition try_byparr ::
  "'w fetch_env \<Rightarrow> string \<Rightarrow> Fetcher \<Rightarrow> go_error \<Rightarrow> 'w \<Rightarrow> string result \<times> 'w" where
  "try_byparr E url f err w =
     (if byparrURL f = '''' then (Inl err, w)
      else if env_ctxErr E w \<noteq> None then (Inl err, w)
      else case fetchViaByparr E (childTimeout (env_now E w) (env_deadline E) byparrTimeout) url f w of
             (Inr fallback, w1) \<Rightarrow> (Inr fallback, w1)
           | (Inl _, w1) \<Rightarrow> (Inl err, w1))"

definition try_gobrowser ::
  "'w fetch_env \<Rightarrow> string \<Rightarrow> Fetcher \<Rightarrow> go_error \<Rightarrow> 'w \<Rightarrow> string result \<times> 'w" where
  "try_gobrowser E url f err w =
     (if goBrowserURL f = '''' then try_byparr E url f err w
      else if env_ctxErr E w \<noteq> None then (Inl err, w)
      else case fetchViaGoBrowser E (childTimeout (env_now E w) (env_deadline E) goBrowserTimeout) url f w of
             (Inr fallback, w1) \<Rightarrow> (Inr fallback, w1)
           | (Inl _, w1) \<Rightarrow> try_byparr E url f err w1)"

definition tryFallbacks ::
  "'w fetch_env \<Rightarrow> string \<Rightarrow> Fetcher \<Rightarrow> string result \<Rightarrow> 'w \<Rightarrow> string result \<times> 'w" where
  "tryFallbacks E url f r w =
     (case r of
        Inr body \<Rightarrow> (Inr body, w)
      | Inl err \<Rightarrow>
          if oxBrowserURL f = '''' then try_gobrowser E url f err w
          else case fetchViaOxBrowser E
                      (childTimeout (env_now E w) (env_deadline E) (oxBrowserTimeout + 5 * second)) url f w of
                 (Inr fallback, w1) \<Rightarrow> (Inr fallback, w1)
               | (Inl _, w1) \<Rightarrow> try_gobrowser E url f err w1)"

definition should_retry :: "instant \<Rightarrow> string \<Rightarrow> Fetcher \<Rightarrow> bool \<times> Fetcher" where
  "should_retry now url f =
     (case retryTracker f of
        None \<Rightarrow> (True, f)
      | Some t \<Rightarrow> (let (b, t1) = ShouldRetry now url t in (b, f\<lparr>retryTracker := Some t1\<rparr>)))"

definition record_outcome :: "instant \<Rightarrow> string \<Rightarrow> string result \<Rightarrow> Fetcher \<Rightarrow> Fetcher" where
  "record_outcome now url r f =
     (case retryTracker f of
        None \<Rightarrow> f
      | Some t \<Rightarrow> f\<lparr>retryTracker := Some (case r of
            Inl err \<Rightarrow> RecordAttempt now url err t
          | Inr _ \<Rightarrow> RecordSuccess url t)\<rparr>)"

definition FetchBodyWithHeaders ::
  "'w fetch_env \<Rightarrow> string \<Rightarrow> headers \<Rightarrow> Fetcher \<Rightarrow> 'w \<Rightarrow> string result \<times> Fetcher \<times> 'w" where
  "FetchBodyWithHeaders E url extra f w =
     (let (retry, f) = should_retry (env_now E w) url f;
          perm = (\<not> retry)
      in if perm \<and> \<not> hasFallback f then (Inl ErrPermanentlyFailed, f, w)
         else
           let (r, f, w) = fetchPrimaryWithHeaders E url perm extra f w;
               (r, w) = tryFallbacks E url f r w
           in (r, record_outcome (env_now E w) url r f, w))"

definition FetchBody :: "'w fetch_env \<Rightarrow> string \<Rightarrow> Fetcher \<Rightarrow> 'w \<Rightarrow> string result \<times> Fetcher \<times> 'w" where
  "FetchBody E url f w = FetchBodyWithHeaders E url [] f w"

definition HasProxy :: "Fetcher \<Rightarrow> bool" where
  "HasProxy f \<longleftrightarrow> proxyClient f \<noteq> NoClient"

subsection \<open>Tier routing\<close>

text \<open>What does not read the direct client.\<close>

lemma env_direct_frame:
  "env_ctxErr (E\<lparr>env_direct := d\<rparr>) = env_ctxErr E"
  "env_backoff (E\<lparr>env_direct := d\<rparr>) = env_backoff E"
  "env_proxy (E\<lparr>env_direct := d\<rparr>) = env_proxy E"
  "env_newRequest (E\<lparr>env_direct := d\<rparr>) = env_newRequest E"
  "env_randomUA (E\<lparr>env_direct := d\<rparr>) = env_randomUA E"
  "env_http (E\<lparr>env_direct := d\<rparr>) = env_http E"
  "stealth_headers (E\<lparr>env_direct := d\<rparr>) = stealth_headers E"
  "ReadResponseBody (E\<lparr>env_direct := d\<rparr>) = ReadResponseBody E"
  by (simp_all add: stealth_headers_def ReadResponseBody_def fun_eq_iff)

lemma proxy_ignores_direct:
  "fetchViaProxyOrHTTPWithHeaders (E\<lparr>env_direct := d\<rparr>) url extra f w =
   fetchViaProxyOrHTTPWithHeaders E url extra f w"
  unfolding fetchViaProxyOrHTTPWithHeaders_def fetchViaProxy_def fetchViaHTTP_def RetryHTTP_def
    env_direct_frame by (rule refl)

lemma record_ignores_direct:
  "fetchProxyAndRecordWithHeaders (E\<lparr>env_direct := d\<rparr>) url extra f w =
   fetchProxyAndRecordWithHeaders E url extra f w"
  by (simp add: fetchProxyAndRecordWithHeaders_def proxy_ignores_direct)

lemma hint_host_update [simp]:
  "domain_hint (E\<lparr>env_direct := d\<rparr>) url f = domain_hint E url f"
  "url_host (E\<lparr>env_direct := d\<rparr>) url = url_host E url"
  by (simp_all add: domain_hint_def url_host_def split: option.split)

text \<open>A world for concrete runs: an integer clock, a context that never ends, hosts
  equal to their URLs, no renderers.\<close>

definition lab_env ::
  "(string \<times> headers \<times> int) result \<Rightarrow> (string \<times> headers \<times> int) result \<Rightarrow> int fetch_env" where
  "lab_env d p = \<lparr>env_now = (\<lambda>w. w), env_ctxErr = (\<lambda>_. None), env_deadline = None,
     env_backoff = (\<lambda>_ w. (None, w)), env_parse = (\<lambda>u. Some (u, u)), env_unicode = ascii_tables,
     env_chrome = [], env_randomUA = (\<lambda>w. (''ua'', w)),
     env_direct = (\<lambda>_ _ w. (d, w + 1)), env_proxy = (\<lambda>_ _ w. (p, w + 1)),
     env_newRequest = (\<lambda>_. None), env_http = (\<lambda>_ _ w. (Inl (ErrNew ''http''), w)),
     env_gunzip = (\<lambda>r. r), env_marshal = (\<lambda>_. Inr ''{}''), env_svcauth = (\<lambda>_. None),
     env_post = (\<lambda>_ _ _ w. (Inl (ErrNew ''post''), w)),
     env_decodeOx = (\<lambda>_. Inl (ErrNew ''json'')), env_decodeGo = (\<lambda>_. Inl (ErrNew ''json'')),
     env_decodeByparr = (\<lambda>_. Inl (ErrNew ''json''))\<rparr>"

definition lab_fetcher :: Fetcher where
  "lab_fetcher = empty_fetcher\<lparr>directFirst := True, directClient := Client None, proxyClient := Client None,
     blockCache := Some (NewDirectBlockCache 10 4), proxyFirstDomains := Some [''x.com'']\<rparr>"

text \<open>In direct-first mode a URL under a proxy-first domain, or one whose host is
  in the block cache, never reaches the direct client: the outcome, the
  fetcher's state and the world are the same whatever that client would do.\<close>

theorem proxy_first_skips_direct:
  assumes "domain_hint E url f \<or> fst (is_blocked_host (env_now E w) (url_host E url) f)"
  shows "fetchDirectFirstWithHeaders (E\<lparr>env_direct := d\<rparr>) url extra f w =
    fetchDirectFirstWithHeaders E url extra f w"
  using assms
  by (cases "is_blocked_host (env_now E w) (url_host E url) f")
    (auto simp: fetchDirectFirstWithHeaders_def record_ignores_direct Let_def)

lemma mark_host_cache:
  "blockCache f = Some c \<Longrightarrow> host \<noteq> '''' \<Longrightarrow> blockCache (mark_host now host f) = Some (Mark now host c)"
  by (simp add: mark_host_def record_metric_def Let_def)

lemma record_metric_fields [simp]:
  "blockCache (record_metric e f) = blockCache f"
  "proxyClient (record_metric e f) = proxyClient f"
  "retryTracker (record_metric e f) = retryTracker f"
  "fmetrics (record_metric e f) = fmetrics f @ [e]"
  by (simp_all add: record_metric_def)

lemma record_proxy_cache:
  "blockCache (fst (snd (fetchProxyAndRecordWithHeaders E url extra f w))) = blockCache f"
  "retryTracker (fst (snd (fetchProxyAndRecordWithHeaders E url extra f w))) = retryTracker f"
  by (simp_all add: fetchProxyAndRecordWithHeaders_def split: prod.splits)

lemma is_blocked_host_Some:
  "blockCache f = Some c \<Longrightarrow> fst (is_blocked_host t h f) = fst (IsBlocked t h c)"
  by (cases "IsBlocked t h c") (simp add: is_blocked_host_def)

text \<open>The one place the direct-first strategy is unfolded: neither hint nor cache
  hit, and the direct client answered.\<close>

lemma direct_first_unfold:
  assumes "\<not> domain_hint E url f"
    "is_blocked_host (env_now E w) (url_host E url) f = (False, f1)"
    "fetchDirectRaw E url extra f1 w = ((body, hdrs, status, directErr), w1)"
    "sig = classifyBlock (env_unicode E) status hdrs body directErr"
  shows "fetchDirectFirstWithHeaders E url extra f w =
    (if sig = sigNone then (Inr body, record_metric (incTier ''direct'' ''ok'') f1, w1)
     else let f2 = mark_host (env_now E w1) (url_host E url) (record_metric (incBlockSignal (label sig)) f1)
       in if proxyClient f2 \<noteq> NoClient
          then fetchProxyAndRecordWithHeaders E url extra (record_metric (incEscalation (label sig)) f2) w1
          else if sig = sigSoft then (Inr body, f2, w1)
          else (Inl (case directErr of Some e \<Rightarrow> e | None \<Rightarrow> HttpStatusError status), f2, w1))"
  using assms classify_TLS_iff[of "env_unicode E" status hdrs body directErr]
  by (cases directErr) (auto simp: fetchDirectFirstWithHeaders_def Let_def)

text \<open>C26: When the direct response carries a block signal, its host is in the block
  cache afterwards and stays blocked for the cache's TTL, so further direct
  attempts to it are skipped for that time.\<close>

theorem block_signal_marks_host:
  assumes "\<not> domain_hint E url f" "blockCache f = Some c"
    "\<not> fst (IsBlocked (env_now E w) (url_host E url) c)" "url_host E url \<noteq> ''''"
    "fetchDirectRaw E url extra (snd (is_blocked_host (env_now E w) (url_host E url) f)) w
       = ((body, hdrs, status, directErr), w1)"
    "classifyBlock (env_unicode E) status hdrs body directErr \<noteq> sigNone"
    "env_now E w1 \<le> t" "t \<le> env_now E w1 + ttl c"
  shows "fst (is_blocked_host t (url_host E url)
    (fst (snd (fetchDirectFirstWithHeaders E url extra f w))))"
proof -
  let ?h = "url_host E url"
  define c1 where "c1 = snd (IsBlocked (env_now E w) ?h c)"
  define f1 where "f1 = f\<lparr>blockCache := Some c1\<rparr>"
  have ib: "is_blocked_host (env_now E w) ?h f = (False, f1)"
    using assms(2,3) by (cases "IsBlocked (env_now E w) ?h c") (simp add: is_blocked_host_def f1_def c1_def)
  have ttl1: "ttl c1 = ttl c" by (simp add: c1_def dbc.window_blocked)
  have raw: "fetchDirectRaw E url extra f1 w = ((body, hdrs, status, directErr), w1)"
    using assms(5) ib by simp
  have "blockCache (fst (snd (fetchDirectFirstWithHeaders E url extra f w))) = Some (Mark (env_now E w1) ?h c1)"
    using direct_first_unfold[OF assms(1) ib raw refl] assms(4,6)
      mark_host_cache[of "record_metric e f1" c1 ?h "env_now E w1" for e]
    by (simp add: Let_def f1_def record_proxy_cache)
  then show ?thesis
    using dbc.blocked_after_mark[of "env_now E w1" t c1 ?h] assms(7,8) ttl1
    by (simp add: is_blocked_host_Some)
qed

text \<open>With no block signal the direct tier hands the body to the caller as a
  success whatever the status code: a 404 or 500 page is returned as if it were
  the document.  The proxy tier turns the same response into an
  \<open>HttpStatusError\<close>.\<close>

theorem direct_tier_accepts_error_page:
  assumes "\<not> domain_hint E url f" "\<not> fst (is_blocked_host (env_now E w) (url_host E url) f)"
    "directClient f \<noteq> NoClient" "env_direct E url (stealth_headers E (directClient f) extra) w = (Inr (body, [], status), w1)"
    "status \<notin> {200, 401, 403, 429, 503}" "list_all (\<lambda>m. \<not> Contains (ToLower (env_unicode E) body) m) block_markers"
    "env_ctxErr E w = None" "0 \<le> maxRetries f" "\<not> IsRetryableStatus status"
    "env_proxy E url (stealth_headers E (proxyClient f) extra) w = (Inr (body, [], status), w1)"
  shows "fst (fetchDirectFirstWithHeaders E url extra f w) = Inr body
    \<and> fst (fetchViaProxy E url extra f w) = Inl (HttpStatusError status)"
proof
  obtain f1 where ib: "is_blocked_host (env_now E w) (url_host E url) f = (False, f1)"
    and dc: "directClient f1 = directClient f"
    using assms(2) by (auto simp: is_blocked_host_def split: option.splits prod.splits)
  have raw: "fetchDirectRaw E url extra f1 w = ((body, [], status, None), w1)"
    using assms(3,4) dc by (simp add: fetchDirectRaw_def)
  have get: "header_Get [] k = ''''" for k by (simp add: header_Get_def)
  have "classifyBlock (env_unicode E) status [] body None = sigNone"
    using assms(5,6) by (simp add: classifyBlock_def Let_def get block_markers_def)
  with direct_first_unfold[OF assms(1) ib raw refl]
  show "fst (fetchDirectFirstWithHeaders E url extra f w) = Inr body" by simp
  have "\<not> IsRetryable (HttpStatusError status)" using assms(9) by (simp add: IsRetryable_def)
  then show "fst (fetchViaProxy E url extra f w) = Inl (HttpStatusError status)"
    using assms(5,7,8,10) by (simp add: fetchViaProxy_def RetryDo_def retry_loop_permanent)
qed

lemmas lab_simps = lab_env_def lab_fetcher_def empty_fetcher_def domain_hint_def url_host_def
  is_blocked_host_def NewDirectBlockCache_def IsBlocked_def MatchURL_def match_walk.simps

lemma lab_hint:
  "domain_hint (lab_env d p) ''x.com'' lab_fetcher"
  "\<not> domain_hint (lab_env d p) ''ab'' lab_fetcher"
  by (simp_all add: lab_simps ToLower_def is_ascii_def lower_byte_def IndexByte_def)

theorem proxy_first_skips_direct_witness:
  "fetchDirectFirstWithHeaders
     ((lab_env (Inl Canceled) (Inr (''ok'', [], 200)))\<lparr>env_direct := (\<lambda>_ _ w. (Inl DeadlineExceeded, w + 7))\<rparr>)
     ''x.com'' [] lab_fetcher 0
   = fetchDirectFirstWithHeaders (lab_env (Inl Canceled) (Inr (''ok'', [], 200))) ''x.com'' [] lab_fetcher 0"
  by (rule proxy_first_skips_direct) (simp add: lab_hint)

theorem block_signal_marks_host_witness:
  "fst (is_blocked_host 5 (url_host (lab_env (Inr ('''', [], 403)) (Inl Canceled)) ''ab'')
     (fst (snd (fetchDirectFirstWithHeaders (lab_env (Inr ('''', [], 403)) (Inl Canceled)) ''ab'' [] lab_fetcher 0))))"
  by (rule block_signal_marks_host[where c = "NewDirectBlockCache 10 4" and body = "''''" and hdrs = "[]"
        and status = 403 and directErr = None and ?w1.0 = 1])
    (simp_all add: lab_hint(2), simp_all add: lab_simps fetchDirectRaw_def stealth_headers_def classifyBlock_def)

theorem direct_tier_accepts_error_page_witness:
  "fst (fetchDirectFirstWithHeaders (lab_env (Inr (''gone'', [], 404)) (Inr (''gone'', [], 404))) ''ab'' [] lab_fetcher 0)
     = Inr ''gone''
   \<and> fst (fetchViaProxy (lab_env (Inr (''gone'', [], 404)) (Inr (''gone'', [], 404))) ''ab'' [] lab_fetcher 0)
     = Inl (HttpStatusError 404)"
  by (rule direct_tier_accepts_error_page[where status = 404 and ?w1.0 = 1])
    (simp_all add: lab_hint(2), simp_all add: lab_simps IsRetryableStatus_def block_markers_def Contains_def
      ToLower_def is_ascii_def lower_byte_def)

subsection \<open>Fallbacks and the retry tracker\<close>

text \<open>Every renderer answers with a non-empty page or an error.\<close>

lemma renderers_nonempty:
  "fetchViaOxBrowser E t url f w = (Inr b, w') \<Longrightarrow> b \<noteq> ''''"
  "fetchViaGoBrowser E t url f w = (Inr b, w') \<Longrightarrow> b \<noteq> ''''"
  "fetchViaByparr E t url f w = (Inr b, w') \<Longrightarrow> b \<noteq> ''''"
  by (auto simp: fetchViaOxBrowser_def fetchViaGoBrowser_def fetchViaByparr_def Let_def
      split: sum.splits option.splits prod.splits if_splits)

lemma try_byparr_result:
  "try_byparr E url f err w = (r, w') \<Longrightarrow> r = Inl err \<or> (\<exists>b. r = Inr b \<and> b \<noteq> '''' \<and> byparrURL f \<noteq> '''')"
  by (auto simp: try_byparr_def split: if_splits sum.splits prod.splits dest: renderers_nonempty(3))

lemma try_gobrowser_result:
  assumes "try_gobrowser E url f err w = (r, w')"
  shows "r = Inl err \<or> (\<exists>b. r = Inr b \<and> b \<noteq> '''' \<and> (goBrowserURL f \<noteq> '''' \<or> byparrURL f \<noteq> ''''))"
  using assms
  by (auto simp: try_gobrowser_def split: if_splits sum.splits prod.splits
      dest: renderers_nonempty(2) try_byparr_result)

lemma tryFallbacks_keeps_error: "tryFallbacks E url f (Inl err) w = (Inl e, w') \<Longrightarrow> e = err"
  by (auto simp: tryFallbacks_def split: if_splits sum.splits prod.splits dest: try_gobrowser_result)

text \<open>The fallback chain never invents a result: a successful primary fetch passes
  unchanged and without any call; a failed one either keeps its own error or
  becomes a non-empty page of a configured renderer.\<close>

theorem tryFallbacks_result:
  "tryFallbacks E url f (Inr body) w = (Inr body, w)
   \<and> (fst (tryFallbacks E url f (Inl err) w) = Inl err
      \<or> (\<exists>b. fst (tryFallbacks E url f (Inl err) w) = Inr b \<and> b \<noteq> '''' \<and> hasFallback f))"
proof -
  obtain r w' where t: "tryFallbacks E url f (Inl err) w = (r, w')" by (cases "tryFallbacks E url f (Inl err) w")
  then have "r = Inl err \<or> (\<exists>b. r = Inr b \<and> b \<noteq> '''' \<and> hasFallback f)"
    by (auto simp: tryFallbacks_def hasFallback_def split: if_splits sum.splits prod.splits
        dest: renderers_nonempty(1) try_gobrowser_result)
  with t show ?thesis by (auto simp: tryFallbacks_def)
qed

lemma mark_host_tracker [simp]: "retryTracker (mark_host now h f) = retryTracker f"
  by (simp add: mark_host_def Let_def split: option.split)

lemma is_blocked_host_tracker: "is_blocked_host now h f = (b, f1) \<Longrightarrow> retryTracker f1 = retryTracker f"
  by (auto simp: is_blocked_host_def split: option.splits prod.splits)

lemma direct_first_tracker:
  "retryTracker (fst (snd (fetchDirectFirstWithHeaders E url extra f w))) = retryTracker f"
proof (cases "domain_hint E url f")
  case True
  then show ?thesis by (simp add: fetchDirectFirstWithHeaders_def record_proxy_cache)
next
  case False
  obtain b f1 where ib: "is_blocked_host (env_now E w) (url_host E url) f = (b, f1)"
    by (cases "is_blocked_host (env_now E w) (url_host E url) f")
  note tr = is_blocked_host_tracker[OF ib]
  show ?thesis
  proof (cases b)
    case True
    with False ib tr show ?thesis by (simp add: fetchDirectFirstWithHeaders_def record_proxy_cache Let_def)
  next
    case nb: False
    obtain body hdrs st e w1 where raw: "fetchDirectRaw E url extra f1 w = ((body, hdrs, st, e), w1)"
      by (cases "fetchDirectRaw E url extra f1 w") auto
    have ib0: "is_blocked_host (env_now E w) (url_host E url) f = (False, f1)" using ib nb by simp
    show ?thesis using tr
      by (simp add: direct_first_unfold[OF False ib0 raw refl] record_proxy_cache Let_def)
  qed
qed

lemma primary_tracker:
  "retryTracker (fst (snd (fetchPrimaryWithHeaders E url p extra f w))) = retryTracker f"
  by (simp add: fetchPrimaryWithHeaders_def direct_first_tracker split: prod.split)

lemma should_retry_Some:
  "retryTracker f = Some t \<Longrightarrow>
   should_retry now url f = (fst (ShouldRetry now url t), f\<lparr>retryTracker := Some (snd (ShouldRetry now url t))\<rparr>)"
  by (cases "ShouldRetry now url t") (simp add: should_retry_def)

text \<open>The shape of a fetch with a tracker: the outcome is recorded in the tracker the
  query left.\<close>

lemma FetchBody_tracker:
  assumes "retryTracker f = Some t" "ShouldRetry (env_now E w) url t = (ok, t1)"
    "ok \<or> hasFallback f" "FetchBodyWithHeaders E url extra f w = (r, f', w')"
  shows "retryTracker f' = Some (case r of Inl err \<Rightarrow> RecordAttempt (env_now E w') url err t1
     | Inr _ \<Rightarrow> RecordSuccess url t1)"
proof -
  define f0 where "f0 = f\<lparr>retryTracker := Some t1\<rparr>"
  have sr: "should_retry (env_now E w) url f = (ok, f0)"
    using assms(1,2) should_retry_Some[OF assms(1)] by (simp add: f0_def)
  have hf: "hasFallback f0 = hasFallback f" by (simp add: f0_def hasFallback_def)
  obtain r1 f1 w1 where p: "fetchPrimaryWithHeaders E url (\<not> ok) extra f0 w = (r1, f1, w1)"
    by (cases "fetchPrimaryWithHeaders E url (\<not> ok) extra f0 w") auto
  obtain r2 w2 where b: "tryFallbacks E url f1 r1 w1 = (r2, w2)" by (cases "tryFallbacks E url f1 r1 w1")
  have "FetchBodyWithHeaders E url extra f w = (r2, record_outcome (env_now E w2) url r2 f1, w2)"
    using assms(3) sr p b hf by (auto simp: FetchBodyWithHeaders_def)
  moreover have "retryTracker f1 = Some t1"
    using primary_tracker[of E url "\<not> ok" extra f0 w] p by (simp add: f0_def)
  ultimately show ?thesis using assms(4) by (auto simp: record_outcome_def split: sum.split)
qed

text \<open>With a retry tracker, a URL the tracker refuses and no renderer configured
  fails at once with \<open>ErrPermanentlyFailed\<close> and nothing is sent; otherwise
  a failed fetch counts one more attempt and a successful one clears the URL's
  history, so that the next fetch is allowed.\<close>

theorem FetchBody_records_outcome:
  assumes "retryTracker f = Some t" "FetchBodyWithHeaders E url extra f w = (r, f', w')"
  shows "if \<not> fst (ShouldRetry (env_now E w) url t) \<and> \<not> hasFallback f
    then r = Inl ErrPermanentlyFailed \<and> w' = w \<and> fmetrics f' = fmetrics f
    else (case r of
        Inr _ \<Rightarrow> \<exists>t'. retryTracker f' = Some t' \<and> map_of (entries t') url = None
      | Inl err \<Rightarrow> \<exists>t' e. retryTracker f' = Some t' \<and> map_of (entries t') url = Some e
          \<and> attempts e = (case map_of (entries (snd (ShouldRetry (env_now E w) url t))) url of
                            None \<Rightarrow> 0 | Some e0 \<Rightarrow> attempts e0) + 1
          \<and> permanent e = isPermanentError err)"
proof -
  obtain ok t1 where sr: "ShouldRetry (env_now E w) url t = (ok, t1)"
    by (cases "ShouldRetry (env_now E w) url t")
  show ?thesis
  proof (cases "ok \<or> hasFallback f")
    case True
    from FetchBody_tracker[OF assms(1) sr True assms(2)] show ?thesis using True sr
      by (auto simp: RecordSuccess_def delete_conv' RecordAttempt_lookup split: sum.split)
  next
    case False
    have "should_retry (env_now E w) url f = (False, f\<lparr>retryTracker := Some t1\<rparr>)"
      using should_retry_Some[OF assms(1), of "env_now E w" url] sr False by simp
    moreover have "\<not> hasFallback (f\<lparr>retryTracker := Some t1\<rparr>)" using False by (simp add: hasFallback_def)
    ultimately have "FetchBodyWithHeaders E url extra f w = (Inl ErrPermanentlyFailed, f\<lparr>retryTracker := Some t1\<rparr>, w)"
      by (simp add: FetchBodyWithHeaders_def)
    then show ?thesis using assms(2) False sr by auto
  qed
qed

theorem FetchBody_records_outcome_witness:
  "let f = lab_fetcher\<lparr>retryTracker := Some (NewRetryTracker 2 100)\<rparr>;
       (r, f', w') = FetchBodyWithHeaders (lab_env (Inr ('''', [], 403)) (Inr (''page'', [], 200))) ''ab'' [] f 0
   in if \<not> fst (ShouldRetry 0 ''ab'' (NewRetryTracker 2 100)) \<and> \<not> hasFallback f
      then r = Inl ErrPermanentlyFailed
      else (case r of Inr _ \<Rightarrow> \<exists>t'. retryTracker f' = Some t' \<and> map_of (entries t') ''ab'' = None | Inl _ \<Rightarrow> True)"
proof -
  let ?f = "lab_fetcher\<lparr>retryTracker := Some (NewRetryTracker 2 100)\<rparr>"
  let ?E = "lab_env (Inr ('''', [], 403)) (Inr (''page'', [], 200))"
  obtain r f' w' where e: "FetchBodyWithHeaders ?E ''ab'' [] ?f 0 = (r, f', w')"
    by (cases "FetchBodyWithHeaders ?E ''ab'' [] ?f 0") auto
  have now: "env_now ?E 0 = 0" by (simp add: lab_env_def)
  have "retryTracker ?f = Some (NewRetryTracker 2 100)" by simp
  from FetchBody_records_outcome[OF this e] show ?thesis
    unfolding e Let_def now by (auto split: if_splits sum.splits)
qed

text \<open>A URL that failed permanently (a 404, say) loses that mark when a renderer is
  configured and fails too: the recorded error is \<open>ErrPermanentlyFailed\<close>,
  which is not one of the permanent HTTP statuses, so the tracker allows the
  primary fetch again as soon as the attempts suffice.\<close>

theorem failed_fallback_unmarks_permanent:
  assumes "retryTracker f = Some t" "map_of (entries t) url = Some e" "permanent e"
    "hasFallback f" "FetchBodyWithHeaders E url extra f w = (Inl err, f', w')"
    "attempts e + 1 < maxAttempts t"
  shows "err = ErrPermanentlyFailed \<and>
    (\<exists>t'. retryTracker f' = Some t' \<and> fst (ShouldRetry (env_now E w') url t'))"
proof -
  have sr: "ShouldRetry (env_now E w) url t = (False, t)" using assms(2,3) by (simp add: ShouldRetry_def)
  have f0: "f\<lparr>retryTracker := Some t\<rparr> = f" using assms(1) by simp
  have "should_retry (env_now E w) url f = (False, f)"
    using should_retry_Some[OF assms(1)] sr f0 by simp
  then have "\<exists>w2. tryFallbacks E url f (Inl ErrPermanentlyFailed) w = (Inl err, w2)"
    using assms(4,5) by (auto simp: FetchBodyWithHeaders_def fetchPrimaryWithHeaders_def split: prod.splits)
  then have err: "err = ErrPermanentlyFailed"
    using tryFallbacks_keeps_error[of E url f ErrPermanentlyFailed w] by auto
  have "retryTracker f' = Some (RecordAttempt (env_now E w') url err t)"
    using FetchBody_tracker[OF assms(1) sr _ assms(5)] assms(4) by simp
  moreover have "fst (ShouldRetry (env_now E w') url (RecordAttempt (env_now E w') url err t))"
    using assms(2,6) by (simp add: ShouldRetry_def RecordAttempt_lookup err isPermanentError_def)
      (simp add: RecordAttempt_def Let_def)
  ultimately show ?thesis using err by simp
qed

theorem failed_fallback_unmarks_permanent_witness:
  "\<exists>t'. retryTracker (fst (snd (FetchBodyWithHeaders (lab_env (Inl Canceled) (Inl Canceled)) ''ab'' []
      (lab_fetcher\<lparr>oxBrowserURL := ''http://ox'', retryTracker := Some \<lparr>entries =
        [(''ab'', \<lparr>attempts = 1, lastAttempt = 0, permanent = True\<rparr>)], rt_ttl = 100, maxAttempts = 3\<rparr>\<rparr>) 0))) = Some t'
     \<and> fst (ShouldRetry 0 ''ab'' t')"
proof -
  let ?t = "\<lparr>entries = [(''ab'', \<lparr>attempts = 1, lastAttempt = 0, permanent = True\<rparr>)], rt_ttl = 100, maxAttempts = 3\<rparr>"
  let ?f = "lab_fetcher\<lparr>oxBrowserURL := ''http://ox'', retryTracker := Some ?t\<rparr>"
  let ?E = "lab_env (Inl Canceled) (Inl Canceled)"
  obtain f' where e: "FetchBodyWithHeaders ?E ''ab'' [] ?f 0 = (Inl ErrPermanentlyFailed, f', 0)"
    by (simp add: FetchBodyWithHeaders_def should_retry_def ShouldRetry_def hasFallback_def
        fetchPrimaryWithHeaders_def tryFallbacks_def fetchViaOxBrowser_def try_gobrowser_def try_byparr_def
        lab_env_def lab_fetcher_def empty_fetcher_def)
  have "env_now ?E 0 = 0" by (simp add: lab_env_def)
  with failed_fallback_unmarks_permanent[of ?f ?t "''ab''" _ ?E "[]" 0, OF _ _ _ _ e] show ?thesis
    by (simp add: e hasFallback_def)
qed

text \<open>A direct request that ends because its caller cancelled it is classified like
  an anti-bot reset: the host is marked, and for the TTL every other caller is
  sent to the proxy although the host never blocked anything.\<close>

theorem cancelled_request_marks_host:
  assumes "\<not> domain_hint E url f" "blockCache f = Some c" "directClient f \<noteq> NoClient"
    "\<not> fst (IsBlocked (env_now E w) (url_host E url) c)" "url_host E url \<noteq> ''''"
    "env_direct E url (stealth_headers E (directClient f) extra) w = (Inl Canceled, w1)"
    "0 \<le> ttl c"
  shows "fst (is_blocked_host (env_now E w1) (url_host E url)
    (fst (snd (fetchDirectFirstWithHeaders E url extra f w))))"
proof -
  let ?c1 = "snd (IsBlocked (env_now E w) (url_host E url) c)"
  let ?f1 = "f\<lparr>blockCache := Some ?c1\<rparr>"
  have ib: "is_blocked_host (env_now E w) (url_host E url) f = (False, ?f1)"
    using assms(2,4) by (cases "IsBlocked (env_now E w) (url_host E url) c") (simp add: is_blocked_host_def)
  have raw: "fetchDirectRaw E url extra ?f1 w = (('''', [], 0, Some Canceled), w1)"
    using assms(3,6) by (simp add: fetchDirectRaw_def)
  have sig: "classifyBlock (env_unicode E) 0 [] '''' (Some Canceled) = sigTLS"
    by (simp add: classifyBlock_def)
  have "blockCache (fst (snd (fetchDirectFirstWithHeaders E url extra f w)))
      = Some (Mark (env_now E w1) (url_host E url) ?c1)"
    using direct_first_unfold[OF assms(1) ib raw refl] assms(5) sig
      mark_host_cache[of "record_metric e ?f1" ?c1 "url_host E url" "env_now E w1" for e]
    by (simp add: Let_def record_proxy_cache)
  then show ?thesis
    using dbc.blocked_after_mark[of "env_now E w1" "env_now E w1" ?c1 "url_host E url"] assms(7)
    by (simp add: is_blocked_host_Some dbc.window_blocked)
qed

theorem cancelled_request_marks_host_witness:
  "fst (is_blocked_host 1 ''ab''
     (fst (snd (fetchDirectFirstWithHeaders (lab_env (Inl Canceled) (Inr (''p'', [], 200))) ''ab'' [] lab_fetcher 0))))"
proof -
  let ?E = "lab_env (Inl Canceled) (Inr (''p'', [], 200))"
  have "url_host ?E ''ab'' = ''ab''" "env_now ?E 1 = 1" by (simp_all add: lab_env_def url_host_def)
  moreover have "env_direct ?E ''ab'' h 0 = (Inl Canceled, 1)" for h by (simp add: lab_env_def)
  moreover have "blockCache lab_fetcher = Some (NewDirectBlockCache 10 4)" "directClient lab_fetcher \<noteq> NoClient"
    by (simp_all add: lab_fetcher_def)
  ultimately show ?thesis
    using cancelled_request_marks_host[OF lab_hint(2)[of "Inl Canceled" "Inr (''p'', [], 200)"],
        of "NewDirectBlockCache 10 4" 0 "[]" 1]
    by (simp add: IsBlocked_def NewDirectBlockCache_def)
qed

subsection \<open>Headers and construction\<close>

lemma merge_extra_last:
  "map_of (merge_extra U (extra @ [(k, v)]) h) (ToLower U k) = Some v"
  by (simp add: merge_extra_def update_conv')

lemma stealth_headers_override:
  "map_of (stealth_headers E c (extra @ [(k, v)])) (ToLower (env_unicode E) k) = Some v"
  by (simp add: stealth_headers_def merge_extra_last Let_def)

lemma stealth_headers_ua:
  "map_of (stealth_headers E (Client (Some ua)) []) ''user-agent'' = Some ua"
  by (simp add: stealth_headers_def merge_extra_def update_conv')

definition cache_ok :: "Fetcher \<Rightarrow> bool" where
  "cache_ok f \<longleftrightarrow> (case blockCache f of None \<Rightarrow> True | Some c \<Rightarrow> bc_wf c)"

lemma cache_ok_option: "cache_ok f \<Longrightarrow> cache_ok (apply_option U opt f)"
  using bc_wf_New[of _ defaultBlockCacheCap]
  by (cases opt) (auto simp: cache_ok_def bc_wf_def split: option.splits)

lemma cache_ok_fold: "cache_ok f \<Longrightarrow> cache_ok (fold (apply_option U) opts f)"
  by (induction opts arbitrary: f) (auto simp: cache_ok_option)

lemma cache_ok_New: "cache_ok (New U p d opts)"
proof -
  have "cache_ok (fold (apply_option U) opts empty_fetcher)"
    by (rule cache_ok_fold) (simp add: cache_ok_def empty_fetcher_def)
  then show ?thesis
    by (auto simp: New_def Let_def cache_ok_def bc_wf_New split: option.splits)
qed

lemma cache_ok_mark: "cache_ok f \<Longrightarrow> cache_ok (mark_host now h f)"
  by (auto simp: cache_ok_def mark_host_def Let_def inv_rules split: option.splits)

lemma cache_ok_query: "cache_ok f \<Longrightarrow> is_blocked_host now h f = (b, f1) \<Longrightarrow> cache_ok f1"
proof (cases "blockCache f")
  case (Some c)
  assume "cache_ok f" "is_blocked_host now h f = (b, f1)"
  with Some bc_wf_IsBlocked[of c now h] show "cache_ok f1"
    by (cases "IsBlocked now h c") (auto simp: cache_ok_def is_blocked_host_def)
qed (auto simp: cache_ok_def is_blocked_host_def)

lemma cache_ok_frame:
  "cache_ok (record_metric e f) = cache_ok f"
  "cache_ok (f\<lparr>retryTracker := t\<rparr>) = cache_ok f"
  "cache_ok (fst (snd (fetchProxyAndRecordWithHeaders E url extra f w))) = cache_ok f"
  by (simp_all add: cache_ok_def record_proxy_cache)

lemma cache_ok_direct_first:
  assumes "cache_ok f"
  shows "cache_ok (fst (snd (fetchDirectFirstWithHeaders E url extra f w)))"
proof (cases "domain_hint E url f")
  case True
  with assms show ?thesis by (simp add: fetchDirectFirstWithHeaders_def cache_ok_frame)
next
  case False
  obtain b f1 where ib: "is_blocked_host (env_now E w) (url_host E url) f = (b, f1)"
    by (cases "is_blocked_host (env_now E w) (url_host E url) f")
  have ok: "cache_ok f1" by (rule cache_ok_query[OF assms ib])
  show ?thesis
  proof (cases b)
    case True
    with False ib ok show ?thesis by (simp add: fetchDirectFirstWithHeaders_def cache_ok_frame Let_def)
  next
    case nb: False
    obtain body hdrs st e w1 where raw: "fetchDirectRaw E url extra f1 w = ((body, hdrs, st, e), w1)"
      by (cases "fetchDirectRaw E url extra f1 w") auto
    have ib0: "is_blocked_host (env_now E w) (url_host E url) f = (False, f1)" using ib nb by simp
    show ?thesis using ok
      by (simp add: direct_first_unfold[OF False ib0 raw refl] cache_ok_frame cache_ok_mark Let_def)
  qed
qed

lemma cache_ok_record: "cache_ok (record_outcome now url r f) = cache_ok f"
  by (simp add: record_outcome_def cache_ok_frame split: option.split)

lemma cache_ok_should_retry: "should_retry now url f = (b, f1) \<Longrightarrow> cache_ok f1 = cache_ok f"
  by (auto simp: should_retry_def cache_ok_frame split: option.splits prod.splits)

lemma cache_ok_primary:
  "cache_ok f \<Longrightarrow> cache_ok (fst (snd (fetchPrimaryWithHeaders E url p extra f w)))"
  by (simp add: fetchPrimaryWithHeaders_def cache_ok_direct_first split: prod.split)

lemma cache_ok_FetchBody:
  assumes "cache_ok f"
  shows "cache_ok (fst (snd (FetchBodyWithHeaders E url extra f w)))"
proof -
  obtain ok f0 where sr: "should_retry (env_now E w) url f = (ok, f0)"
    by (cases "should_retry (env_now E w) url f")
  obtain r1 f1 w1 where p: "fetchPrimaryWithHeaders E url (\<not> ok) extra f0 w = (r1, f1, w1)"
    by (cases "fetchPrimaryWithHeaders E url (\<not> ok) extra f0 w") auto
  have "cache_ok f0" using cache_ok_should_retry[OF sr] assms by simp
  moreover from this have "cache_ok f1" using cache_ok_primary[of f0 E url "\<not> ok" extra w] p by simp
  ultimately show ?thesis using sr p
    by (auto simp: FetchBodyWithHeaders_def cache_ok_record Let_def split: prod.splits)
qed

fun fetch_all :: "'w fetch_env \<Rightarrow> (string \<times> headers) list \<Rightarrow> Fetcher \<Rightarrow> 'w \<Rightarrow> string result list \<times> Fetcher \<times> 'w" where
  "fetch_all E [] f w = ([], f, w)"
| "fetch_all E ((u, x) # us) f w =
     (let (r, f1, w1) = FetchBodyWithHeaders E u x f w;
          (rs, f2, w2) = fetch_all E us f1 w1 in (r # rs, f2, w2))"

text \<open>However a fetcher is configured and whatever sequence of URLs it fetches from
  whatever servers, its block cache stays well-formed and within its capacity.\<close>

theorem fetcher_keeps_cache_invariant:
  "cache_ok (fst (snd (fetch_all E reqs (New U p d opts) w)))"
proof -
  have "cache_ok f \<Longrightarrow> cache_ok (fst (snd (fetch_all E reqs f w)))" for f
  proof (induction E reqs f w rule: fetch_all.induct)
    case (2 E u x us f w)
    obtain r f1 w1 where e: "FetchBodyWithHeaders E u x f w = (r, f1, w1)"
      by (cases "FetchBodyWithHeaders E u x f w") auto
    have "cache_ok f1" using cache_ok_FetchBody[OF 2(2), of E u x w] e by simp
    from 2(1)[OF e[symmetric] refl refl this] e show ?case by (auto split: prod.splits)
  qed simp
  then show ?thesis using cache_ok_New by blast
qed

end
