(* ===== verification/Fetch_Metrics.thy ===== *)
theory Fetch_Metrics
  imports Fetcher Dual_Browser
begin

text \<open>
  The observability of the fetcher: \<open>fetch/metrics.go\<close>, whose counters the direct-first
  strategy writes, the accessors and retry settings of \<open>fetch/fetcher.go\<close>, and the two
  wrappers of \<open>metrics/track.go\<close>.  A fetcher of the model keeps the list of its metric calls;
  the collectors are what the Prometheus implementation makes of that list.
\<close>

subsection \<open>Collectors\<close>

text \<open>A counter vector: the count of each combination of label values that was ever used.\<close>

type_synonym 'k counter_vec = "('k, nat) gomap"

definition vec_value :: "'k \<Rightarrow> 'k counter_vec \<Rightarrow> nat" where
  "vec_value k v = (case map_of v k of Some n \<Rightarrow> n | None \<Rightarrow> 0)"

definition vec_Inc :: "'k \<Rightarrow> 'k counter_vec \<Rightarrow> 'k counter_vec" where
  "vec_Inc k v = AList.update k (vec_value k v + 1) v"

record promTierMetrics =
  tierTotal :: "(string \<times> string) counter_vec"
  blockSignal :: "string counter_vec"
  escalations :: "string counter_vec"
  blockCacheSize :: int

definition collectors :: "string list" where
  "collectors = [''go_engine_fetch_tier_total'', ''go_engine_fetch_block_signal_total'',
     ''go_engine_fetch_proxy_escalations_total'', ''go_engine_fetch_direct_block_cache_hosts'']"

text \<open>\<open>reg\<close> is the registerer: it accepts a collector or refuses it with an error.\<close>

fun register_all :: "(string \<Rightarrow> 'w \<Rightarrow> go_error option \<times> 'w) \<Rightarrow> string list \<Rightarrow> 'w \<Rightarrow> go_error option \<times> 'w" where
  "register_all reg [] w = (None, w)"
| "register_all reg (c # cs) w =
     (case reg c w of (Some e, w1) \<Rightarrow> (Some e, w1) | (None, w1) \<Rightarrow> register_all reg cs w1)"

definition fresh_metrics :: promTierMetrics where
  "fresh_metrics = \<lparr>tierTotal = [], blockSignal = [], escalations = [], blockCacheSize = 0\<rparr>"

definition NewPromMetrics :: "(string \<Rightarrow> 'w \<Rightarrow> go_error option \<times> 'w) \<Rightarrow> 'w \<Rightarrow> promTierMetrics result \<times> 'w" where
  "NewPromMetrics reg w =
     (case register_all reg collectors w of
        (Some e, w1) \<Rightarrow> (Inl e, w1)
      | (None, w1) \<Rightarrow> (Inr fresh_metrics, w1))"

primrec prom_call :: "fm_event \<Rightarrow> promTierMetrics \<Rightarrow> promTierMetrics" where
  "prom_call (incTier tier result) m = m\<lparr>tierTotal := vec_Inc (tier, result) (tierTotal m)\<rparr>"
| "prom_call (incBlockSignal signal) m = m\<lparr>blockSignal := vec_Inc signal (blockSignal m)\<rparr>"
| "prom_call (incEscalation reason) m = m\<lparr>escalations := vec_Inc reason (escalations m)\<rparr>"
| "prom_call (setBlockCacheHosts n) m = m\<lparr>blockCacheSize := n\<rparr>"

definition prom_run :: "fm_event list \<Rightarrow> promTierMetrics \<Rightarrow> promTierMetrics" where
  "prom_run evs m = fold prom_call evs m"

definition noop_call :: "fm_event \<Rightarrow> unit \<Rightarrow> unit" where
  "noop_call e m = m"

text \<open>What the collectors show after a list of calls, in terms of the calls.\<close>

lemma vec_value_Inc: "vec_value k (vec_Inc k' v) = vec_value k v + (if k = k' then 1 else 0)"
  by (simp add: vec_value_def vec_Inc_def update_conv')

lemma prom_run_counts:
  "vec_value (t, r) (tierTotal (prom_run evs m)) = vec_value (t, r) (tierTotal m) + count_list evs (incTier t r)"
  "vec_value s (blockSignal (prom_run evs m)) = vec_value s (blockSignal m) + count_list evs (incBlockSignal s)"
  "vec_value x (escalations (prom_run evs m)) = vec_value x (escalations m) + count_list evs (incEscalation x)"
proof (induction evs arbitrary: m)
  case (Cons e evs)
  {
    case 1 show ?case using Cons(1)[of "prom_call e m"] by (cases e) (simp_all add: prom_run_def vec_value_Inc)
  next
    case 2 show ?case using Cons(2)[of "prom_call e m"] by (cases e) (simp_all add: prom_run_def vec_value_Inc)
  next
    case 3 show ?case using Cons(3)[of "prom_call e m"] by (cases e) (simp_all add: prom_run_def vec_value_Inc)
  }
qed (simp_all add: prom_run_def)

lemma fresh_values [simp]:
  "vec_value k (tierTotal fresh_metrics) = 0" "vec_value s (blockSignal fresh_metrics) = 0"
  "vec_value s (escalations fresh_metrics) = 0"
  by (simp_all add: fresh_metrics_def vec_value_def)

text \<open>A second registration on the same registerer fails, and so does every later one: the
  collectors registered before the refusal stay.\<close>

definition set_registerer :: "string \<Rightarrow> string list \<Rightarrow> go_error option \<times> string list" where
  "set_registerer c w = (if c \<in> set w then (Some (ErrNew ''duplicate metrics collector registration attempted''), w)
     else (None, c # w))"

lemma second_registration_fails:
  "fst (NewPromMetrics set_registerer []) = Inr fresh_metrics"
  "is_ok (fst (NewPromMetrics set_registerer (snd (NewPromMetrics set_registerer [])))) = False"
  by (simp_all add: NewPromMetrics_def collectors_def set_registerer_def)

subsection \<open>What the counters say about the fetches\<close>

text \<open>A sequence of direct-first fetches.\<close>

fun fetch_seq :: "'w fetch_env \<Rightarrow> (string \<times> headers) list \<Rightarrow> Fetcher \<Rightarrow> 'w \<Rightarrow> Fetcher \<times> 'w" where
  "fetch_seq E [] f w = (f, w)"
| "fetch_seq E ((url, extra) # reqs) f w =
     (let (r, f1, w1) = fetchDirectFirstWithHeaders E url extra f w in fetch_seq E reqs f1 w1)"

definition direct_evs :: "fm_event list" where
  "direct_evs = [incTier ''direct'' ''ok'', incTier ''direct'' ''err'']"

definition proxy_evs :: "fm_event list" where
  "proxy_evs = [incTier ''proxy'' ''ok'', incTier ''proxy'' ''err'']"

definition signal_evs :: "fm_event list" where
  "signal_evs = [incBlockSignal ''hard'', incBlockSignal ''soft'', incBlockSignal ''tls'']"

definition skip_evs :: "fm_event list" where
  "skip_evs = [incEscalation ''domain_hint'', incEscalation ''cached'']"

definition blocked_evs :: "fm_event list" where
  "blocked_evs = [incEscalation ''hard'', incEscalation ''soft'', incEscalation ''tls'']"

text \<open>How often calls of a kind occur.\<close>

definition occs :: "fm_event list \<Rightarrow> fm_event list \<Rightarrow> nat" where
  "occs kind evs = sum_list (map (count_list evs) kind)"

lemma occs_append [simp]: "occs k (xs @ ys) = occs k xs + occs k ys"
  by (induction k) (simp_all add: occs_def)

lemma occs_Nil [simp]: "occs k [] = 0"
  by (simp add: occs_def)

text \<open>The books of one or several fetches balance: \<open>n\<close> is their number.\<close>

definition balanced :: "bool \<Rightarrow> nat \<Rightarrow> fm_event list \<Rightarrow> bool" where
  "balanced proxied n evs \<longleftrightarrow>
     occs direct_evs evs + occs signal_evs evs + occs skip_evs evs = n
     \<and> occs proxy_evs evs = occs skip_evs evs + occs blocked_evs evs
     \<and> occs blocked_evs evs = (if proxied then occs signal_evs evs else 0)"

lemma balanced_append: "balanced p m xs \<Longrightarrow> balanced p n ys \<Longrightarrow> balanced p (m + n) (xs @ ys)"
  by (auto simp: balanced_def)

lemmas ev_defs = occs_def direct_evs_def proxy_evs_def signal_evs_def skip_evs_def blocked_evs_def

lemma mark_host_fields [simp]:
  "proxyClient (mark_host t h f) = proxyClient f"
  "\<exists>evs. fmetrics (mark_host t h f) = fmetrics f @ evs \<and> (\<forall>e \<in> set evs. \<exists>n. e = setBlockCacheHosts n)"
  by (auto simp: mark_host_def Let_def split: option.splits)

lemma is_blocked_host_fields:
  "is_blocked_host t h f = (b, f1) \<Longrightarrow> proxyClient f1 = proxyClient f \<and> fmetrics f1 = fmetrics f"
  by (auto simp: is_blocked_host_def split: option.splits prod.splits)

lemma proxy_record_events:
  assumes "fetchProxyAndRecordWithHeaders E url extra f w = (r, f', w')"
  obtains s where "s = ''ok'' \<or> s = ''err''" "fmetrics f' = fmetrics f @ [incTier ''proxy'' s]" "proxyClient f' = proxyClient f"
proof (rule that[of "if is_ok r then ''ok'' else ''err''"])
  show "fmetrics f' = fmetrics f @ [incTier ''proxy'' (if is_ok r then ''ok'' else ''err'')]" "proxyClient f' = proxyClient f"
    using assms by (auto simp: fetchProxyAndRecordWithHeaders_def split: prod.splits)
qed simp

lemma gauge_free:
  "(\<forall>e \<in> set evs. \<exists>n. e = setBlockCacheHosts n) \<Longrightarrow>
   occs direct_evs evs = 0 \<and> occs signal_evs evs = 0 \<and> occs skip_evs evs = 0 \<and> occs proxy_evs evs = 0 \<and> occs blocked_evs evs = 0"
  by (fastforce simp: ev_defs count_list_0_iff)

lemma label_cases: "sig \<noteq> sigNone \<Longrightarrow> label sig \<in> {''hard'', ''soft'', ''tls''}"
  by (cases sig) simp_all


text \<open>The calls of the four ways a fetch can go.\<close>

lemma balanced_skip:
  assumes "x = ''domain_hint'' \<or> x = ''cached''" "s = ''ok'' \<or> s = ''err''"
  shows "balanced p 1 [incEscalation x, incTier ''proxy'' s]"
  using assms by (elim disjE) (simp_all add: balanced_def ev_defs)

lemma balanced_direct:
  assumes "s = ''ok'' \<or> s = ''err''"
  shows "balanced p 1 [incTier ''direct'' s]"
  using assms by (elim disjE) (simp_all add: balanced_def ev_defs)

lemma balanced_signal:
  assumes "l \<in> {''hard'', ''soft'', ''tls''}" "\<forall>e \<in> set evs. \<exists>n. e = setBlockCacheHosts n"
  shows "balanced False 1 ([incBlockSignal l] @ evs)"
proof -
  from assms(1) have "balanced False 1 [incBlockSignal l]"
    by (elim insertE) (simp_all add: balanced_def ev_defs)
  with gauge_free[OF assms(2)] show ?thesis by (simp add: balanced_def del: append.simps)
qed

lemma balanced_escalated:
  assumes "l \<in> {''hard'', ''soft'', ''tls''}" "\<forall>e \<in> set evs. \<exists>n. e = setBlockCacheHosts n" "s = ''ok'' \<or> s = ''err''"
  shows "balanced True 1 ([incBlockSignal l] @ evs @ [incEscalation l, incTier ''proxy'' s])"
proof -
  from assms(1,3) have "balanced True 1 ([incBlockSignal l] @ [incEscalation l, incTier ''proxy'' s])"
    by (elim insertE disjE) (simp_all add: balanced_def ev_defs)
  with gauge_free[OF assms(2)] show ?thesis unfolding balanced_def occs_append by simp
qed

text \<open>The calls one fetch can make, with and without a proxy client.\<close>

inductive fetch_calls :: "bool \<Rightarrow> fm_event list \<Rightarrow> bool" for proxied where
  skipped: "x = ''domain_hint'' \<or> x = ''cached'' \<Longrightarrow> s = ''ok'' \<or> s = ''err'' \<Longrightarrow>
    fetch_calls proxied [incEscalation x, incTier ''proxy'' s]"
| answered: "fetch_calls proxied [incTier ''direct'' ''ok'']"
| blocked: "\<not> proxied \<Longrightarrow> l \<in> {''hard'', ''soft'', ''tls''} \<Longrightarrow> \<forall>e \<in> set evs. \<exists>n. e = setBlockCacheHosts n \<Longrightarrow>
    fetch_calls proxied ([incBlockSignal l] @ evs)"
| escalated: "proxied \<Longrightarrow> l \<in> {''hard'', ''soft'', ''tls''} \<Longrightarrow> \<forall>e \<in> set evs. \<exists>n. e = setBlockCacheHosts n \<Longrightarrow>
    s = ''ok'' \<or> s = ''err'' \<Longrightarrow>
    fetch_calls proxied ([incBlockSignal l] @ evs @ [incEscalation l, incTier ''proxy'' s])"

lemma proxy_record_calls:
  assumes "fetchProxyAndRecordWithHeaders E url extra (record_metric (incEscalation x) f) w = (r, f', w')"
    and "x = ''domain_hint'' \<or> x = ''cached''"
  shows "proxyClient f' = proxyClient f \<and> (\<exists>evs. fmetrics f' = fmetrics f @ evs \<and> fetch_calls p evs)"
  using proxy_record_events[OF assms(1)] skipped[OF assms(2)] by (metis append_Cons append_Nil append_assoc record_metric_fields(2,4))

text \<open>The host is neither hinted at nor cached: the direct client is asked.\<close>

lemma asked_calls:
  assumes "\<not> domain_hint E url f" "is_blocked_host (env_now E w) (url_host E url) f = (False, f1)"
    "fetchDirectFirstWithHeaders E url extra f w = (r, f', w')"
  shows "proxyClient f' = proxyClient f
    \<and> (\<exists>evs. fmetrics f' = fmetrics f @ evs \<and> fetch_calls (proxyClient f \<noteq> NoClient) evs)"
proof -
  note f1 = is_blocked_host_fields[OF assms(2)]
  obtain body hdrs status err w1 where raw: "fetchDirectRaw E url extra f1 w = ((body, hdrs, status, err), w1)"
    by (metis prod.exhaust)
  define sig where "sig = classifyBlock (env_unicode E) status hdrs body err"
  note step = direct_first_unfold[OF assms(1,2) raw sig_def]
  let ?f2 = "mark_host (env_now E w1) (url_host E url) (record_metric (incBlockSignal (label sig)) f1)"
  obtain evs where evs: "fmetrics ?f2 = fmetrics f @ [incBlockSignal (label sig)] @ evs"
    and gauge: "\<forall>e \<in> set evs. \<exists>n. e = setBlockCacheHosts n"
    using mark_host_fields(2)[of "env_now E w1" "url_host E url" "record_metric (incBlockSignal (label sig)) f1"] f1 by auto
  consider (clear) "sig = sigNone" | (single) "sig \<noteq> sigNone" "proxyClient f = NoClient"
    | (proxied) "sig \<noteq> sigNone" "proxyClient f \<noteq> NoClient" by blast
  then show ?thesis
  proof cases
    case clear
    with step assms(3) have "f' = record_metric (incTier ''direct'' ''ok'') f1" by simp
    with f1 answered show ?thesis by auto
  next
    case single
    with step assms(3) f1 have "f' = ?f2" by (auto simp: Let_def split: if_splits)
    with single evs f1 blocked[OF _ label_cases[OF single(1)] gauge] show ?thesis by auto
  next
    case proxied
    with step assms(3) f1
    have "fetchProxyAndRecordWithHeaders E url extra (record_metric (incEscalation (label sig)) ?f2) w1 = (r, f', w')"
      by (simp add: Let_def)
    from proxy_record_events[OF this] evs f1
    obtain s where s: "s = ''ok'' \<or> s = ''err''" "proxyClient f' = proxyClient f"
      "fmetrics f' = fmetrics f @ [incBlockSignal (label sig)] @ evs @ [incEscalation (label sig), incTier ''proxy'' s]"
      by auto
    from escalated[OF proxied(2) label_cases[OF proxied(1)] gauge s(1)] s(2,3) show ?thesis by blast
  qed
qed

lemma direct_first_calls:
  assumes "fetchDirectFirstWithHeaders E url extra f w = (r, f', w')"
  shows "proxyClient f' = proxyClient f
    \<and> (\<exists>evs. fmetrics f' = fmetrics f @ evs \<and> fetch_calls (proxyClient f \<noteq> NoClient) evs)"
proof -
  obtain b f1 where ib: "is_blocked_host (env_now E w) (url_host E url) f = (b, f1)" by fastforce
  consider (hint) "domain_hint E url f" | (cached) "\<not> domain_hint E url f" b
    | (asked) "\<not> domain_hint E url f" "\<not> b" by blast
  then show ?thesis
  proof cases
    case hint
    then show ?thesis using assms
      by (intro proxy_record_calls[of E url extra "''domain_hint''"]) (simp_all add: fetchDirectFirstWithHeaders_def)
  next
    case cached
    then have "fetchProxyAndRecordWithHeaders E url extra (record_metric (incEscalation ''cached'') f1) w = (r, f', w')"
      using assms ib by (simp add: fetchDirectFirstWithHeaders_def)
    from proxy_record_calls[OF this] is_blocked_host_fields[OF ib] show ?thesis by simp
  next
    case asked
    with ib asked_calls[OF asked(1) _ assms] show ?thesis by simp
  qed
qed

text \<open>A sequence of fetches makes the calls of each in order.\<close>

lemma fetch_seq_calls:
  "\<exists>evss. fmetrics (fst (fetch_seq E reqs f w)) = fmetrics f @ concat evss \<and> length evss = length reqs
     \<and> list_all (fetch_calls (proxyClient f \<noteq> NoClient)) evss"
proof (induction reqs arbitrary: f w)
  case (Cons req reqs)
  obtain url extra where req: "req = (url, extra)" by fastforce
  obtain r f1 w1 where s: "fetchDirectFirstWithHeaders E url extra f w = (r, f1, w1)" by (metis prod.exhaust)
  from direct_first_calls[OF s] obtain xs where xs: "proxyClient f1 = proxyClient f" "fmetrics f1 = fmetrics f @ xs"
    "fetch_calls (proxyClient f \<noteq> NoClient) xs" by blast
  from Cons[of f1 w1] obtain yss where "fmetrics (fst (fetch_seq E reqs f1 w1)) = fmetrics f1 @ concat yss"
    "length yss = length reqs" "list_all (fetch_calls (proxyClient f1 \<noteq> NoClient)) yss" by blast
  with xs show ?case by (intro exI[of _ "xs # yss"]) (simp add: req s)
qed simp

lemma calls_balanced: "fetch_calls p evs \<Longrightarrow> balanced p 1 evs"
proof (induction rule: fetch_calls.induct)
  case (skipped x s)
  then show ?case by (rule balanced_skip)
next
  case answered
  show ?case by (rule balanced_direct) simp
next
  case (blocked l evs)
  then show ?case using balanced_signal[of l evs] by simp
next
  case (escalated l evs s)
  then show ?case using balanced_escalated[of l evs s] by simp
qed

lemma concat_balanced: "list_all (fetch_calls p) evss \<Longrightarrow> balanced p (length evss) (concat evss)"
proof (induction evss)
  case (Cons evs evss)
  then show ?case using balanced_append[OF calls_balanced, of p evs "length evss" "concat evss"] by simp
qed (simp add: balanced_def)

text \<open>The exported counters account for every direct-first fetch.  After any sequence of
  fetches, each of them was answered by the direct tier, stopped by a block signal or sent past
  the direct tier, and is counted in exactly one of these ways; the proxy tier's count is the
  number of escalations; and each block signal leads to an escalation of the same kind of cause
  when the fetcher has a proxy, and to none when it has not.\<close>

theorem fetch_counters_account:
  "let m = prom_run (fmetrics (fst (fetch_seq E reqs (f\<lparr>fmetrics := []\<rparr>) w))) fresh_metrics
   in (\<Sum>r \<leftarrow> [''ok'', ''err'']. vec_value (''direct'', r) (tierTotal m))
       + (\<Sum>s \<leftarrow> [''hard'', ''soft'', ''tls'']. vec_value s (blockSignal m))
       + (\<Sum>x \<leftarrow> [''domain_hint'', ''cached'']. vec_value x (escalations m)) = length reqs
    \<and> (\<Sum>r \<leftarrow> [''ok'', ''err'']. vec_value (''proxy'', r) (tierTotal m))
       = (\<Sum>x \<leftarrow> [''domain_hint'', ''cached'', ''hard'', ''soft'', ''tls'']. vec_value x (escalations m))
    \<and> (\<Sum>x \<leftarrow> [''hard'', ''soft'', ''tls'']. vec_value x (escalations m))
       = (if proxyClient f \<noteq> NoClient
          then \<Sum>s \<leftarrow> [''hard'', ''soft'', ''tls'']. vec_value s (blockSignal m) else 0)"
proof -
  obtain evss where evs: "fmetrics (fst (fetch_seq E reqs (f\<lparr>fmetrics := []\<rparr>) w)) = concat evss"
    and bal: "balanced (proxyClient f \<noteq> NoClient) (length reqs) (concat evss)"
  proof -
    obtain evss where "fmetrics (fst (fetch_seq E reqs (f\<lparr>fmetrics := []\<rparr>) w)) = concat evss"
      "length evss = length reqs" "list_all (fetch_calls (proxyClient f \<noteq> NoClient)) evss"
      using fetch_seq_calls[of E reqs "f\<lparr>fmetrics := []\<rparr>" w] by auto
    with concat_balanced[of _ evss] that[of evss] show ?thesis by auto
  qed
  from bal show ?thesis unfolding evs by (simp add: prom_run_counts balanced_def ev_defs Let_def split: if_splits)
qed


text \<open>A transport error of the direct client is always classified as a signal of the TLS kind, so
  the counter for failed direct fetches never moves.\<close>

lemma direct_errors_not_counted:
  "vec_value (''direct'', ''err'')
     (tierTotal (prom_run (fmetrics (fst (fetch_seq E reqs (f\<lparr>fmetrics := []\<rparr>) w))) fresh_metrics)) = 0"
proof -
  have "fetch_calls p evs \<Longrightarrow> incTier ''direct'' ''err'' \<notin> set evs" for p evs
    by (induction rule: fetch_calls.induct) auto
  moreover obtain evss where "fmetrics (fst (fetch_seq E reqs (f\<lparr>fmetrics := []\<rparr>) w)) = concat evss"
    "list_all (fetch_calls (proxyClient f \<noteq> NoClient)) evss"
    using fetch_seq_calls[of E reqs "f\<lparr>fmetrics := []\<rparr>" w] by auto
  ultimately show ?thesis by (auto simp: prom_run_counts count_list_0_iff list_all_iff)
qed

text \<open>The gauge is written when a host is marked, and not when a lookup drops an expired entry:
  it is an upper bound of the cache's size, exact after each mark.\<close>

definition gauge_ok :: "Fetcher \<Rightarrow> bool" where
  "gauge_ok f \<longleftrightarrow> (case blockCache f of None \<Rightarrow> True
     | Some c \<Rightarrow> Len c \<le> blockCacheSize (prom_run (fmetrics f) fresh_metrics))"

lemma gauge_other [simp]:
  "blockCacheSize (prom_run (evs @ [incTier t r]) m) = blockCacheSize (prom_run evs m)"
  "blockCacheSize (prom_run (evs @ [incBlockSignal s]) m) = blockCacheSize (prom_run evs m)"
  "blockCacheSize (prom_run (evs @ [incEscalation s]) m) = blockCacheSize (prom_run evs m)"
  "blockCacheSize (prom_run (evs @ [setBlockCacheHosts n]) m) = n"
  by (simp_all add: prom_run_def)

lemma gauge_ok_record: "gauge_ok f \<Longrightarrow> (\<And>n. e \<noteq> setBlockCacheHosts n) \<Longrightarrow> gauge_ok (record_metric e f)"
  by (cases e) (auto simp: gauge_ok_def split: option.splits)

lemma gauge_ok_lookup:
  assumes "gauge_ok f" "is_blocked_host t h f = (b, f1)"
  shows "gauge_ok f1"
proof (cases "blockCache f")
  case (Some c)
  have "Len (snd (IsBlocked t h c)) \<le> Len c"
    using AList.length_delete_le[of h "items c"] by (auto simp: IsBlocked_def Len_def split: option.splits)
  with assms Some show ?thesis by (auto simp: gauge_ok_def is_blocked_host_def split: prod.splits)
qed (use assms in \<open>auto simp: is_blocked_host_def\<close>)

lemma gauge_ok_mark: "gauge_ok f \<Longrightarrow> gauge_ok (mark_host t h f)"
  by (auto simp: gauge_ok_def mark_host_def Let_def split: option.splits)

lemma gauge_ok_proxy:
  assumes "gauge_ok f" "fetchProxyAndRecordWithHeaders E url extra f w = (r, f', w')"
  shows "gauge_ok f'"
  using assms by (auto simp: fetchProxyAndRecordWithHeaders_def split: prod.splits intro: gauge_ok_record)

lemmas gauge_rules = gauge_ok_record gauge_ok_lookup gauge_ok_mark gauge_ok_proxy

lemma gauge_ok_fetch:
  assumes "gauge_ok f" "fetchDirectFirstWithHeaders E url extra f w = (r, f', w')"
  shows "gauge_ok f'"
  using assms
  by (auto simp: fetchDirectFirstWithHeaders_def Let_def split: if_splits prod.splits option.splits
      intro!: gauge_ok_record gauge_ok_mark dest: gauge_ok_lookup elim!: gauge_ok_proxy[rotated])


lemma gauge_ok_seq: "gauge_ok f \<Longrightarrow> gauge_ok (fst (fetch_seq E reqs f w))"
proof (induction reqs arbitrary: f w)
  case (Cons req reqs)
  obtain url extra where req: "req = (url, extra)" by fastforce
  obtain r f1 w1 where s: "fetchDirectFirstWithHeaders E url extra f w = (r, f1, w1)" by (metis prod.exhaust)
  from Cons.IH[OF gauge_ok_fetch[OF Cons.prems s]] show ?case by (simp add: req s)
qed simp

lemma gauge_bounds_cache:
  "blockCache (fst (fetch_seq E reqs (New U p d opts) w)) = Some c \<Longrightarrow>
   Len c \<le> blockCacheSize (prom_run (fmetrics (fst (fetch_seq E reqs (New U p d opts) w))) fresh_metrics)"
proof -
  define clean where "clean f \<longleftrightarrow> fmetrics f = [] \<and> (\<forall>c. blockCache f = Some c \<longrightarrow> items c = [])" for f :: Fetcher
  have "clean f \<Longrightarrow> clean (apply_option U x f)" for x f
    by (cases x) (auto simp: clean_def NewDirectBlockCache_def split: option.splits)
  then have "clean f \<Longrightarrow> clean (fold (apply_option U) opts f)" for f
    by (induction opts arbitrary: f) simp_all
  moreover have "clean empty_fetcher" by (simp add: clean_def empty_fetcher_def)
  ultimately have "clean (fold (apply_option U) opts empty_fetcher)" by blast
  then have "clean (New U p d opts)"
    unfolding New_def clean_def Let_def by (auto simp: NewDirectBlockCache_def split: option.split)
  then have "gauge_ok (New U p d opts)"
    by (auto simp: gauge_ok_def clean_def Len_def prom_run_def fresh_metrics_def split: option.splits)
  from gauge_ok_seq[OF this, of E reqs w]
  show "blockCache (fst (fetch_seq E reqs (New U p d opts) w)) = Some c \<Longrightarrow>
    Len c \<le> blockCacheSize (prom_run (fmetrics (fst (fetch_seq E reqs (New U p d opts) w))) fresh_metrics)"
    by (simp add: gauge_ok_def)
qed

text \<open>It may stay above it: the only entry has expired and was dropped, the gauge still shows one.\<close>

definition stale_fetcher :: Fetcher where
  "stale_fetcher = mark_host 0 ''ab'' (lab_fetcher\<lparr>fmetrics := []\<rparr>)"

lemma gauge_goes_stale:
  "blockCacheSize (prom_run (fmetrics (snd (is_blocked_host 99 ''ab'' stale_fetcher))) fresh_metrics) = 1"
  "map_option Len (blockCache (snd (is_blocked_host 99 ''ab'' stale_fetcher))) = Some 0"
  by (simp_all add: stale_fetcher_def mark_host_def lab_fetcher_def empty_fetcher_def is_blocked_host_def IsBlocked_def
      Mark_def Len_def NewDirectBlockCache_def record_metric_def prom_run_def)

subsection \<open>Clients handed out and retry settings\<close>

text \<open>Both accessors return a pointer, nil when there is no stealth client: a direct client that
  is not a \<open>*stealth.BrowserClient\<close> gives nil.\<close>

definition BrowserClient :: "Fetcher \<Rightarrow> string option" where
  "BrowserClient f = (case proxyClient f of Client (Some ua) \<Rightarrow> Some ua | _ \<Rightarrow> None)"

definition DirectClient :: "Fetcher \<Rightarrow> string option" where
  "DirectClient f = (case directClient f of NoClient \<Rightarrow> None | Client ua \<Rightarrow> ua)"

text \<open>A pointer stored in an interface.\<close>

definition to_iface :: "('a \<Rightarrow> 'b) \<Rightarrow> 'a option \<Rightarrow> 'b iface" where
  "to_iface mk p = (case p of None \<Rightarrow> TypedNil | Some x \<Rightarrow> Iface (mk x))"

text \<open>A dual browser over the proxy client and the direct client of a fetcher is the proxy client
  alone when there is no direct client, and never runs into a nil pointer while there is a proxy
  client.\<close>

lemma dual_over_fetcher:
  assumes "BrowserClient f = Some ua" "\<And>x rq w. \<not> is_panic (fst (Do (mk x) rq w))"
  shows "(DirectClient f = None \<longrightarrow>
      newDualBrowser (to_iface mk (BrowserClient f)) (to_iface mk (DirectClient f)) = Iface (mk ua))
    \<and> \<not> is_panic (fst (iface_Do (newDualBrowser (to_iface mk (BrowserClient f)) (to_iface mk (DirectClient f))) rq w))"
proof (cases "DirectClient f")
  case None
  with assms show ?thesis by (simp add: to_iface_def newDualBrowser_def isNilInterface_def)
next
  case (Some ua')
  obtain ans w1 where a: "Do (mk ua) rq w = (ans, w1)" by fastforce
  with assms(2)[of ua rq w] have np: "\<not> is_panic ans" by simp
  have "\<not> is_panic (fst (dual_doer (Iface (mk ua)) (Iface (mk ua')) rq w))"
    using dual_browser_fallback[OF refl refl a np, of "mk ua'"] np assms(2)[of ua' rq w1]
    by (auto split: sum.splits)
  with Some assms(1) show ?thesis by (simp add: to_iface_def newDualBrowser_def isNilInterface_def)
qed

record RetryConfig =
  rc_MaxRetries :: int
  rc_InitialWait :: duration
  rc_MaxWait :: duration
  rc_Multiplier :: nat

definition FetchRetryConfig :: RetryConfig where
  "FetchRetryConfig = \<lparr>rc_MaxRetries = 3, rc_InitialWait = 1 * second, rc_MaxWait = 10 * second, rc_Multiplier = 2\<rparr>"

text \<open>The default of the retry count that \<open>New\<close> starts from.\<close>

lemma New_default_retries: "maxRetries (New U p d []) = rc_MaxRetries FetchRetryConfig"
  by (simp add: New_def empty_fetcher_def FetchRetryConfig_def)

subsection \<open>Tracked operations\<close>

type_synonym counters = "(string, int) gomap"

definition metrics_New :: counters where
  "metrics_New = []"

definition Incr :: "string \<Rightarrow> counters \<Rightarrow> counters" where
  "Incr name r = AList.update name ((case map_of r name of Some n \<Rightarrow> n | None \<Rightarrow> 0) + 1) r"

definition Value :: "string \<Rightarrow> counters \<Rightarrow> int" where
  "Value name r = (case map_of r name of Some n \<Rightarrow> n | None \<Rightarrow> 0)"

text \<open>A registry is nil or a map of counters; the tracked function runs in between, on the same
  registry.\<close>

definition metrics_TrackCall ::
  "string \<Rightarrow> string \<Rightarrow> (counters option \<times> 'w \<Rightarrow> go_error option \<times> counters option \<times> 'w)
   \<Rightarrow> counters option \<times> 'w \<Rightarrow> go_error option \<times> counters option \<times> 'w" where
  "metrics_TrackCall callName errName fn s =
     (if fst s = None then fn s
      else
        let (e, r, w) = fn (map_option (Incr callName) (fst s), snd s)
        in if e \<noteq> None then (e, map_option (Incr errName) r, w) else (None, r, w))"

definition slowThreshold :: duration where
  "slowThreshold = 5 * second"

text \<open>The warning of a slow operation names it.\<close>

definition metrics_TrackOperation ::
  "('w \<Rightarrow> instant) \<Rightarrow> string \<Rightarrow> ('w \<Rightarrow> go_error option \<times> 'w) \<Rightarrow> 'w \<Rightarrow> go_error option \<times> string option \<times> 'w" where
  "metrics_TrackOperation now name fn w =
     (let (e, w1) = fn w
      in (e, if now w1 - now w > slowThreshold then Some name else None, w1))"

lemma Value_Incr: "Value n (Incr n' r) = Value n r + (if n = n' then 1 else 0)"
  by (simp add: Value_def Incr_def update_conv')

text \<open>A tracked call changes nothing but the two counters: the call is counted before it runs, a
  failure after it, and the function's error is passed on.\<close>

lemma metrics_TrackCall_effect:
  assumes "fn (Some (Incr callName r), w) = (e, Some r1, w1)" "errName \<noteq> callName"
  shows "metrics_TrackCall callName errName fn (Some r, w) =
     (e, Some (if e = None then r1 else Incr errName r1), w1)"
    and "r1 = Incr callName r \<Longrightarrow> Value errName (if e = None then r1 else Incr errName r1)
      = Value errName r + (if e = None then 0 else 1)"
    and "metrics_TrackCall callName errName fn (None, w) = fn (None, w)"
  using assms by (simp_all add: metrics_TrackCall_def Value_Incr)

end
