(* ===== verification/Fetch_Concurrent.thy ===== *)
theory Fetch_Concurrent
  imports Fetch_Metrics Work_System
begin

text \<open>
  Several goroutines on one \<open>Fetcher\<close>.  \<open>fetch/fetcher.go\<close> takes no lock of its own: the
  block cache and the retry tracker lock each of their methods, and each metric call is atomic.
  A call of \<open>FetchBodyWithHeaders\<close> is therefore cut into the sections between which another
  goroutine can run, one per locked method, metric call or network exchange, and the step
  relation interleaves the sections of all calls in any order.  Every section reads a world of
  its own, the clock and the network as they are when it runs: the theorems hold whatever
  happens outside between two sections.
\<close>

subsection \<open>One call, section by section\<close>

text \<open>What a direct attempt left in the local variables: body, status, error, signal.\<close>

type_synonym attempt = "string \<times> int \<times> go_error option \<times> blockSig"

datatype fetch_phase =
    Gate
  | Plain
  | Hint
  | Lookup
  | Attempt
  | Judge attempt
  | Marking attempt
  | Measure attempt
  | Gauge attempt int
  | Choose attempt
  | Escalate string
  | Via_Proxy
  | Tally "string result"
  | Render "string result"
  | Settle "string result"
  | Returned "string result"

text \<open>The value the direct-first strategy returns when it does not escalate.\<close>

fun direct_result :: "attempt \<Rightarrow> string result" where
  "direct_result (body, status, directErr, sig) =
     (if sig = sigSoft then Inr body
      else case directErr of Some e \<Rightarrow> Inl e | None \<Rightarrow> Inl (HttpStatusError status))"

fun fetch_step ::
  "'w fetch_env \<Rightarrow> string \<Rightarrow> headers \<Rightarrow> fetch_phase \<Rightarrow> Fetcher \<Rightarrow> 'w \<Rightarrow> fetch_phase \<times> Fetcher \<times> 'w" where
  "fetch_step E url extra Gate f w =
     (let (retry, f1) = should_retry (env_now E w) url f;
          perm = (\<not> retry)
      in if perm \<and> \<not> hasFallback f1 then (Returned (Inl ErrPermanentlyFailed), f1, w)
         else if perm then (Render (Inl ErrPermanentlyFailed), f1, w)
         else if \<not> directFirst f1 then (Plain, f1, w)
         else (Hint, f1, w))"
| "fetch_step E url extra Plain f w =
     (let (r, w1) = fetchViaProxyOrHTTPWithHeaders E url extra f w in (Render r, f, w1))"
| "fetch_step E url extra Hint f w =
     (if domain_hint E url f then Escalate ''domain_hint'' else Lookup, f, w)"
| "fetch_step E url extra Lookup f w =
     (let (blocked, f1) = is_blocked_host (env_now E w) (url_host E url) f
      in (if blocked then Escalate ''cached'' else Attempt, f1, w))"
| "fetch_step E url extra Attempt f w =
     (let ((body, hdrs, status, directErr), w1) = fetchDirectRaw E url extra f w
      in (Judge (body, status, directErr, classifyBlock (env_unicode E) status hdrs body directErr), f, w1))"
| "fetch_step E url extra (Judge (body, status, directErr, sig)) f w =
     (if sig = sigNone
      then (case directErr of
              Some e \<Rightarrow> (Render (Inl e), record_metric (incTier ''direct'' ''err'') f, w)
            | None \<Rightarrow> (Render (Inr body), record_metric (incTier ''direct'' ''ok'') f, w))
      else (Marking (body, status, directErr, sig), record_metric (incBlockSignal (label sig)) f, w))"
| "fetch_step E url extra (Marking a) f w =
     (case blockCache f of
        None \<Rightarrow> (Choose a, f, w)
      | Some c \<Rightarrow>
          if url_host E url = '''' then (Choose a, f, w)
          else (Measure a, f\<lparr>blockCache := Some (Mark (env_now E w) (url_host E url) c)\<rparr>, w))"
| "fetch_step E url extra (Measure a) f w =
     (case blockCache f of
        None \<Rightarrow> (Choose a, f, w)
      | Some c \<Rightarrow> (Gauge a (Len c), f, w))"
| "fetch_step E url extra (Gauge a n) f w = (Choose a, record_metric (setBlockCacheHosts n) f, w)"
| "fetch_step E url extra (Choose a) f w =
     (if proxyClient f \<noteq> NoClient then (Escalate (label (snd (snd (snd a)))), f, w)
      else (Render (direct_result a), f, w))"
| "fetch_step E url extra (Escalate reason) f w = (Via_Proxy, record_metric (incEscalation reason) f, w)"
| "fetch_step E url extra Via_Proxy f w =
     (let (r, w1) = fetchViaProxyOrHTTPWithHeaders E url extra f w in (Tally r, f, w1))"
| "fetch_step E url extra (Tally r) f w =
     (Render r, record_metric (incTier ''proxy'' (if is_ok r then ''ok'' else ''err'')) f, w)"
| "fetch_step E url extra (Render r) f w =
     (let (r1, w1) = tryFallbacks E url f r w in (Settle r1, f, w1))"
| "fetch_step E url extra (Settle r) f w = (Returned r, record_outcome (env_now E w) url r f, w)"
| "fetch_step E url extra (Returned r) f w = (Returned r, f, w)"

text \<open>The most sections a call can still go through.\<close>

fun phase_work :: "fetch_phase \<Rightarrow> nat" where
  "phase_work Gate = 14"
| "phase_work Hint = 13"
| "phase_work Lookup = 12"
| "phase_work Attempt = 11"
| "phase_work (Judge a) = 10"
| "phase_work (Marking a) = 9"
| "phase_work (Measure a) = 8"
| "phase_work (Gauge a n) = 7"
| "phase_work (Choose a) = 6"
| "phase_work (Escalate x) = 5"
| "phase_work Via_Proxy = 4"
| "phase_work Plain = 3"
| "phase_work (Tally r) = 3"
| "phase_work (Render r) = 2"
| "phase_work (Settle r) = 1"
| "phase_work (Returned r) = 0"

lemma fetch_step_work:
  "fetch_step E url extra ph f w = (ph', f', w') \<Longrightarrow> phase_work ph \<noteq> 0 \<Longrightarrow> phase_work ph' < phase_work ph"
  by (cases "(E, url, extra, ph, f, w)" rule: fetch_step.cases)
    (auto simp: Let_def split: if_splits option.splits prod.splits)

definition outcome :: "fetch_phase \<Rightarrow> string result option" where
  "outcome ph = (case ph of Returned r \<Rightarrow> Some r | _ \<Rightarrow> None)"

lemma outcome_Some: "outcome ph = Some r \<longleftrightarrow> ph = Returned r"
  by (cases ph) (auto simp: outcome_def)

lemma outcome_None: "outcome ph = None \<longleftrightarrow> phase_work ph \<noteq> 0"
  by (cases ph) (auto simp: outcome_def)


subsection \<open>A call with the fetcher to itself\<close>

text \<open>The sections of one call in a row are the call.\<close>

function fetch_alone ::
  "'w fetch_env \<Rightarrow> string \<Rightarrow> headers \<Rightarrow> fetch_phase \<Rightarrow> Fetcher \<Rightarrow> 'w \<Rightarrow> string result \<times> Fetcher \<times> 'w" where
  "fetch_alone E url extra ph f w =
     (case outcome ph of
        Some r \<Rightarrow> (r, f, w)
      | None \<Rightarrow> (let (ph1, f1, w1) = fetch_step E url extra ph f w in fetch_alone E url extra ph1 f1 w1))"
  by pat_completeness auto
termination
proof (relation "measure (\<lambda>(E, url, extra, ph, f, w). phase_work ph)")
  fix E :: "'w fetch_env" and url extra ph f w x y ph1 f1 w1
  assume u: "outcome ph = None" and "x = fetch_step E url extra ph f w" "(ph1, y) = x" "(f1, w1) = y"
  then have "fetch_step E url extra ph f w = (ph1, f1, w1)" by simp
  from fetch_step_work[OF this] u
  show "((E, url, extra, ph1, f1, w1), (E, url, extra, ph, f, w)) \<in> measure (\<lambda>(E, url, extra, ph, f, w). phase_work ph)"
    by (simp add: outcome_None)
qed simp

declare fetch_alone.simps [simp del]

lemma alone_Returned [simp]: "fetch_alone E url extra (Returned r) f w = (r, f, w)"
  by (simp add: fetch_alone.simps outcome_def)

lemma alone_step:
  "fetch_step E url extra ph f w = (ph1, f1, w1) \<Longrightarrow>
   fetch_alone E url extra ph f w = fetch_alone E url extra ph1 f1 w1"
  by (cases "outcome ph") (auto simp: fetch_alone.simps[of E url extra ph] outcome_Some)

lemma alone_Settle:
  "fetch_alone E url extra (Render r) f w =
   (let (r1, w1) = tryFallbacks E url f r w in (r1, record_outcome (env_now E w1) url r1 f, w1))"
  by (cases "tryFallbacks E url f r w") (simp add: alone_step)

lemma alone_proxy:
  "fetch_alone E url extra Via_Proxy f w =
   (let (r, f1, w1) = fetchProxyAndRecordWithHeaders E url extra f w in fetch_alone E url extra (Render r) f1 w1)"
  by (cases "fetchViaProxyOrHTTPWithHeaders E url extra f w")
    (simp add: alone_step[of _ _ _ Via_Proxy] alone_step[of _ _ _ "Tally r" for r] fetchProxyAndRecordWithHeaders_def)


lemma alone_escalate:
  "fetch_alone E url extra (Escalate x) f w =
   (let (r, f1, w1) = fetchProxyAndRecordWithHeaders E url extra (record_metric (incEscalation x) f) w
    in fetch_alone E url extra (Render r) f1 w1)"
  by (simp add: alone_step[of _ _ _ "Escalate x"] alone_proxy)

lemma alone_mark:
  "fetch_alone E url extra (Marking a) f w =
   fetch_alone E url extra (Choose a) (mark_host (env_now E w) (url_host E url) f) w"
proof (cases "blockCache f = None \<or> url_host E url = ''''")
  case True
  then show ?thesis by (intro alone_step) (auto simp: mark_host_def split: option.splits)
next
  case False
  then obtain c where c: "blockCache f = Some c" "url_host E url \<noteq> ''''" by auto
  let ?c = "Mark (env_now E w) (url_host E url) c"
  have "fetch_alone E url extra (Marking a) f w = fetch_alone E url extra (Measure a) (f\<lparr>blockCache := Some ?c\<rparr>) w"
    by (rule alone_step) (simp add: c)
  also have "\<dots> = fetch_alone E url extra (Gauge a (Len ?c)) (f\<lparr>blockCache := Some ?c\<rparr>) w"
    by (rule alone_step) simp
  also have "\<dots> = fetch_alone E url extra (Choose a) (record_metric (setBlockCacheHosts (Len ?c)) (f\<lparr>blockCache := Some ?c\<rparr>)) w"
    by (rule alone_step) simp
  finally show ?thesis using c by (simp add: mark_host_def Let_def)
qed

lemma alone_direct_first:
  "fetch_alone E url extra Hint f w =
   (let (r, f1, w1) = fetchDirectFirstWithHeaders E url extra f w in fetch_alone E url extra (Render r) f1 w1)"
proof -
  obtain b f1 where ib: "is_blocked_host (env_now E w) (url_host E url) f = (b, f1)" by fastforce
  obtain body hdrs status err w1 where raw: "fetchDirectRaw E url extra f1 w = ((body, hdrs, status, err), w1)"
    by (metis prod.exhaust)
  define sig where "sig = classifyBlock (env_unicode E) status hdrs body err"
  consider (hint) "domain_hint E url f" | (cached) "\<not> domain_hint E url f" b
    | (asked) "\<not> domain_hint E url f" "\<not> b" by blast
  then show ?thesis
  proof cases
    case hint
    then show ?thesis
      by (simp add: alone_step[of _ _ _ Hint] alone_escalate fetchDirectFirstWithHeaders_def)
  next
    case cached
    then show ?thesis
      by (simp add: alone_step[of _ _ _ Hint] alone_step[of _ _ _ Lookup] ib alone_escalate fetchDirectFirstWithHeaders_def)
  next
    case asked
    with ib have ib': "is_blocked_host (env_now E w) (url_host E url) f = (False, f1)" by simp
    have "fetch_alone E url extra Hint f w = fetch_alone E url extra (Judge (body, status, err, sig)) f1 w1"
      using asked by (simp add: alone_step[of _ _ _ Hint] alone_step[of _ _ _ Lookup] alone_step[of _ _ _ Attempt] ib raw sig_def)
    also have "\<dots> = (let (r, f1, w1) = fetchDirectFirstWithHeaders E url extra f w in fetch_alone E url extra (Render r) f1 w1)"
    proof (cases "sig = sigNone")
      case True
      then have "err = None" using classify_TLS_iff[of "env_unicode E" status hdrs body err] by (auto simp: sig_def)
      with True show ?thesis
        by (simp add: alone_step[of _ _ _ "Judge a" for a] direct_first_unfold[OF asked(1) ib' raw sig_def])
    next
      case False
      then show ?thesis
        by (auto simp: alone_step[of _ _ _ "Judge a" for a] alone_mark alone_step[of _ _ _ "Choose a" for a] alone_escalate
            direct_first_unfold[OF asked(1) ib' raw sig_def] Let_def split: option.split)
    qed
    finally show ?thesis .
  qed
qed

lemma alone_refines: "fetch_alone E url extra Gate f w = FetchBodyWithHeaders E url extra f w"
proof -
  obtain b f1 where sr: "should_retry (env_now E w) url f = (b, f1)" by fastforce
  obtain r w1 where v: "fetchViaProxyOrHTTPWithHeaders E url extra f1 w = (r, w1)" by fastforce
  consider (stop) "\<not> b" "\<not> hasFallback f1" | (render) "\<not> b" "hasFallback f1" | (plain) b "\<not> directFirst f1" | (direct) b "directFirst f1"
    by blast
  then show ?thesis
    by cases (simp_all add: alone_step[of _ _ _ Gate] alone_step[of _ _ _ Plain] sr v alone_Settle alone_direct_first
        FetchBodyWithHeaders_def fetchPrimaryWithHeaders_def split: prod.split)
qed


subsection \<open>Several calls at once\<close>

record fc_state =
  fc_fetcher :: Fetcher
  fc_phases :: "fetch_phase list"

definition fc_start :: "(string \<times> headers) list \<Rightarrow> Fetcher \<Rightarrow> fc_state" where
  "fc_start reqs f = \<lparr>fc_fetcher = f, fc_phases = map (\<lambda>_. Gate) reqs\<rparr>"

text \<open>Goroutine \<open>i\<close> runs its next section in the world \<open>w\<close>.\<close>

definition fc_move :: "'w fetch_env \<Rightarrow> (string \<times> headers) list \<Rightarrow> nat \<Rightarrow> 'w \<Rightarrow> fc_state \<Rightarrow> fc_state \<times> 'w" where
  "fc_move E reqs i w s =
     (let (ph, f, w1) = fetch_step E (fst (reqs ! i)) (snd (reqs ! i)) (fc_phases s ! i) (fc_fetcher s) w
      in (\<lparr>fc_fetcher = f, fc_phases = (fc_phases s)[i := ph]\<rparr>, w1))"

inductive fc_step :: "'w fetch_env \<Rightarrow> (string \<times> headers) list \<Rightarrow> fc_state \<Rightarrow> fc_state \<Rightarrow> bool"
  for E reqs where
  runs: "i < length reqs \<Longrightarrow> outcome (fc_phases s ! i) = None \<Longrightarrow> fc_step E reqs s (fst (fc_move E reqs i w s))"

inductive_cases fc_stepE: "fc_step E reqs s t"

definition fc_done :: "fc_state \<Rightarrow> bool" where
  "fc_done s \<longleftrightarrow> list_all (\<lambda>ph. outcome ph \<noteq> None) (fc_phases s)"

definition fc_work :: "fc_state \<Rightarrow> nat" where
  "fc_work s = sum_list (map phase_work (fc_phases s))"

definition fc_inv :: "(string \<times> headers) list \<Rightarrow> fc_state \<Rightarrow> bool" where
  "fc_inv reqs s \<longleftrightarrow> length (fc_phases s) = length reqs"

text \<open>What a step is, with the section it ran.\<close>

lemma fc_step_section:
  assumes "fc_step E reqs s t"
  obtains i ph f w w1 where "i < length reqs" "phase_work (fc_phases s ! i) \<noteq> 0"
    "fetch_step E (fst (reqs ! i)) (snd (reqs ! i)) (fc_phases s ! i) (fc_fetcher s) w = (ph, f, w1)"
    "t = \<lparr>fc_fetcher = f, fc_phases = (fc_phases s)[i := ph]\<rparr>"
  using assms
proof (rule fc_stepE)
  fix i w
  assume "t = fst (fc_move E reqs i w s)" "i < length reqs" "outcome (fc_phases s ! i) = None"
  then show ?thesis
    by (cases "fetch_step E (fst (reqs ! i)) (snd (reqs ! i)) (fc_phases s ! i) (fc_fetcher s) w")
      (auto simp: fc_move_def outcome_None intro: that)
qed

lemma fc_step_work:
  assumes "fc_inv reqs s" "fc_step E reqs s t"
  shows "fc_work t < fc_work s"
  using assms(2)
proof (rule fc_step_section)
  fix i ph f w w1
  assume a: "i < length reqs" "phase_work (fc_phases s ! i) \<noteq> 0"
    "fetch_step E (fst (reqs ! i)) (snd (reqs ! i)) (fc_phases s ! i) (fc_fetcher s) w = (ph, f, w1)"
    "t = \<lparr>fc_fetcher = f, fc_phases = (fc_phases s)[i := ph]\<rparr>"
  then show ?thesis
    using fetch_step_work[OF a(3,2)] sum_list_update_nat[of i "fc_phases s" phase_work ph] assms(1)
    by (simp add: fc_work_def fc_inv_def)
qed

lemma fc_progress: "fc_inv reqs s \<Longrightarrow> \<not> fc_done s \<Longrightarrow> \<exists>t. fc_step E reqs s t"
  unfolding fc_inv_def fc_done_def list_all_length using runs by metis

interpretation fc: bounded_system "fc_step E reqs" "fc_inv reqs" fc_done fc_work for E reqs
proof (unfold_locales)
  show "fc_inv reqs s \<Longrightarrow> fc_step E reqs s t \<Longrightarrow> fc_inv reqs t" for s t
    by (erule fc_step_section) (simp add: fc_inv_def)
  show "fc_inv reqs s \<Longrightarrow> fc_step E reqs s t \<Longrightarrow> fc_work t < fc_work s" for s t by (rule fc_step_work)
  show "fc_inv reqs s \<Longrightarrow> fc_done s \<Longrightarrow> \<not> fc_step E reqs s t" for s t
    by (auto elim!: fc_step_section simp: fc_inv_def fc_done_def list_all_length outcome_None)
  show "fc_inv reqs s \<Longrightarrow> \<not> fc_done s \<Longrightarrow> \<exists>t. fc_step E reqs s t" for s by (rule fc_progress)
qed

lemma fc_inv_start [simp]: "fc_inv reqs (fc_start reqs f)"
  by (simp add: fc_inv_def fc_start_def)

lemma fc_work_start [simp]: "fc_work (fc_start reqs f) = 14 * length reqs"
  by (induction reqs) (simp_all add: fc_work_def fc_start_def)


subsection \<open>The counters\<close>

text \<open>What a call in a phase still owes the counters: itself, an escalation, a proxy fetch.\<close>

definition skip_reason :: "string \<Rightarrow> bool" where
  "skip_reason x \<longleftrightarrow> x = ''domain_hint'' \<or> x = ''cached''"

fun uncounted :: "fetch_phase \<Rightarrow> nat" where
  "uncounted Gate = 1"
| "uncounted Plain = 1"
| "uncounted Hint = 1"
| "uncounted Lookup = 1"
| "uncounted Attempt = 1"
| "uncounted (Judge a) = 1"
| "uncounted (Escalate x) = (if skip_reason x then 1 else 0)"
| "uncounted _ = 0"

fun due_escalation :: "bool \<Rightarrow> fetch_phase \<Rightarrow> nat" where
  "due_escalation proxied (Marking a) = (if proxied then 1 else 0)"
| "due_escalation proxied (Measure a) = (if proxied then 1 else 0)"
| "due_escalation proxied (Gauge a n) = (if proxied then 1 else 0)"
| "due_escalation proxied (Choose a) = (if proxied then 1 else 0)"
| "due_escalation proxied (Escalate x) = (if skip_reason x then 0 else 1)"
| "due_escalation proxied _ = 0"

fun due_proxy :: "fetch_phase \<Rightarrow> nat" where
  "due_proxy Via_Proxy = 1"
| "due_proxy (Tally r) = 1"
| "due_proxy _ = 0"

text \<open>The phases a call of a direct-first fetcher without a retry tracker can be in.\<close>

fun phase_ok :: "bool \<Rightarrow> fetch_phase \<Rightarrow> bool" where
  "phase_ok proxied Plain = False"
| "phase_ok proxied (Judge (body, status, directErr, sig)) = (sig = sigNone \<longrightarrow> directErr = None)"
| "phase_ok proxied (Marking (body, status, directErr, sig)) = (sig \<noteq> sigNone)"
| "phase_ok proxied (Measure (body, status, directErr, sig)) = (sig \<noteq> sigNone)"
| "phase_ok proxied (Gauge (body, status, directErr, sig) n) = (sig \<noteq> sigNone)"
| "phase_ok proxied (Choose (body, status, directErr, sig)) = (sig \<noteq> sigNone)"
| "phase_ok proxied (Escalate x) = (skip_reason x \<or> proxied \<and> x \<in> {''hard'', ''soft'', ''tls''})"
| "phase_ok proxied _ = True"

text \<open>The settings of the fetcher that no call changes.\<close>

definition untracked :: "client \<Rightarrow> Fetcher \<Rightarrow> bool" where
  "untracked p f \<longleftrightarrow> directFirst f \<and> retryTracker f = None \<and> proxyClient f = p"

lemma untracked_frame [simp]:
  "untracked p (record_metric e f) = untracked p f"
  "untracked p (f\<lparr>blockCache := c\<rparr>) = untracked p f"
  "untracked p (f\<lparr>fmetrics := evs\<rparr>) = untracked p f"
  "untracked p f \<Longrightarrow> should_retry t url f = (True, f)"
  "untracked p f \<Longrightarrow> record_outcome t url r f = f"
  "untracked p f \<Longrightarrow> proxyClient f = p"
  "untracked p f \<Longrightarrow> directFirst f"
  by (simp_all add: untracked_def record_metric_def should_retry_def record_outcome_def)

lemma untracked_lookup [simp]: "is_blocked_host t h f = (b, f1) \<Longrightarrow> untracked p f1 = untracked p f"
  by (auto simp: is_blocked_host_def split: option.splits prod.splits)

text \<open>One section: what it records and what the call owes afterwards.\<close>

definition pays :: "bool \<Rightarrow> fetch_phase \<Rightarrow> fm_event list \<Rightarrow> fetch_phase \<Rightarrow> bool" where
  "pays proxied ph evs ph' \<longleftrightarrow>
     occs direct_evs evs + occs signal_evs evs + occs skip_evs evs + uncounted ph' = uncounted ph
     \<and> occs proxy_evs evs + due_proxy ph' = occs skip_evs evs + occs blocked_evs evs + due_proxy ph
     \<and> occs blocked_evs evs + due_escalation proxied ph' = (if proxied then occs signal_evs evs else 0) + due_escalation proxied ph"

lemma occs_event:
  "occs k [e] = count_list k e"
  by (induction k) (simp_all add: occs_def)

lemmas event_kinds = occs_event direct_evs_def signal_evs_def skip_evs_def blocked_evs_def proxy_evs_def

lemma signal_label:
  assumes "sig \<noteq> sigNone"
  shows "label sig \<in> {''hard'', ''soft'', ''tls''}" "\<not> skip_reason (label sig)"
    "count_list signal_evs (incBlockSignal (label sig)) = 1"
  using assms by (cases sig; simp add: skip_reason_def signal_evs_def)+

lemma unsignalled: "classifyBlock U st h b e = sigNone \<Longrightarrow> e = None"
  using classify_TLS_iff[of U st h b e] by (cases e) auto

text \<open>A section that records nothing, and one that records a single call.\<close>

definition pays_for :: "client \<Rightarrow> Fetcher \<Rightarrow> fetch_phase \<Rightarrow> Fetcher \<Rightarrow> fetch_phase \<Rightarrow> bool" where
  "pays_for p f ph f' ph' \<longleftrightarrow> untracked p f' \<and> phase_ok (p \<noteq> NoClient) ph'
     \<and> (\<exists>evs. fmetrics f' = fmetrics f @ evs \<and> pays (p \<noteq> NoClient) ph evs ph')"

lemma pays_quiet:
  assumes "untracked p f'" "phase_ok (p \<noteq> NoClient) ph'" "fmetrics f' = fmetrics f"
    "uncounted ph' = uncounted ph" "due_proxy ph' = due_proxy ph"
    "due_escalation (p \<noteq> NoClient) ph' = due_escalation (p \<noteq> NoClient) ph"
  shows "pays_for p f ph f' ph'"
  using assms by (auto simp: pays_for_def pays_def intro!: exI[of _ "[]"])

lemma pays_call:
  assumes "untracked p f" "phase_ok (p \<noteq> NoClient) ph'" "pays (p \<noteq> NoClient) ph [e] ph'"
  shows "pays_for p f ph (record_metric e f) ph'"
  using assms by (auto simp: pays_for_def)

lemma section_pays:
  assumes "fetch_step E url extra ph f w = (ph', f', w')" "phase_ok (p \<noteq> NoClient) ph" "untracked p f"
  shows "pays_for p f ph f' ph'"
proof (cases "(E, url, extra, ph, f, w)" rule: fetch_step.cases)
  case (4 E url extra f w)
  then show ?thesis using assms is_blocked_host_fields[of "env_now E w" "url_host E url" f]
    by (auto split: prod.splits intro!: pays_quiet simp: skip_reason_def)
next
  case (5 E url extra f w)
  then show ?thesis using assms
    by (auto split: prod.splits intro!: pays_quiet dest: unsignalled)
next
  case (6 E url extra body status directErr sig f w)
  show ?thesis
  proof (cases "sig = sigNone")
    case True
    with 6 assms show ?thesis by (auto intro!: pays_call simp: pays_def event_kinds)
  next
    case False
    with 6 assms signal_label[OF False] show ?thesis by (auto intro!: pays_call simp: pays_def event_kinds)
  qed
next
  case (10 E url extra a f w)
  then show ?thesis using assms signal_label[of "snd (snd (snd a))"]
    by (cases a) (auto intro!: pays_quiet split: if_splits)
next
  case (11 E url extra reason f w)
  then show ?thesis using assms by (auto intro!: pays_call simp: pays_def event_kinds skip_reason_def)
qed (use assms in \<open>auto intro!: pays_quiet pays_call simp: pays_def event_kinds skip_reason_def split: prod.splits option.splits if_splits\<close>)

text \<open>The books of all calls: what the counters show and what the calls still owe.\<close>

definition books :: "client \<Rightarrow> fc_state \<Rightarrow> bool" where
  "books p s \<longleftrightarrow>
     (let evs = fmetrics (fc_fetcher s); phs = fc_phases s in
       untracked p (fc_fetcher s) \<and> list_all (phase_ok (p \<noteq> NoClient)) phs
       \<and> occs direct_evs evs + occs signal_evs evs + occs skip_evs evs + sum_list (map uncounted phs) = length phs
       \<and> occs proxy_evs evs + sum_list (map due_proxy phs) = occs skip_evs evs + occs blocked_evs evs
       \<and> occs blocked_evs evs + sum_list (map (due_escalation (p \<noteq> NoClient)) phs)
           = (if p \<noteq> NoClient then occs signal_evs evs else 0))"

lemma books_start: "untracked p f \<Longrightarrow> books p (fc_start reqs (f\<lparr>fmetrics := []\<rparr>))"
  by (simp add: books_def fc_start_def map_replicate_const sum_list_replicate list_all_iff)

lemma books_step:
  assumes "fc_inv reqs s" "books p s" "fc_step E reqs s t"
  shows "books p t"
  using assms(3)
proof (rule fc_step_section)
  fix i ph f w w1
  assume a: "i < length reqs"
    "fetch_step E (fst (reqs ! i)) (snd (reqs ! i)) (fc_phases s ! i) (fc_fetcher s) w = (ph, f, w1)"
    "t = \<lparr>fc_fetcher = f, fc_phases = (fc_phases s)[i := ph]\<rparr>"
  have i: "i < length (fc_phases s)" using a(1) assms(1) by (simp add: fc_inv_def)
  have ok: "phase_ok (p \<noteq> NoClient) (fc_phases s ! i)" "untracked p (fc_fetcher s)"
    using assms(2) i by (simp_all add: books_def list_all_length Let_def)
  from section_pays[OF a(2) ok] obtain evs where s: "untracked p f" "phase_ok (p \<noteq> NoClient) ph"
    "fmetrics f = fmetrics (fc_fetcher s) @ evs" "pays (p \<noteq> NoClient) (fc_phases s ! i) evs ph"
    by (auto simp: pays_for_def)
  have l: "list_all (phase_ok (p \<noteq> NoClient)) ((fc_phases s)[i := ph])"
    using assms(2) s(2) set_update_subset_insert[of "fc_phases s" i ph]
    unfolding books_def Let_def list_all_iff by blast
  define q where "q = (p \<noteq> NoClient)"
  show ?thesis
    using assms(2) s(1,3,4) l sum_list_update_nat[OF i, of uncounted ph] sum_list_update_nat[OF i, of due_proxy ph]
      sum_list_update_nat[OF i, of "due_escalation q" ph]
    unfolding books_def pays_def a(3) Let_def q_def[symmetric] fc_state.simps s(3) occs_append length_list_update
    by (cases q; simp del: sum_list_eq_0_iff)
qed

lemma books_reach:
  assumes "(fc_step E reqs)\<^sup>*\<^sup>* (fc_start reqs f) s" "books p (fc_start reqs f)"
  shows "books p s"
  using assms(1)
proof (induction rule: rtranclp_induct)
  case (step s t)
  then show ?case using books_step fc.reach_inv[OF step(1)] fc_inv_start by metis
qed (rule assms(2))

lemma books_done:
  assumes "books p s" "fc_done s"
  shows "balanced (p \<noteq> NoClient) (length (fc_phases s)) (fmetrics (fc_fetcher s))"
proof -
  have "uncounted ph = 0" "due_proxy ph = 0" "due_escalation q ph = 0" if "ph \<in> set (fc_phases s)" for ph q
    using that assms(2) by (auto simp: fc_done_def list_all_iff outcome_Some)
  then have "sum_list (map uncounted (fc_phases s)) = 0" "sum_list (map due_proxy (fc_phases s)) = 0"
    "sum_list (map (due_escalation q) (fc_phases s)) = 0" for q
    by simp_all
  with assms(1) show ?thesis by (simp add: books_def balanced_def Let_def)
qed


subsection \<open>Schedules\<close>

text \<open>One call after the other is one of the interleavings: it does what the sequential model of
  the fetcher does.\<close>

lemma alone_is_run:
  assumes "i < length reqs" "length phs = length reqs" "reqs ! i = (url, extra)"
    "fetch_alone E url extra (phs ! i) f w = (r, f', w')"
  shows "(fc_step E reqs)\<^sup>*\<^sup>* \<lparr>fc_fetcher = f, fc_phases = phs\<rparr> \<lparr>fc_fetcher = f', fc_phases = phs[i := Returned r]\<rparr>"
  using assms
proof (induction "phase_work (phs ! i)" arbitrary: phs f w rule: less_induct)
  case less
  show ?case
  proof (cases "outcome (phs ! i)")
    case None
    obtain ph1 f1 w1 where st: "fetch_step E url extra (phs ! i) f w = (ph1, f1, w1)" by (metis prod.exhaust)
    from None have "phase_work (phs ! i) \<noteq> 0" by (simp add: outcome_None)
    with less.prems fetch_step_work[OF st]
    have "(fc_step E reqs)\<^sup>*\<^sup>* \<lparr>fc_fetcher = f1, fc_phases = phs[i := ph1]\<rparr> \<lparr>fc_fetcher = f', fc_phases = phs[i := Returned r]\<rparr>"
      using less.hyps[of "phs[i := ph1]" f1 w1] alone_step[OF st] by simp
    moreover have "fc_step E reqs \<lparr>fc_fetcher = f, fc_phases = phs\<rparr> \<lparr>fc_fetcher = f1, fc_phases = phs[i := ph1]\<rparr>"
      using runs[of i reqs "\<lparr>fc_fetcher = f, fc_phases = phs\<rparr>" E w] less.prems(1,3) None st by (simp add: fc_move_def)
    ultimately show ?thesis by (rule converse_rtranclp_into_rtranclp[rotated])
  next
    case (Some r1)
    with less.prems have "phs ! i = Returned r" "f' = f" by (auto simp: outcome_Some)
    then have "phs[i := Returned r] = phs" by (metis list_update_id)
    with \<open>f' = f\<close> show ?thesis by simp
  qed
qed

lemma serial_run:
  assumes "reqs = pre @ rest" "length dn = length pre"
  shows "(fc_step E reqs)\<^sup>*\<^sup>* \<lparr>fc_fetcher = f, fc_phases = map Returned dn @ map (\<lambda>_. Gate) rest\<rparr>
    \<lparr>fc_fetcher = fst (snd (fetch_all E rest f w)), fc_phases = map Returned (dn @ fst (fetch_all E rest f w))\<rparr>"
  using assms
proof (induction rest arbitrary: pre dn f w)
  case (Cons req rest)
  obtain url extra where req: "req = (url, extra)" by fastforce
  obtain r f1 w1 where s: "FetchBodyWithHeaders E url extra f w = (r, f1, w1)" by (metis prod.exhaust)
  let ?phs = "map Returned dn @ map (\<lambda>_. Gate) (req # rest)"
  have "(fc_step E reqs)\<^sup>*\<^sup>* \<lparr>fc_fetcher = f, fc_phases = ?phs\<rparr> \<lparr>fc_fetcher = f1, fc_phases = ?phs[length dn := Returned r]\<rparr>"
    by (rule alone_is_run[of _ _ _ url extra _ _ w]) (use Cons.prems req s in \<open>simp_all add: nth_append alone_refines\<close>)
  also have "?phs[length dn := Returned r] = map Returned (dn @ [r]) @ map (\<lambda>_. Gate) rest"
    by (simp add: list_update_append)
  also have "(fc_step E reqs)\<^sup>*\<^sup>* \<lparr>fc_fetcher = f1, fc_phases = map Returned (dn @ [r]) @ map (\<lambda>_. Gate) rest\<rparr>
      \<lparr>fc_fetcher = fst (snd (fetch_all E rest f1 w1)), fc_phases = map Returned ((dn @ [r]) @ fst (fetch_all E rest f1 w1))\<rparr>"
    by (rule Cons.IH[of "pre @ [req]"]) (use Cons.prems in simp_all)
  finally show ?case by (cases "fetch_all E rest f1 w1") (simp add: req s)
qed simp

text \<open>The run of a schedule: whose turn it is, one section at a time.  A call that has returned
  misses its turn.\<close>

fun fc_exec :: "'w fetch_env \<Rightarrow> (string \<times> headers) list \<Rightarrow> nat list \<Rightarrow> 'w \<Rightarrow> fc_state \<Rightarrow> fc_state" where
  "fc_exec E reqs [] w s = s"
| "fc_exec E reqs (i # is) w s =
     (if i < length reqs \<and> outcome (fc_phases s ! i) = None
      then (let (s1, w1) = fc_move E reqs i w s in fc_exec E reqs is w1 s1)
      else fc_exec E reqs is w s)"

lemma fc_exec_run: "(fc_step E reqs)\<^sup>*\<^sup>* s (fc_exec E reqs is w s)"
proof (induction E reqs "is" w s rule: fc_exec.induct)
  case (2 E reqs i "is" w s)
  show ?case
  proof (cases "i < length reqs \<and> outcome (fc_phases s ! i) = None")
    case True
    obtain s1 w1 where m: "fc_move E reqs i w s = (s1, w1)" by fastforce
    with True have "fc_step E reqs s s1" using runs[of i reqs s E w] by simp
    with 2(1)[OF True m[symmetric] refl] True m show ?thesis
      by (simp add: converse_rtranclp_into_rtranclp)
  next
    case False
    with 2(2) show ?thesis by auto
  qed
qed simp

subsection \<open>The shared block cache\<close>

text \<open>Whatever a section does to the cache is at most one of the cache's operations.\<close>

definition cache_history :: "string set \<Rightarrow> Fetcher \<Rightarrow> Fetcher \<Rightarrow> bool" where
  "cache_history hosts f f' \<longleftrightarrow>
     (\<exists>ops. blockCache f' = map_option (bc_run ops) (blockCache f) \<and> marked_hosts ops \<subseteq> hosts \<and> (\<forall>h. UnmarkOp h \<notin> set ops))"

lemma history_refl: "blockCache f' = blockCache f \<Longrightarrow> cache_history H f f'"
  by (auto simp: cache_history_def bc_run_def option.map_id intro!: exI[of _ "[]"])

lemma history_trans: "cache_history H f g \<Longrightarrow> cache_history H g h \<Longrightarrow> cache_history H f h"
proof -
  assume "cache_history H f g" "cache_history H g h"
  then obtain xs ys where "blockCache g = map_option (bc_run xs) (blockCache f)" "blockCache h = map_option (bc_run ys) (blockCache g)"
    "marked_hosts xs \<union> marked_hosts ys \<subseteq> H" "\<forall>h. UnmarkOp h \<notin> set (xs @ ys)"
    by (auto simp: cache_history_def)
  then show ?thesis unfolding cache_history_def
    by (intro exI[of _ "xs @ ys"]) (auto simp: bc_run_def marked_hosts_append option.map_comp comp_def)
qed

lemma record_outcome_cache [simp]: "blockCache (record_outcome t url r f) = blockCache f"
  by (simp add: record_outcome_def split: option.split)

lemma should_retry_cache: "should_retry t url f = (b, f1) \<Longrightarrow> blockCache f1 = blockCache f"
  by (auto simp: should_retry_def split: option.splits prod.splits)

lemma section_history:
  assumes "fetch_step E url extra ph f w = (ph', f', w')"
  shows "cache_history {url_host E url} f f'"
proof (cases "(E, url, extra, ph, f, w)" rule: fetch_step.cases)
  case (4 E url extra f w)
  have "cache_history {url_host E url} f f1" if "is_blocked_host (env_now E w) (url_host E url) f = (b, f1)" for b f1
  proof (cases "blockCache f")
    case None
    with that show ?thesis by (intro history_refl) (simp add: is_blocked_host_def)
  next
    case (Some c)
    with that show ?thesis unfolding cache_history_def
      by (cases "IsBlocked (env_now E w) (url_host E url) c")
        (intro exI[of _ "[QueryOp (env_now E w) (url_host E url)]"], auto simp: is_blocked_host_def bc_run_def)
  qed
  with 4 assms show ?thesis by (auto split: prod.splits)
next
  case (7 E url extra a f w)
  have "cache_history {url_host E url} f (f\<lparr>blockCache := Some (Mark (env_now E w) (url_host E url) c)\<rparr>)" if "blockCache f = Some c" for c
    using that unfolding cache_history_def
    by (intro exI[of _ "[MarkOp (env_now E w) (url_host E url)]"]) (auto simp: bc_run_def)
  with 7 assms show ?thesis by (auto split: option.splits if_splits intro: history_refl)
qed (use assms in \<open>auto simp: Let_def intro!: history_refl dest: should_retry_cache split: prod.splits option.splits if_splits\<close>)


lemma history_mono: "cache_history H f g \<Longrightarrow> H \<subseteq> H' \<Longrightarrow> cache_history H' f g"
  unfolding cache_history_def by blast

lemma run_history:
  assumes "(fc_step E reqs)\<^sup>*\<^sup>* (fc_start reqs f) s"
  shows "cache_history (url_host E ` fst ` set reqs) f (fc_fetcher s)"
  using assms
proof (induction rule: rtranclp_induct)
  case base
  show ?case by (rule history_refl) (simp add: fc_start_def)
next
  case (step s t)
  from step(2) show ?case
  proof (rule fc_step_section)
    fix i ph g w w1
    assume a: "i < length reqs"
      "fetch_step E (fst (reqs ! i)) (snd (reqs ! i)) (fc_phases s ! i) (fc_fetcher s) w = (ph, g, w1)"
      "t = \<lparr>fc_fetcher = g, fc_phases = (fc_phases s)[i := ph]\<rparr>"
    then have "{url_host E (fst (reqs ! i))} \<subseteq> url_host E ` fst ` set reqs" by simp
    from history_trans[OF step.IH history_mono[OF section_history[OF a(2)] this]] a(3) show ?thesis by simp
  qed
qed

subsection \<open>Two calls that block at once\<close>

definition two_blocked :: fc_state where
  "two_blocked = fc_exec (lab_env (Inr (''denied'', [], 403)) (Inr ('''', [], 200))) [(''ab'', []), (''cd'', [])]
     (replicate 7 0 @ replicate 11 1 @ replicate 4 0) 0
     (fc_start [(''ab'', []), (''cd'', [])] (lab_fetcher\<lparr>proxyClient := NoClient\<rparr>))"

lemma two_blocked_run:
  "(fc_step (lab_env (Inr (''denied'', [], 403)) (Inr ('''', [], 200))) [(''ab'', []), (''cd'', [])])\<^sup>*\<^sup>*
     (fc_start [(''ab'', []), (''cd'', [])] (lab_fetcher\<lparr>proxyClient := NoClient\<rparr>)) two_blocked"
  unfolding two_blocked_def by (rule fc_exec_run)

lemma two_blocked_result:
  "fc_done two_blocked"
  "map_option Len (blockCache (fc_fetcher two_blocked)) = Some 2"
  "blockCacheSize (prom_run (fmetrics (fc_fetcher two_blocked)) fresh_metrics) = 1"
  by code_simp+


text \<open>Marking a host and publishing the number of hosts are three sections: of two calls that
  block at the same time the one that measured first may publish last, and the gauge then stays
  below the number of hosts in the cache.  With one call at a time it never does
  (\<open>gauge_bounds_cache\<close>).\<close>

lemma gauge_race:
  "\<exists>(E :: int fetch_env) reqs f s. gauge_ok f \<and> (fc_step E reqs)\<^sup>*\<^sup>* (fc_start reqs f) s \<and> fc_done s
     \<and> \<not> gauge_ok (fc_fetcher s)"
proof -
  have "gauge_ok (lab_fetcher\<lparr>proxyClient := NoClient\<rparr>)" "\<not> gauge_ok (fc_fetcher two_blocked)"
    using two_blocked_result(2,3)
    by (auto simp: gauge_ok_def lab_fetcher_def empty_fetcher_def prom_run_def fresh_metrics_def Len_def)
  then show ?thesis using two_blocked_result(1) two_blocked_run by blast
qed

subsection \<open>The properties of concurrent fetches\<close>



text \<open>C7: The counters account for every fetch also when the fetches run at the same time.  When
  all calls of a direct-first fetcher without retry tracker have returned, in whatever order
  their sections ran, each of them is counted once: as answered by the direct tier, as stopped by a
  block signal or as sent past the direct tier; the proxy tier's count is the number of
  escalations; and every block signal has led to one escalation when there is a proxy, and to
  none when there is not.\<close>

theorem concurrent_counters_account:
  assumes "directFirst f" "retryTracker f = None"
    "(fc_step E reqs)\<^sup>*\<^sup>* (fc_start reqs (f\<lparr>fmetrics := []\<rparr>)) s" "fc_done s"
  shows "let m = prom_run (fmetrics (fc_fetcher s)) fresh_metrics
   in (\<Sum>r \<leftarrow> [''ok'', ''err'']. vec_value (''direct'', r) (tierTotal m))
       + (\<Sum>s \<leftarrow> [''hard'', ''soft'', ''tls'']. vec_value s (blockSignal m))
       + (\<Sum>x \<leftarrow> [''domain_hint'', ''cached'']. vec_value x (escalations m)) = length reqs
    \<and> (\<Sum>r \<leftarrow> [''ok'', ''err'']. vec_value (''proxy'', r) (tierTotal m))
       = (\<Sum>x \<leftarrow> [''domain_hint'', ''cached'', ''hard'', ''soft'', ''tls'']. vec_value x (escalations m))
    \<and> (\<Sum>x \<leftarrow> [''hard'', ''soft'', ''tls'']. vec_value x (escalations m))
       = (if proxyClient f \<noteq> NoClient
          then \<Sum>s \<leftarrow> [''hard'', ''soft'', ''tls'']. vec_value s (blockSignal m) else 0)"
proof -
  have "untracked (proxyClient f) f" using assms(1,2) unfolding untracked_def by blast
  from books_reach[OF assms(3) books_start[OF this]] have "books (proxyClient f) s" .
  from books_done[OF this assms(4)] fc.reach_inv[OF assms(3) fc_inv_start]
  have "balanced (proxyClient f \<noteq> NoClient) (length reqs) (fmetrics (fc_fetcher s))" by (simp add: fc_inv_def)
  then show ?thesis by (simp add: prom_run_counts balanced_def ev_defs Let_def split: if_splits)
qed

theorem concurrent_counters_account_witness:
  "vec_value ''hard'' (blockSignal (prom_run (fmetrics (fc_fetcher two_blocked)) fresh_metrics))
   + vec_value ''soft'' (blockSignal (prom_run (fmetrics (fc_fetcher two_blocked)) fresh_metrics)) \<le> 2"
proof -
  have "lab_fetcher\<lparr>proxyClient := NoClient\<rparr> = lab_fetcher\<lparr>proxyClient := NoClient, fmetrics := []\<rparr>"
    by (simp add: lab_fetcher_def empty_fetcher_def)
  with two_blocked_run have "(fc_step (lab_env (Inr (''denied'', [], 403)) (Inr ('''', [], 200))) [(''ab'', []), (''cd'', [])])\<^sup>*\<^sup>*
    (fc_start [(''ab'', []), (''cd'', [])] (lab_fetcher\<lparr>proxyClient := NoClient, fmetrics := []\<rparr>)) two_blocked" by simp
  from concurrent_counters_account[OF _ _ this two_blocked_result(1)] show ?thesis
    by (simp add: lab_fetcher_def empty_fetcher_def Let_def)
qed


text \<open>C10: The block cache shared by concurrent calls is at every moment the cache that some
  sequence of its operations leaves, with no mark but for hosts of the requests and no unmark:
  it stays well-formed and within its capacity, and a host that becomes blocked was marked
  by one of the calls.\<close>

theorem concurrent_cache_history:
  assumes "(fc_step E reqs)\<^sup>*\<^sup>* (fc_start reqs f) s" "blockCache f = Some c" "bc_wf c"
  shows "\<exists>ops c'. blockCache (fc_fetcher s) = Some c' \<and> c' = bc_run ops c \<and> bc_wf c'
    \<and> marked_hosts ops \<subseteq> url_host E ` fst ` set reqs
    \<and> (\<forall>t h. fst (IsBlocked t h c') \<and> map_of (items c) h = None \<longrightarrow>
         h \<in> url_host E ` fst ` set reqs \<and> (\<exists>t0. MarkOp t0 h \<in> set ops \<and> t \<le> t0 + ttl c))"
proof -
  from run_history[OF assms(1)] assms(2) obtain ops where ops: "blockCache (fc_fetcher s) = Some (bc_run ops c)"
    "marked_hosts ops \<subseteq> url_host E ` fst ` set reqs"
    by (auto simp: cache_history_def)
  have "bc_wf (bc_run ops c)" unfolding bc_run_def by (rule dbc.invar_run[OF assms(3)])
  moreover have "\<exists>t0. MarkOp t0 h \<in> set ops \<and> t \<le> t0 + ttl c"
    if "fst (IsBlocked t h (bc_run ops c))" "map_of (items c) h = None" for t h
    using dbc.blocked_run_sound[of c h t ops] that by (auto simp: bc_run_def)
  moreover have "MarkOp t0 h \<in> set ops \<Longrightarrow> h \<in> marked_hosts ops" for t0 h
    by (induction ops rule: marked_hosts.induct) auto
  ultimately show ?thesis using ops by blast
qed


theorem concurrent_cache_history_witness:
  "\<exists>ops. blockCache (fc_fetcher two_blocked) = Some (bc_run ops (NewDirectBlockCache 10 4))
     \<and> marked_hosts ops \<subseteq> {''ab'', ''cd''}"
proof -
  have "blockCache (lab_fetcher\<lparr>proxyClient := NoClient\<rparr>) = Some (NewDirectBlockCache 10 4)"
    by (simp add: lab_fetcher_def)
  from concurrent_cache_history[OF two_blocked_run this bc_wf_New] show ?thesis
    by (auto simp: lab_env_def url_host_def)
qed

end
