(* ===== verification/Go_Regexp.thy ===== *)
theory Go_Regexp
  imports Go_Trim
begin

text \<open>
  Package \<open>regexp\<close>, as far as the engine uses it on bytes: the leftmost-first
  (Perl) match.  A pattern is run from a state, the byte before the position and the
  text from the position on; the answer is the list of states it can stop in, in the
  order a backtracking matcher tries them, so the first one is the match.
  \<open>\b\<close> is the ASCII word boundary.
\<close>

datatype rx =
    RCls "char \<Rightarrow> bool"
  | RSeq rx rx
  | RAlt rx rx
  | ROpt rx
  | RStar rx
  | RLazy rx
  | RWordB

type_synonym rx_state = "char option \<times> string"

definition is_word_byte :: "char \<Rightarrow> bool" where
  "is_word_byte c \<longleftrightarrow> is_digit_byte c \<or> 65 \<le> byte c \<and> byte c \<le> 90
     \<or> 97 \<le> byte c \<and> byte c \<le> 122 \<or> c = CHR ''_''"

definition word_boundary :: "rx_state \<Rightarrow> bool" where
  "word_boundary s \<longleftrightarrow>
     (case fst s of None \<Rightarrow> False | Some c \<Rightarrow> is_word_byte c)
     \<noteq> (case snd s of [] \<Rightarrow> False | c # _ \<Rightarrow> is_word_byte c)"

function rx_run :: "rx \<Rightarrow> rx_state \<Rightarrow> rx_state list" where
  "rx_run (RCls P) s = (case snd s of [] \<Rightarrow> [] | c # cs \<Rightarrow> if P c then [(Some c, cs)] else [])"
| "rx_run (RSeq a b) s = concat (map (rx_run b) (rx_run a s))"
| "rx_run (RAlt a b) s = rx_run a s @ rx_run b s"
| "rx_run (ROpt a) s = rx_run a s @ [s]"
| "rx_run (RStar a) s =
     concat (map (rx_run (RStar a)) (filter (\<lambda>t. length (snd t) < length (snd s)) (rx_run a s))) @ [s]"
| "rx_run (RLazy a) s =
     s # concat (map (rx_run (RLazy a)) (filter (\<lambda>t. length (snd t) < length (snd s)) (rx_run a s)))"
| "rx_run RWordB s = (if word_boundary s then [s] else [])"
  by pat_completeness auto
termination
  by (relation "measures [\<lambda>(r, s). size r, \<lambda>(r, s). length (snd s)]") auto

declare rx_run.simps(5) [simp del]
declare rx_run.simps(6) [simp del]

text \<open>\<open>r*?\<close> is \<open>RLazy\<close>; \<open>r+\<close> and \<open>r{3}\<close>:\<close>

definition RPlus :: "rx \<Rightarrow> rx" where
  "RPlus a = RSeq a (RStar a)"

definition RThree :: "rx \<Rightarrow> rx" where
  "RThree a = RSeq a (RSeq a a)"

text \<open>A literal, and a literal under \<open>(?i)\<close>: the letter s also folds to U+017F.\<close>

fun RLit :: "string \<Rightarrow> rx" where
  "RLit [] = ROpt (RCls (\<lambda>_. False))"
| "RLit [c] = RCls (\<lambda>d. d = c)"
| "RLit (c # d # cs) = RSeq (RCls (\<lambda>x. x = c)) (RLit (d # cs))"

definition RFold :: "char \<Rightarrow> rx" where
  "RFold c = (let plain = RCls (\<lambda>d. lower_byte d = lower_byte c)
     in if lower_byte c = CHR ''s'' then RAlt plain (RLit [CHR 0xC5, CHR 0xBF]) else plain)"

fun RLitI :: "string \<Rightarrow> rx" where
  "RLitI [] = ROpt (RCls (\<lambda>_. False))"
| "RLitI [c] = RFold c"
| "RLitI (c # d # cs) = RSeq (RFold c) (RLitI (d # cs))"

text \<open>\<open>FindStringSubmatch\<close> for a pattern \<open>pre(cap)post\<close> with one group: the text of
  the group in the first match of the leftmost position that has one.\<close>

fun rx_submatch :: "rx \<Rightarrow> rx \<Rightarrow> rx \<Rightarrow> char option \<Rightarrow> string \<Rightarrow> string option" where
  "rx_submatch pre cap post p s =
     (case concat (map (\<lambda>u. concat (map (\<lambda>v. map (\<lambda>_. take (length (snd u) - length (snd v)) (snd u)) (rx_run post v))
             (rx_run cap u))) (rx_run pre (p, s))) of
        m # _ \<Rightarrow> Some m
      | [] \<Rightarrow> (case s of [] \<Rightarrow> None | c # cs \<Rightarrow> rx_submatch pre cap post (Some c) cs))"

declare rx_submatch.simps [simp del]

text \<open>\<open>FindAllStringIndex(s, -1)\<close> for a pattern that never matches the empty
  string: the matches from left to right, without overlap.  \<open>p\<close> is the byte
  before the rest \<open>s\<close> and \<open>i\<close> the position of the rest.\<close>

function rx_find_all :: "rx \<Rightarrow> char option \<Rightarrow> string \<Rightarrow> nat \<Rightarrow> (nat \<times> nat) list" where
  "rx_find_all r p [] i = []"
| "rx_find_all r p (c # cs) i =
     (case filter (\<lambda>t. length (snd t) < length (c # cs)) (take 1 (rx_run r (p, c # cs))) of
        [] \<Rightarrow> rx_find_all r (Some c) cs (Suc i)
      | t # _ \<Rightarrow> let n = Suc (length cs) - length (snd t)
                 in (i, i + n) # rx_find_all r (fst t) (snd t) (i + n))"
  by pat_completeness auto
termination
proof (relation "measure (\<lambda>(r, p, s, i). length s)", goal_cases)
  case (3 r p c cs i t ts n)
  from \<open>filter _ _ = t # ts\<close> have "length (snd t) < length (c # cs)"
    using Cons_eq_filterD[OF \<open>filter _ _ = t # ts\<close>[symmetric]] by blast
  then show ?case by simp
qed auto

subsection \<open>What a run consumes\<close>

text \<open>The byte before the position after consuming \<open>w\<close>.\<close>

definition last_byte :: "char option \<Rightarrow> string \<Rightarrow> char option" where
  "last_byte p w = (if w = [] then p else Some (last w))"

lemma last_byte_simps [simp]:
  "last_byte p [] = p"
  "last_byte (last_byte p u) v = last_byte p (u @ v)"
  "last_byte p (w @ [c]) = Some c"
  by (auto simp: last_byte_def)

text \<open>\<open>t\<close> is reached from \<open>s\<close> by consuming \<open>w\<close>.\<close>

definition consumes :: "rx_state \<Rightarrow> string \<Rightarrow> rx_state \<Rightarrow> bool" where
  "consumes s w t \<longleftrightarrow> snd s = w @ snd t \<and> fst t = last_byte (fst s) w"

lemma consumes_refl [simp, intro]: "consumes s [] s"
  by (simp add: consumes_def)

lemma consumes_trans: "consumes s u t \<Longrightarrow> consumes t v r \<Longrightarrow> consumes s (u @ v) r"
  by (auto simp: consumes_def)

lemma consumes_unique: "consumes s w t \<Longrightarrow> consumes s w' t \<Longrightarrow> w = w'"
  by (auto simp: consumes_def)

lemma rx_star_cases:
  assumes "t \<in> set (rx_run (RStar a) s)"
  obtains "t = s" | u where "u \<in> set (rx_run a s)" "length (snd u) < length (snd s)"
    "t \<in> set (rx_run (RStar a) u)"
  using assms by (subst (asm) rx_run.simps(5)) auto

lemma rx_star_consumes:
  assumes "\<And>s t. t \<in> set (rx_run a s) \<Longrightarrow> \<exists>w. consumes s w t \<and> P w"
    and "t \<in> set (rx_run (RStar a) s)"
  shows "\<exists>ws. consumes s (concat ws) t \<and> list_all P ws"
  using assms(2)
proof (induction "length (snd s)" arbitrary: s rule: less_induct)
  case less
  from less.prems show ?case
  proof (cases rule: rx_star_cases)
    case 1
    then show ?thesis by (auto intro: exI[of _ "[]"])
  next
    case (2 u)
    from assms(1)[OF 2(1)] obtain w where w: "consumes s w u" "P w" by blast
    from less.hyps[OF 2(2) 2(3)] obtain ws where "consumes u (concat ws) t" "list_all P ws" by blast
    with w show ?thesis by (intro exI[of _ "w # ws"]) (auto intro: consumes_trans)
  qed
qed

lemma rx_lazy_consumes:
  assumes "\<And>s t. t \<in> set (rx_run a s) \<Longrightarrow> \<exists>w. consumes s w t"
    and "t \<in> set (rx_run (RLazy a) s)"
  shows "\<exists>w. consumes s w t"
  using assms(2)
proof (induction "length (snd s)" arbitrary: s rule: less_induct)
  case less
  from less.prems consider "t = s" | u where "u \<in> set (rx_run a s)" "length (snd u) < length (snd s)"
    "t \<in> set (rx_run (RLazy a) u)" by (subst (asm) rx_run.simps(6)) auto
  then show ?case
  proof cases
    case 1
    then show ?thesis by (auto intro: exI[of _ "[]"])
  next
    case (2 u)
    then show ?thesis using assms(1)[OF 2(1)] less.hyps[OF 2(2,3)] by (meson consumes_trans)
  qed
qed

lemma rx_cls_consumes: "t \<in> set (rx_run (RCls P) s) \<Longrightarrow> \<exists>c. consumes s [c] t \<and> P c"
  by (auto simp: consumes_def last_byte_def split: list.splits if_splits)

lemma rx_consumes: "t \<in> set (rx_run r s) \<Longrightarrow> \<exists>w. consumes s w t"
proof (induction r arbitrary: s t)
  case (RCls P)
  then show ?case using rx_cls_consumes by blast
next
  case (RSeq a b)
  from RSeq.prems obtain u where "u \<in> set (rx_run a s)" "t \<in> set (rx_run b u)" by auto
  with RSeq.IH show ?case by (meson consumes_trans)
next
  case (RStar a)
  have "\<And>s t. t \<in> set (rx_run a s) \<Longrightarrow> \<exists>w. consumes s w t \<and> True" using RStar.IH by blast
  from rx_star_consumes[OF this RStar.prems] show ?case by blast
next
  case (RLazy a)
  from rx_lazy_consumes[OF RLazy.IH RLazy.prems] show ?case .
qed (auto split: if_splits)

lemma rx_cls_star_consumes:
  assumes "t \<in> set (rx_run (RStar (RCls P)) s)"
  shows "\<exists>w. consumes s w t \<and> list_all P w"
proof -
  have "\<And>s t. t \<in> set (rx_run (RCls P) s) \<Longrightarrow> \<exists>w. consumes s w t \<and> list_all P w"
    using rx_cls_consumes by fastforce
  from rx_star_consumes[OF this assms] obtain ws where "consumes s (concat ws) t" "list_all (list_all P) ws"
    by blast
  moreover from this(2) have "list_all P (concat ws)" by (induction ws) auto
  ultimately show ?thesis by blast
qed

lemma rx_cls_plus_consumes:
  assumes "t \<in> set (rx_run (RPlus (RCls P)) s)"
  shows "\<exists>w. consumes s w t \<and> w \<noteq> [] \<and> list_all P w"
proof -
  from assms obtain u where u: "u \<in> set (rx_run (RCls P) s)" "t \<in> set (rx_run (RStar (RCls P)) u)"
    by (auto simp: RPlus_def)
  obtain c where "consumes s [c] u" "P c" using rx_cls_consumes[OF u(1)] by blast
  moreover obtain w where "consumes u w t" "list_all P w" using rx_cls_star_consumes[OF u(2)] by blast
  ultimately show ?thesis using consumes_trans[of s "[c]" u w t] by (intro exI[of _ "c # w"]) simp
qed

text \<open>Every match found is a match of the pattern where it starts.\<close>

lemma rx_find_all_sound:
  assumes "(a, b) \<in> set (rx_find_all r p s i)"
  shows "\<exists>k q t. a = i + k \<and> k < length s \<and> q = last_byte p (take k s)
    \<and> t \<in> set (rx_run r (q, drop k s)) \<and> a < b \<and> b \<le> i + length s
    \<and> consumes (q, drop k s) (take (b - a) (drop k s)) t"
  using assms
proof (induction r p s i rule: rx_find_all.induct)
  case (2 r p c cs i)
  let ?hit = "filter (\<lambda>t. length (snd t) < length (c # cs)) (take 1 (rx_run r (p, c # cs)))"
  show ?case
  proof (cases ?hit)
    case Nil
    with 2(3) have "(a, b) \<in> set (rx_find_all r (Some c) cs (Suc i))" by simp
    from 2(1)[OF Nil this] obtain k q t where k: "a = Suc i + k" "k < length cs" "q = last_byte (Some c) (take k cs)"
      "t \<in> set (rx_run r (q, drop k cs))" "a < b" "b \<le> Suc i + length cs"
      "consumes (q, drop k cs) (take (b - a) (drop k cs)) t" by blast
    then have "last_byte p (take (Suc k) (c # cs)) = q" by (simp add: last_byte_def)
    with k show ?thesis by (intro exI[of _ "Suc k"] exI[of _ q] exI[of _ t]) simp
  next
    case (Cons t ts)
    then have "t \<in> set ?hit" by simp
    then have lt: "length (snd t) < length (c # cs)" and tin: "t \<in> set (rx_run r (p, c # cs))"
      using in_set_takeD by fastforce+
    from rx_consumes[OF tin] obtain w where w: "consumes (p, c # cs) w t" by blast
    then have cw: "c # cs = w @ snd t" by (simp add: consumes_def)
    then have len: "length w = Suc (length cs) - length (snd t)"
      by (metis diff_add_inverse2 length_Cons length_append)
    let ?n = "length w"
    have npos: "0 < ?n" using lt len by simp
    from 2(3) Cons len have "(a, b) = (i, i + ?n) \<or> (a, b) \<in> set (rx_find_all r (fst t) (snd t) (i + ?n))"
      by (simp add: Let_def)
    then show ?thesis
    proof
      assume ab: "(a, b) = (i, i + ?n)"
      have "take ?n (c # cs) = w" using cw by (metis append_eq_conv_conj)
      then show ?thesis using ab npos w tin cw
        by (intro exI[of _ 0] exI[of _ p] exI[of _ t]) (auto simp: last_byte_def dest: arg_cong[of _ _ length])
    next
      assume "(a, b) \<in> set (rx_find_all r (fst t) (snd t) (i + ?n))"
      from 2(2)[OF Cons len this] obtain k q u where k: "a = i + ?n + k" "k < length (snd t)"
        "q = last_byte (fst t) (take k (snd t))" "u \<in> set (rx_run r (q, drop k (snd t)))" "a < b"
        "b \<le> i + ?n + length (snd t)" "consumes (q, drop k (snd t)) (take (b - a) (drop k (snd t))) u"
        by blast
      have "drop (?n + k) (c # cs) = drop k (snd t)" "take (?n + k) (c # cs) = w @ take k (snd t)"
        using cw by simp_all
      moreover have "q = last_byte p (w @ take k (snd t))" using k(3) w by (simp add: consumes_def)
      moreover have "length (c # cs) = ?n + length (snd t)" using cw by (metis length_append)
      ultimately show ?thesis using k
        by (intro exI[of _ "?n + k"] exI[of _ q] exI[of _ u]) (simp add: add.assoc)
    qed
  qed
qed simp

subsection \<open>Replacing matches\<close>

text \<open>\<open>ReplaceAllString(s, repl)\<close> for a replacement without \<open>$\<close>: the text between
  the matches with the replacement for each match.\<close>

fun replace_spans :: "string \<Rightarrow> nat \<Rightarrow> (nat \<times> nat) list \<Rightarrow> string \<Rightarrow> string" where
  "replace_spans s i [] repl = drop i s"
| "replace_spans s i ((a, b) # ms) repl = take (a - i) (drop i s) @ repl @ replace_spans s b ms repl"

definition rx_replace_all :: "rx \<Rightarrow> string \<Rightarrow> string \<Rightarrow> string" where
  "rx_replace_all r s repl = replace_spans s 0 (rx_find_all r None s 0) repl"

lemma rx_replace_none: "rx_find_all r None s 0 = [] \<Longrightarrow> rx_replace_all r s repl = s"
  by (simp add: rx_replace_all_def)

lemma replace_spans_set: "set (replace_spans s i ms repl) \<subseteq> set s \<union> set repl"
proof (induction s i ms repl rule: replace_spans.induct)
  case (2 s i a b ms repl)
  then show ?case by (auto dest!: in_set_takeD in_set_dropD)
qed (auto dest: in_set_dropD)

lemma rx_replace_all_set: "set (rx_replace_all r s repl) \<subseteq> set s \<union> set repl"
  unfolding rx_replace_all_def by (rule replace_spans_set)

text \<open>For \<open>[class]+\<close> the replacement acts on the maximal runs of the class.\<close>

function collapse :: "(char \<Rightarrow> bool) \<Rightarrow> string \<Rightarrow> string \<Rightarrow> string" where
  "collapse P repl [] = []"
| "collapse P repl (c # cs) = (if P c then repl @ collapse P repl (dropWhile P cs) else c # collapse P repl cs)"
  by pat_completeness auto
termination
  by (relation "measure (\<lambda>(P, repl, s). length s)") (auto simp: length_dropWhile_le le_imp_less_Suc)

lemma hd_star_cls:
  "\<exists>rest. rx_run (RStar (RCls P)) (p, s) = (last_byte p (takeWhile P s), dropWhile P s) # rest"
proof (induction s arbitrary: p)
  case Nil
  then show ?case by (simp add: rx_run.simps(5))
next
  case (Cons c s)
  from Cons[of "Some c"] show ?case by (subst rx_run.simps(5)) (auto simp: last_byte_def)
qed

lemma hd_plus_cls:
  "P c \<Longrightarrow> \<exists>rest. rx_run (RPlus (RCls P)) (p, c # cs) = (last_byte (Some c) (takeWhile P cs), dropWhile P cs) # rest"
  using hd_star_cls[of P "Some c" cs] by (simp add: RPlus_def)

lemma replace_plus_cls:
  "full = pre @ s \<Longrightarrow> i = length pre \<Longrightarrow> j \<le> i \<Longrightarrow>
   replace_spans full j (rx_find_all (RPlus (RCls P)) p s i) repl = drop j pre @ collapse P repl s"
proof (induction P repl s arbitrary: pre i j p rule: collapse.induct)
  case (1 P repl)
  then show ?case by simp
next
  case (2 P repl c cs)
  show ?case
  proof (cases "P c")
    case True
    let ?t = "takeWhile P cs" and ?d = "dropWhile P cs"
    obtain rest where r: "rx_run (RPlus (RCls P)) (p, c # cs) = (last_byte (Some c) ?t, ?d) # rest"
      using hd_plus_cls[of P c, OF True] by blast
    have len: "Suc (length cs) - length ?d = Suc (length ?t)"
      by (metis Suc_diff_le diff_add_inverse2 length_append length_dropWhile_le takeWhile_dropWhile_id)
    have lt: "length ?d < Suc (length cs)" by (simp add: length_dropWhile_le le_imp_less_Suc)
    have find: "rx_find_all (RPlus (RCls P)) p (c # cs) i
        = (i, i + Suc (length ?t)) # rx_find_all (RPlus (RCls P)) (last_byte (Some c) ?t) ?d (i + Suc (length ?t))"
      using r lt len by (simp add: Let_def)
    have full: "full = (pre @ c # ?t) @ ?d" using 2(3) by simp
    have IH: "replace_spans full (i + Suc (length ?t))
        (rx_find_all (RPlus (RCls P)) (last_byte (Some c) ?t) ?d (i + Suc (length ?t))) repl
      = drop (i + Suc (length ?t)) (pre @ c # ?t) @ collapse P repl ?d"
      by (rule 2(1)[OF True full]) (use 2(4) in simp_all)
    have "take (i - j) (drop j full) = drop j pre" using 2(3-5) by simp
    then show ?thesis using find IH True 2(4) by simp
  next
    case False
    have find: "rx_find_all (RPlus (RCls P)) p (c # cs) i = rx_find_all (RPlus (RCls P)) (Some c) cs (Suc i)"
      using False by (simp add: RPlus_def)
    have "replace_spans full j (rx_find_all (RPlus (RCls P)) (Some c) cs (Suc i)) repl
        = drop j (pre @ [c]) @ collapse P repl cs"
      by (rule 2(2)[OF False]) (use 2(3-5) in simp_all)
    then show ?thesis using find False 2(4,5) by simp
  qed
qed

lemma rx_replace_plus_cls: "rx_replace_all (RPlus (RCls P)) s repl = collapse P repl s"
  using replace_plus_cls[of s "[]" s 0 0 P None repl] by (simp add: rx_replace_all_def)

lemma collapse_set: "x \<in> set (collapse P repl s) \<Longrightarrow> x \<in> set repl \<or> x \<in> set s \<and> \<not> P x"
  by (induction P repl s rule: collapse.induct) (auto split: if_splits dest: set_dropWhileD)

end
