(* ===== verification/Image_Search.thy ===== *)
theory Image_Search
  imports Http_Client Go_Regexp Go_Int Mutex_Collect
begin

text \<open>
  Package \<open>imagesearch\<close>: the five image engines (\<open>yandex.go\<close>, \<open>ddg.go\<close>, \<open>google.go\<close>,
  \<open>brave.go\<close>, \<open>bing.go\<close>), the plain HTTP doer (\<open>doer_http.go\<close>), the headers
  (\<open>headers.go\<close>), the fusion (\<open>fusion.go\<close>) and the parallel search (\<open>search.go\<close>).  An
  engine answers results or an error; slicing a longer list to a negative maximum panics, which
  is \<open>None\<close>.
\<close>

subsection \<open>Matches with groups\<close>

text \<open>A pattern as the sequence of its parts, each captured or not: the groups and the end of
  each way to match, in the order they are tried.\<close>

fun rx_groups :: "(bool \<times> rx) list \<Rightarrow> rx_state \<Rightarrow> (string list \<times> rx_state) list" where
  "rx_groups [] s = [([], s)]"
| "rx_groups ((cap, r) # ps) s =
     concat (map (\<lambda>u. map (\<lambda>(gs, t). (if cap then take (length (snd s) - length (snd u)) (snd s) # gs else gs, t))
       (rx_groups ps u)) (rx_run r s))"

text \<open>\<open>FindAllStringSubmatchIndex(s, -1)\<close> for a pattern that never matches the empty string:
  where each match starts and ends, and its groups.\<close>

function rx_all_groups :: "(bool \<times> rx) list \<Rightarrow> char option \<Rightarrow> string \<Rightarrow> nat \<Rightarrow> (nat \<times> nat \<times> string list) list" where
  "rx_all_groups ps p [] i = []"
| "rx_all_groups ps p (c # cs) i =
     (case filter (\<lambda>(gs, t). length (snd t) < length (c # cs)) (take 1 (rx_groups ps (p, c # cs))) of
        [] \<Rightarrow> rx_all_groups ps (Some c) cs (Suc i)
      | (gs, t) # _ \<Rightarrow> let n = Suc (length cs) - length (snd t)
                 in (i, i + n, gs) # rx_all_groups ps (fst t) (snd t) (i + n))"
  by pat_completeness auto
termination
proof (relation "measure (\<lambda>(ps, p, s, i). length s)", goal_cases)
  case (3 ps p c cs i a list gs t n)
  then have "(gs, t) \<in> set (filter (\<lambda>(gs, t). length (snd t) < length (c # cs)) (take 1 (rx_groups ps (p, c # cs))))"
    by simp
  then show ?case by simp
qed auto

definition find_all_groups :: "(bool \<times> rx) list \<Rightarrow> string \<Rightarrow> (nat \<times> nat \<times> string list) list" where
  "find_all_groups ps s = rx_all_groups ps None s 0"

text \<open>The first match only.\<close>

definition find_groups :: "(bool \<times> rx) list \<Rightarrow> string \<Rightarrow> string list option" where
  "find_groups ps s = (case find_all_groups ps s of [] \<Rightarrow> None | (_, _, gs) # _ \<Rightarrow> Some gs)"

definition not_quote :: rx where
  "not_quote = RCls (\<lambda>c. c \<noteq> CHR 0x22)"

definition quote :: string where
  "quote = [CHR 0x22]"

subsection \<open>Results, headers, doers\<close>

record ImageResult =
  im_URL :: string
  im_Thumbnail :: string
  im_Source :: string
  im_Title :: string
  im_Width :: int
  im_Height :: int
  im_Engine :: string

definition searchHeadersFor :: "string \<Rightarrow> string option \<Rightarrow> headers" where
  "searchHeadersFor defaultUA d = AList.delete ''accept-encoding'' (ChromeHeadersFor defaultUA d)"

definition androidHeaders :: headers where
  "androidHeaders =
     [(''user-agent'', ''NSTN/3.60.474802233.release Dalvik/2.1.0 (Linux; U; Android 12; US) gzip''),
      (''accept'', ''text/html,application/xhtml+xml,application/xml;q=0.9,*/*;q=0.8''),
      (''accept-language'', ''en-US,en;q=0.9'')]"

text \<open>\<open>HTTPDoer.Do\<close>: the answer's headers keep the keys of \<open>net/http\<close>, in canonical form.\<close>

definition HTTPDoer_Do :: "'w http_client \<Rightarrow> 'w doer" where
  "HTTPDoer_Do C req w =
     (case NewRequest C (Url req) of
        Some e \<Rightarrow> (Inl e, w)
      | None \<Rightarrow>
          (case Client_Do C req w of
             (Inl e, w1) \<Rightarrow> (Inl e, w1)
           | (Inr r, w1) \<Rightarrow>
               (case ReadAll r of
                  Inl e \<Rightarrow> Inl e
                | Inr data \<Rightarrow> Inr (data, Header r, StatusCode r), w1)))"

text \<open>What is outside the package: the context, the default user agent, the JSON decoders, the
  HTML unescaping, the query of an address, and the renderer.\<close>

record yandexEntity =
  ye_OrigURL :: string
  ye_Image :: string
  ye_OrigWidth :: int
  ye_OrigHeight :: int
  ye_Title :: string
  ye_Domain :: string
  ye_URL :: string

record yandexDup =
  yd_URL :: string
  yd_W :: int
  yd_H :: int
  yd_Title :: string
  yd_SourceURL :: string
  yd_Thumb :: string

record ddgImageResult =
  di_Image :: string
  di_Thumbnail :: string
  di_URL :: string
  di_Title :: string
  di_Width :: int
  di_Height :: int

record googleMetadata =
  gm_ReferrerURL :: string
  gm_PageTitle :: string
  gm_URL :: string
  gm_Width :: int
  gm_Height :: int
  gm_Thumb :: string

record bingMAttr =
  bm_Murl :: string
  bm_Turl :: string
  bm_Purl :: string
  bm_T :: string
  bm_Mw :: string
  bm_Mh :: string

record 'w image_env =
  ie_ctxErr :: "'w \<Rightarrow> go_error option"
  ie_defaultUA :: string
  ie_unescape :: "string \<Rightarrow> string"
  ie_query :: "string \<Rightarrow> string \<Rightarrow> string option"
  ie_dec_state :: "string \<Rightarrow> (string, yandexEntity) gomap result"
  ie_dec_viewer :: "string \<Rightarrow> yandexDup list result"
  ie_dec_ddg :: "string \<Rightarrow> ddgImageResult list result"
  ie_dec_google :: "string \<Rightarrow> googleMetadata list result"
  ie_dec_bing :: "string \<Rightarrow> bingMAttr result"
  ie_range :: "(string, yandexEntity) gomap \<Rightarrow> yandexEntity list"
  ie_Renderer :: "(string \<Rightarrow> 'w \<Rightarrow> string result \<times> 'w) option"

text \<open>\<open>ie_range\<close> is the order in which \<open>range\<close> walks a map: any order of its values.\<close>

definition range_law :: "'w image_env \<Rightarrow> bool" where
  "range_law E \<longleftrightarrow> (\<forall>m. mset (ie_range E m) = mset (map snd m))"

definition cut_max :: "int \<Rightarrow> 'a list \<Rightarrow> 'a list option" where
  "cut_max n rs = (if int (length rs) > n then if n < 0 then None else Some (take (nat n) rs) else Some rs)"

type_synonym 'w image_answer = "(ImageResult list result \<times> 'w) option"

definition cut_answer :: "int \<Rightarrow> ImageResult list \<Rightarrow> 'w \<Rightarrow> 'w image_answer" where
  "cut_answer n rs w = map_option (\<lambda>xs. (Inr xs, w)) (cut_max n rs)"

type_synonym 'w image_engine = "'w browser \<Rightarrow> string \<Rightarrow> int \<Rightarrow> 'w \<Rightarrow> 'w image_answer"

subsection \<open>Yandex\<close>

text \<open>\<open>data-state="([^"]+)"\<close>.\<close>

definition dataStateRe :: "(bool \<times> rx) list" where
  "dataStateRe = [(False, RLit (''data-state='' @ quote)), (True, RPlus not_quote), (False, RLit quote)]"

definition extractImgURL :: "'w image_env \<Rightarrow> string \<Rightarrow> string" where
  "extractImgURL E rawURL =
     (if rawURL = '''' then ''''
      else case ie_query E rawURL ''img_url'' of Some v \<Rightarrow> v | None \<Rightarrow> '''')"

definition https_thumb :: "string \<Rightarrow> string" where
  "https_thumb thumb = (if thumb \<noteq> '''' \<and> HasPrefix thumb ''//'' then ''https:'' @ thumb else thumb)"

definition yandex_dup :: "yandexDup \<Rightarrow> ImageResult option" where
  "yandex_dup d =
     (if yd_URL d = '''' then None
      else Some \<lparr>im_URL = yd_URL d, im_Thumbnail = https_thumb (yd_Thumb d), im_Source = yd_SourceURL d,
                 im_Title = yd_Title d, im_Width = yd_W d, im_Height = yd_H d, im_Engine = ''yandex''\<rparr>)"

definition yandex_entity :: "'w image_env \<Rightarrow> yandexEntity \<Rightarrow> ImageResult option" where
  "yandex_entity E e =
     (if ye_OrigURL e = '''' then None
      else
        let source = extractImgURL E (ye_URL e);
            source = (if source = '''' then ''https://'' @ ye_Domain e else source)
        in Some \<lparr>im_URL = ye_OrigURL e, im_Thumbnail = https_thumb (ye_Image e), im_Source = source,
                 im_Title = ye_Title e, im_Width = ye_OrigWidth e, im_Height = ye_OrigHeight e,
                 im_Engine = ''yandex''\<rparr>)"

text \<open>The loop over the data blocks of a page: the first block with entities decides; a block
  without entities decides when it lists duplicates.\<close>

fun yandex_blocks :: "'w image_env \<Rightarrow> string list \<Rightarrow> ImageResult list" where
  "yandex_blocks E [] = []"
| "yandex_blocks E (m # ms) =
     (let decoded = ie_unescape E m
      in case ie_dec_state E decoded of
           Inl _ \<Rightarrow> yandex_blocks E ms
         | Inr entities \<Rightarrow>
             if entities = []
             then (case ie_dec_viewer E decoded of
                     Inl _ \<Rightarrow> yandex_blocks E ms
                   | Inr dups \<Rightarrow>
                       let results = List.map_filter yandex_dup dups
                       in if results \<noteq> [] then results else yandex_blocks E ms)
             else List.map_filter (yandex_entity E) (ie_range E entities))"

definition parseYandexDataState :: "'w image_env \<Rightarrow> string \<Rightarrow> ImageResult list" where
  "parseYandexDataState E pageHTML =
     yandex_blocks E (map (\<lambda>(_, _, gs). hd gs) (find_all_groups dataStateRe pageHTML))"

definition yandexImagesURL :: string where
  "yandexImagesURL = ''https://yandex.ru/images/search''"

text \<open>The renderer's turn.\<close>

definition yandex_render :: "'w image_env \<Rightarrow> string \<Rightarrow> int \<Rightarrow> 'w \<Rightarrow> 'w image_answer" where
  "yandex_render E u n w =
     (case ie_Renderer E of
        None \<Rightarrow> Some (Inl (ErrNew ''yandex: no results from HTTP, renderer not configured''), w)
      | Some render \<Rightarrow>
          (case render u w of
             (Inl e, w1) \<Rightarrow> Some (Inl (ErrWrap ''yandex render: '' e), w1)
           | (Inr h, w1) \<Rightarrow> cut_answer n (parseYandexDataState E h) w1))"

definition YandexImages_Search :: "'w image_env \<Rightarrow> 'w image_engine" where
  "YandexImages_Search E doer query n w =
     (case ie_ctxErr E w of
        Some e \<Rightarrow> Some (Inl e, w)
      | None \<Rightarrow>
          let u = yandexImagesURL @ ''?text='' @ QueryEscape query;
              h = AList.update ''accept-language'' ''ru-RU,ru;q=0.9,en-US;q=0.8,en;q=0.7''
                    (searchHeadersFor (ie_defaultUA E) (identity doer));
              (ans, w1) = Do doer (get u h) w
          in (case ans of
                Inl _ \<Rightarrow> yandex_render E u n w1
              | Inr (data, respHeaders, status) \<Rightarrow>
                  if status \<noteq> 200 then yandex_render E u n w1
                  else if header_value ''x-yandex-captcha'' respHeaders \<noteq> ''''
                  then (if ie_Renderer E = None
                        then Some (Inl (ErrNew ''yandex: captcha detected, renderer not configured''), w1)
                        else yandex_render E u n w1)
                  else let results = parseYandexDataState E data
                       in if results \<noteq> [] then cut_answer n results w1 else yandex_render E u n w1))"

subsection \<open>DuckDuckGo\<close>

definition ddg_image :: "ddgImageResult \<Rightarrow> ImageResult option" where
  "ddg_image r =
     (if di_Image r = '''' then None
      else Some \<lparr>im_URL = di_Image r, im_Thumbnail = di_Thumbnail r, im_Source = di_URL r, im_Title = di_Title r,
                 im_Width = di_Width r, im_Height = di_Height r, im_Engine = ''ddg''\<rparr>)"

definition parseDDGImageJSON :: "'w image_env \<Rightarrow> string \<Rightarrow> ImageResult list" where
  "parseDDGImageJSON E data =
     (case ie_dec_ddg E data of Inl _ \<Rightarrow> [] | Inr rs \<Rightarrow> List.map_filter ddg_image rs)"

definition vqdPatterns :: "(bool \<times> rx) list list" where
  "vqdPatterns =
     [[(False, RLit (''vqd='' @ [CHR 0x27])), (True, RPlus (RCls (\<lambda>c. c \<noteq> CHR 0x27))), (False, RLit [CHR 0x27])],
      [(False, RLit (''vqd='' @ quote)), (True, RPlus not_quote), (False, RLit quote)],
      [(False, RLit ''vqd=''), (True, RPlus (RCls vqd_char))]]"

definition extractVQD :: "string \<Rightarrow> string" where
  "extractVQD body =
     (case first_some (\<lambda>p. find_groups p body) vqdPatterns of Some gs \<Rightarrow> hd gs | None \<Rightarrow> '''')"

definition ddgCookie :: string where
  "ddgCookie = ''ah=wt-wt; l=wt-wt; p=-1; ad=1''"

definition DdgImages_Search :: "'w image_env \<Rightarrow> 'w image_engine" where
  "DdgImages_Search E doer query n w =
     (case ie_ctxErr E w of
        Some e \<Rightarrow> Some (Inl e, w)
      | None \<Rightarrow>
          let tokenURL = ''https://duckduckgo.com/'' @ ''?q='' @ QueryEscape query @ ''&iax=images&ia=images'';
              base = searchHeadersFor (ie_defaultUA E) (identity doer);
              h = with_headers [(''referer'', ''https://duckduckgo.com/''), (''cookie'', ddgCookie)] base;
              (ans, w1) = Do doer (get tokenURL h) w
          in (case ans of
                Inl e \<Rightarrow> Some (Inl (ErrWrap ''ddg vqd request: '' e), w1)
              | Inr (data, _, status) \<Rightarrow>
                  if status \<noteq> 200 then Some (Inl (ErrNew (''ddg vqd: status '' @ Itoa status)), w1)
                  else let vqd = extractVQD data
                       in if vqd = '''' then Some (Inl (ErrNew ''ddg: vqd token not found''), w1)
                          else
                            let imagesURL = ''https://duckduckgo.com/i.js'' @ ''?l=wt-wt&o=json&q='' @ QueryEscape query
                                  @ ''&vqd='' @ QueryEscape vqd @ ''&f=,,,,,&p=1'';
                                imgHeaders = with_headers [(''referer'', ''https://duckduckgo.com/''),
                                  (''x-requested-with'', ''XMLHttpRequest''), (''sec-fetch-site'', ''same-origin''),
                                  (''sec-fetch-mode'', ''cors''), (''cookie'', ddgCookie)] base;
                                (ans2, w2) = Do doer (get imagesURL imgHeaders) w1
                            in (case ans2 of
                                  Inl e \<Rightarrow> Some (Inl (ErrWrap ''ddg images request: '' e), w2)
                                | Inr (imgData, _, imgStatus) \<Rightarrow>
                                    if imgStatus \<noteq> 200
                                    then Some (Inl (ErrNew (''ddg images: status '' @ Itoa imgStatus)), w2)
                                    else cut_answer n (parseDDGImageJSON E imgData) w2)))"

subsection \<open>Google\<close>

definition google_image :: "googleMetadata \<Rightarrow> ImageResult option" where
  "google_image m =
     (if gm_URL m = '''' then None
      else Some \<lparr>im_URL = gm_URL m, im_Thumbnail = gm_Thumb m, im_Source = gm_ReferrerURL m, im_Title = gm_PageTitle m,
                 im_Width = gm_Width m, im_Height = gm_Height m, im_Engine = ''google''\<rparr>)"

definition ischj_marker :: string where
  "ischj_marker = ''{'' @ quote @ ''ischj'' @ quote @ '':''"

definition parseGoogleImageJSON :: "'w image_env \<Rightarrow> string \<Rightarrow> ImageResult list" where
  "parseGoogleImageJSON E data =
     (case Index data ischj_marker of
        None \<Rightarrow> []
      | Some i \<Rightarrow>
          (case ie_dec_google E (drop i data) of
             Inl _ \<Rightarrow> []
           | Inr ms \<Rightarrow> List.map_filter google_image ms))"

definition GoogleImages_Search :: "'w image_env \<Rightarrow> 'w image_engine" where
  "GoogleImages_Search E doer query n w =
     (case ie_ctxErr E w of
        Some e \<Rightarrow> Some (Inl e, w)
      | None \<Rightarrow>
          let u = ''https://www.google.com/search'' @ ''?q='' @ QueryEscape query
                @ ''&tbm=isch&asearch=isch&async=_fmt:json,p:1,ijn:0'';
              (ans, w1) = Do doer (get u androidHeaders) w;
              results = (case ans of
                  Inr (data, _, status) \<Rightarrow> if status = 200 then parseGoogleImageJSON E data else []
                | Inl _ \<Rightarrow> [])
          in if results \<noteq> [] then cut_answer n results w1
             else (case ie_Renderer E of
                     None \<Rightarrow>
                       Some (Inl (case ans of
                           Inl e \<Rightarrow> ErrWrap ''google images request: '' e
                         | Inr (_, _, status) \<Rightarrow> ErrNew (''google images: status '' @ Itoa status @ '', no renderer'')), w1)
                   | Some render \<Rightarrow>
                       (case render (''https://www.google.com/search?q='' @ QueryEscape query @ ''&udm=2'') w1 of
                          (Inl e, w2) \<Rightarrow> Some (Inl (ErrWrap ''google render: '' e), w2)
                        | (Inr h, w2) \<Rightarrow> cut_answer n (parseGoogleImageJSON E h) w2)))"

subsection \<open>Brave\<close>

definition digit_plus :: rx where
  "digit_plus = RPlus (RCls is_digit_byte)"

text \<open>\<open>properties:\{url:"([^"]+)",resized:"[^"]*",height:(\d+),width:(\d+)\<close> and
  \<open>thumbnail:\{src:"([^"]+)"\<close>.\<close>

definition bravePropsRe :: "(bool \<times> rx) list" where
  "bravePropsRe =
     [(False, RLit (''properties:{url:'' @ quote)), (True, RPlus not_quote),
      (False, RLit (quote @ '',resized:'' @ quote)), (False, RStar not_quote), (False, RLit (quote @ '',height:'')),
      (True, digit_plus), (False, RLit '',width:''), (True, digit_plus)]"

definition braveThumbRe :: "(bool \<times> rx) list" where
  "braveThumbRe = [(False, RLit (''thumbnail:{src:'' @ quote)), (True, RPlus not_quote), (False, RLit quote)]"

definition extractLastQuoted :: "string \<Rightarrow> string \<Rightarrow> string" where
  "extractLastQuoted s pre =
     (case LastIndex s pre of
        None \<Rightarrow> ''''
      | Some i \<Rightarrow>
          let rest = drop (i + length pre) s
          in case Index rest quote of None \<Rightarrow> '''' | Some e \<Rightarrow> take e rest)"

text \<open>\<open>strconv.Atoi\<close> with its error ignored: 0 for text that is no number, the nearest bound
  for a number out of range.\<close>

definition Atoi_value :: "string \<Rightarrow> int" where
  "Atoi_value s =
     (case Atoi s of
        Some v \<Rightarrow> v
      | None \<Rightarrow>
          let (neg, ds) = (case s of [] \<Rightarrow> (False, [])
                | c # cs \<Rightarrow> if c = CHR ''-'' then (True, cs) else if c = CHR ''+'' then (False, cs) else (False, s))
          in if ds \<noteq> [] \<and> list_all is_digit_byte ds then (if neg then - (2 ^ 63) else 2 ^ 63 - 1) else 0)"

definition brave_image :: "string \<Rightarrow> nat \<times> nat \<times> string list \<Rightarrow> ImageResult" where
  "brave_image html m =
     (let (b, e, gs) = m;
          pre = take (b - (b - 500)) (drop (b - 500) html)
      in \<lparr>im_URL = gs ! 0,
          im_Thumbnail = (case find_groups braveThumbRe (take 300 (drop e html)) of Some t \<Rightarrow> hd t | None \<Rightarrow> ''''),
          im_Source = extractLastQuoted pre (''{url:'' @ quote),
          im_Title = extractLastQuoted pre (''title:'' @ quote),
          im_Width = Atoi_value (gs ! 2), im_Height = Atoi_value (gs ! 1), im_Engine = ''brave''\<rparr>)"

definition parseBraveImageHTML :: "string \<Rightarrow> ImageResult list" where
  "parseBraveImageHTML html = map (brave_image html) (find_all_groups bravePropsRe html)"

definition braveCookie :: string where
  "braveCookie = ''safesearch=off; useLocation=0; summarizer=0; country=us; ui_lang=en-us''"

text \<open>A page fetched in one request and parsed.\<close>

definition page_answer ::
  "string \<Rightarrow> string \<Rightarrow> (string \<Rightarrow> ImageResult list) \<Rightarrow> int \<Rightarrow> http_answer result \<Rightarrow> 'w \<Rightarrow> 'w image_answer" where
  "page_answer reqErr statusErr parse n ans w =
     (case ans of
        Inl e \<Rightarrow> Some (Inl (ErrWrap reqErr e), w)
      | Inr (data, _, status) \<Rightarrow>
          if status \<noteq> 200 then Some (Inl (ErrNew (statusErr @ Itoa status)), w)
          else cut_answer n (parse data) w)"

definition BraveImages_Search :: "'w image_env \<Rightarrow> 'w image_engine" where
  "BraveImages_Search E doer query n w =
     (case ie_ctxErr E w of
        Some e \<Rightarrow> Some (Inl e, w)
      | None \<Rightarrow>
          let u = ''https://search.brave.com/images'' @ ''?q='' @ QueryEscape query @ ''&source=web'';
              h = AList.update ''cookie'' braveCookie (searchHeadersFor (ie_defaultUA E) (identity doer));
              (ans, w1) = Do doer (get u h) w
          in page_answer ''brave images request: '' ''brave images: status '' parseBraveImageHTML n ans w1)"

subsection \<open>Bing\<close>

text \<open>\<open>m="(\{[^"]*\})"\<close>.\<close>

definition bingMAttrRe :: "(bool \<times> rx) list" where
  "bingMAttrRe =
     [(False, RLit (''m='' @ quote)), (True, RSeq (RLit ''{'') (RSeq (RStar not_quote) (RLit ''}''))), (False, RLit quote)]"

definition bing_image :: "'w image_env \<Rightarrow> string \<Rightarrow> ImageResult option" where
  "bing_image E raw =
     (case ie_dec_bing E (ReplaceAll (ReplaceAll raw ''&quot;'' quote) ''&amp;'' ''&'') of
        Inl _ \<Rightarrow> None
      | Inr a \<Rightarrow>
          if bm_Murl a = '''' then None
          else Some \<lparr>im_URL = bm_Murl a, im_Thumbnail = bm_Turl a, im_Source = bm_Purl a, im_Title = bm_T a,
                     im_Width = Atoi_value (bm_Mw a), im_Height = Atoi_value (bm_Mh a), im_Engine = ''bing''\<rparr>)"

definition parseBingHTML :: "'w image_env \<Rightarrow> string \<Rightarrow> ImageResult list" where
  "parseBingHTML E html = List.map_filter (bing_image E) (map (\<lambda>(_, _, gs). hd gs) (find_all_groups bingMAttrRe html))"

definition BingImages_Search :: "'w image_env \<Rightarrow> 'w image_engine" where
  "BingImages_Search E doer query n w =
     (case ie_ctxErr E w of
        Some e \<Rightarrow> Some (Inl e, w)
      | None \<Rightarrow>
          let cnt = (if n > 35 then 35 else n);
              u = ''https://www.bing.com/images/async'' @ ''?q='' @ QueryEscape query
                @ ''&first=0&count='' @ Itoa cnt @ ''&mmasync=1'';
              h = AList.update ''accept-language'' ''en-US,en;q=0.9'' (searchHeadersFor (ie_defaultUA E) (identity doer));
              (ans, w1) = Do doer (get u h) w
          in page_answer ''bing request: '' ''bing: status '' (parseBingHTML E) n ans w1)"

subsection \<open>Fusion\<close>

definition image_occs :: "ImageResult list list \<Rightarrow> (real \<times> ImageResult) list" where
  "image_occs sets = weighted_sets 0 sets []"

definition fuseWRR :: "ImageResult list list \<Rightarrow> ImageResult list" where
  "fuseWRR resultSets =
     (let (byURL, order) = fold (rrf_step im_URL) (image_occs resultSets) ([], []);
          entry = (\<lambda>u. case map_of byURL u of Some e \<Rightarrow> e)
      in sort_desc (\<lambda>r. snd (entry (im_URL r))) (map (\<lambda>u. fst (entry u)) order))"

text \<open>The score of an address: the sum of \<open>1 / (60 + rank)\<close> over its occurrences.\<close>

definition image_score :: "ImageResult list list \<Rightarrow> string \<Rightarrow> real" where
  "image_score sets u = wrr_score im_URL u (image_occs sets)"

lemma insort_key_agree: "\<forall>y \<in> set (x # ys). f y = g y \<Longrightarrow> insort_key f x ys = insort_key g x ys"
  by (induction ys) auto

lemma sort_key_agree: "\<forall>x \<in> set xs. f x = g x \<Longrightarrow> sort_key f xs = sort_key g xs"
proof (induction xs)
  case (Cons x xs)
  then have "\<forall>y \<in> set (x # sort_key g xs). f y = g y" by simp
  then have "insort_key f x (sort_key g xs) = insort_key g x (sort_key g xs)" by (rule insort_key_agree)
  with Cons show ?case by (simp add: sort_key_def)
qed simp

lemma image_fuse_alt:
  "fuseWRR sets = sort_desc (\<lambda>r. image_score sets (im_URL r))
     (map (\<lambda>u. the (first_with im_URL u (image_occs sets))) (fuse_urls im_URL (image_occs sets)))"
proof -
  let ?o = "image_occs sets"
  obtain m ord where f: "fold (rrf_step im_URL) ?o ([], []) = (m, ord)" by (rule prod.exhaust)
  note spec = rrf_fold_spec[OF f]
  have e: "map_of m u = Some (the (first_with im_URL u ?o), image_score sets u)
      \<and> im_URL (the (first_with im_URL u ?o)) = u" if "u \<in> set ord" for u
  proof -
    from that spec have "u \<noteq> ''''" "u \<in> (im_URL \<circ> snd) ` set ?o" by (auto simp: fuse_urls_def)
    moreover from this obtain r where "first_with im_URL u ?o = Some r"
      using first_with_None[of im_URL u ?o] by (cases "first_with im_URL u ?o") auto
    ultimately show ?thesis using spec by (simp add: image_score_def first_with_url)
  qed
  then have m: "map (\<lambda>u. fst (case map_of m u of Some e \<Rightarrow> e)) ord = map (\<lambda>u. the (first_with im_URL u ?o)) ord"
    by simp
  have "sort_desc (\<lambda>r. snd (case map_of m (im_URL r) of Some e \<Rightarrow> e)) (map (\<lambda>u. the (first_with im_URL u ?o)) ord)
      = sort_desc (\<lambda>r. image_score sets (im_URL r)) (map (\<lambda>u. the (first_with im_URL u ?o)) ord)"
    unfolding sort_desc_def by (rule sort_key_agree) (use e in auto)
  moreover have "ord = fuse_urls im_URL ?o" using spec by blast
  ultimately show ?thesis unfolding fuseWRR_def f Let_def case_prod_conv m by simp
qed

text \<open>Addresses of the fused list, in the order first seen before sorting.\<close>

lemma image_fuse_urls: "mset (map im_URL (fuseWRR sets)) = mset (fuse_urls im_URL (image_occs sets))"
proof -
  let ?o = "image_occs sets"
  have "map im_URL (map (\<lambda>u. the (first_with im_URL u ?o)) (fuse_urls im_URL ?o)) = fuse_urls im_URL ?o"
  proof (simp, rule map_idI)
    fix u
    assume "u \<in> set (fuse_urls im_URL ?o)"
    then have "u \<in> (im_URL \<circ> snd) ` set ?o" by (auto simp: fuse_urls_def)
    then obtain r where "first_with im_URL u ?o = Some r"
      using first_with_None[of im_URL u ?o] by (cases "first_with im_URL u ?o") auto
    then show "(im_URL \<circ> (\<lambda>u. the (first_with im_URL u ?o))) u = u" by (simp add: first_with_url)
  qed
  moreover have "mset (map f (sort_desc k xs)) = mset (map f xs)" for f and k :: "ImageResult \<Rightarrow> real" and xs
    by simp
  ultimately show ?thesis by (metis image_fuse_alt)
qed

lemma image_occs_mset: "mset (image_occs sets) = \<Sum>\<^sub># (mset (map (\<lambda>rs. mset (ranked 1 0 rs)) sets))"
proof -
  have "mset (weighted_sets i sets []) = \<Sum>\<^sub># (mset (map (\<lambda>rs. mset (ranked 1 0 rs)) sets))" for i
    by (induction sets arbitrary: i) auto
  then show ?thesis by (simp add: image_occs_def)
qed

lemma image_urls_set: "set (fuse_urls im_URL (image_occs sets)) = im_URL ` set (concat sets) - {''''}"
proof -
  have "map snd (image_occs sets) = concat sets" by (simp add: image_occs_def)
  then have "(im_URL \<circ> snd) ` set (image_occs sets) = im_URL ` set (concat sets)"
    by (metis image_comp set_map)
  then show ?thesis by (auto simp: fuse_urls_def)
qed

lemma image_score_perm: "mset sets = mset sets' \<Longrightarrow> image_score sets u = image_score sets' u"
proof -
  assume "mset sets = mset sets'"
  then have "mset (image_occs sets) = mset (image_occs sets')" unfolding image_occs_mset by simp
  then have "mset (map fst (filter (\<lambda>(_, r). im_URL r = u) (image_occs sets)))
      = mset (map fst (filter (\<lambda>(_, r). im_URL r = u) (image_occs sets')))" by simp
  then show ?thesis unfolding image_score_def wrr_score_def by (metis sum_mset_sum_list)
qed

lemma image_fuse_sorted: "sorted_wrt (\<lambda>a b. image_score sets (im_URL a) \<ge> image_score sets (im_URL b)) (fuseWRR sets)"
  unfolding image_fuse_alt by (rule sort_desc_sorted)

lemma image_fuse_distinct: "distinct (map im_URL (fuseWRR sets))"
  using mset_eq_imp_distinct_iff[OF image_fuse_urls[of sets]] by (simp add: fuse_urls_def)

lemma image_fuse_set: "im_URL ` set (fuseWRR sets) = im_URL ` set (concat sets) - {''''}"
  using mset_eq_setD[OF image_fuse_urls[of sets]] image_urls_set[of sets] by simp

lemma sorted_desc_unique:
  fixes xs ys :: "real list"
  assumes "sorted_wrt (\<ge>) xs" "sorted_wrt (\<ge>) ys" "mset xs = mset ys"
  shows "xs = ys"
proof -
  have "sorted (rev xs)" "sorted (rev ys)" using assms(1,2) by (simp_all add: sorted_wrt_rev)
  moreover have "mset (rev xs) = mset (rev ys)" using assms(3) by simp
  ultimately have "rev xs = rev ys" by (metis properties_for_sort)
  then show ?thesis by simp
qed

text \<open>The order in which the engines finish does not matter to the ranking: two runs with the
  same answers fuse to lists with the same addresses, each once, and with the same score at
  every position, so they can differ only in the order of equal scores and in which engine's
  description of an image is kept.\<close>

theorem image_ranking_stable:
  assumes "mset sets = mset sets'"
  shows "mset (map im_URL (fuseWRR sets)) = mset (map im_URL (fuseWRR sets'))
    \<and> distinct (map im_URL (fuseWRR sets))
    \<and> im_URL ` set (fuseWRR sets) = im_URL ` set (concat sets) - {''''}
    \<and> map (image_score sets \<circ> im_URL) (fuseWRR sets) = map (image_score sets \<circ> im_URL) (fuseWRR sets')"
proof -
  have "set (concat sets) = set (concat sets')" using mset_eq_setD[OF assms] by simp
  then have "set (map im_URL (fuseWRR sets)) = set (map im_URL (fuseWRR sets'))"
    using image_fuse_set by simp
  then have m: "mset (map im_URL (fuseWRR sets)) = mset (map im_URL (fuseWRR sets'))"
    using image_fuse_distinct set_eq_iff_mset_eq_distinct by blast
  have "image_score sets' = image_score sets" using image_score_perm[OF assms] by (intro ext) simp
  then have "sorted_wrt (\<ge>) (map (image_score sets \<circ> im_URL) (fuseWRR sets))"
    "sorted_wrt (\<ge>) (map (image_score sets \<circ> im_URL) (fuseWRR sets'))"
    using image_fuse_sorted[of sets] image_fuse_sorted[of sets'] by (simp_all add: sorted_wrt_map)
  moreover have "mset (map (image_score sets \<circ> im_URL) (fuseWRR sets))
      = mset (map (image_score sets \<circ> im_URL) (fuseWRR sets'))"
    using arg_cong[OF m, of "image_mset (image_score sets)"] by (simp add: multiset.map_comp comp_def)
  ultimately have "map (image_score sets \<circ> im_URL) (fuseWRR sets) = map (image_score sets \<circ> im_URL) (fuseWRR sets')"
    by (rule sorted_desc_unique)
  with m image_fuse_distinct image_fuse_set show ?thesis by blast
qed

definition lab_image :: "string \<Rightarrow> string \<Rightarrow> ImageResult" where
  "lab_image u eng = \<lparr>im_URL = u, im_Thumbnail = '''', im_Source = '''', im_Title = '''', im_Width = 0, im_Height = 0,
     im_Engine = eng\<rparr>"

theorem image_ranking_stable_witness:
  "mset (map im_URL (fuseWRR [[lab_image ''a'' ''bing''], [lab_image ''b'' ''ddg'', lab_image ''a'' ''ddg'']]))
   = mset (map im_URL (fuseWRR [[lab_image ''b'' ''ddg'', lab_image ''a'' ''ddg''], [lab_image ''a'' ''bing'']]))"
  using image_ranking_stable[of "[[lab_image ''a'' ''bing''], [lab_image ''b'' ''ddg'', lab_image ''a'' ''ddg'']]"
    "[[lab_image ''b'' ''ddg'', lab_image ''a'' ''ddg''], [lab_image ''a'' ''bing'']]"] by simp

subsection \<open>The contract of an image engine\<close>

text \<open>An engine called under a finished context sends nothing and reports the context's error;
  with a maximum that is not negative it never panics, answers at most that many results, and
  each has an address and the engine's name.\<close>

definition good_results :: "string \<Rightarrow> int \<Rightarrow> ImageResult list \<Rightarrow> bool" where
  "good_results eng n rs \<longleftrightarrow> int (length rs) \<le> n \<and> list_all (\<lambda>r. im_URL r \<noteq> '''' \<and> im_Engine r = eng) rs"

definition good_answer :: "string \<Rightarrow> int \<Rightarrow> 'w image_answer \<Rightarrow> bool" where
  "good_answer eng n a \<longleftrightarrow>
     (case a of None \<Rightarrow> False | Some (Inl _, _) \<Rightarrow> True | Some (Inr rs, _) \<Rightarrow> good_results eng n rs)"

lemma good_answer_simps [simp]: "good_answer eng n (Some (Inl e, w))" "good_answer eng n (Some (Inr rs, w)) \<longleftrightarrow> good_results eng n rs"
  by (simp_all add: good_answer_def)

lemma good_cut:
  assumes "0 \<le> n" "list_all (\<lambda>r. im_URL r \<noteq> '''' \<and> im_Engine r = eng) rs"
  shows "good_answer eng n (cut_answer n rs w)"
  using assms by (auto simp: cut_answer_def cut_max_def good_results_def list_all_iff dest: in_set_takeD)

locale image_engine =
  fixes ctxErr :: "'w \<Rightarrow> go_error option"
    and name :: string
    and search :: "'w image_engine"
  assumes cancelled: "ctxErr w = Some e \<Longrightarrow> search doer q n w = Some (Inl e, w)"
    and answers: "0 \<le> n \<Longrightarrow> good_answer name n (search doer q n w)"
begin

lemma no_panic: "0 \<le> n \<Longrightarrow> \<exists>r w'. search doer q n w = Some (r, w')"
  using answers[of n doer q w] by (cases "search doer q n w") (auto simp: good_answer_def)

lemma good: "0 \<le> n \<Longrightarrow> search doer q n w = Some (Inr rs, w') \<Longrightarrow> good_results name n rs"
  using answers[of n doer q w] by simp

end

lemma image_filter:
  "(\<And>x r. f x = Some r \<Longrightarrow> im_URL r \<noteq> '''' \<and> im_Engine r = eng) \<Longrightarrow>
   list_all (\<lambda>r. im_URL r \<noteq> '''' \<and> im_Engine r = eng) (List.map_filter f xs)"
  by (induction xs) (auto simp: List.map_filter_def)

lemma yandex_images_good: "list_all (\<lambda>r. im_URL r \<noteq> '''' \<and> im_Engine r = ''yandex'') (parseYandexDataState E h)"
proof -
  have d: "yandex_dup d = Some r \<Longrightarrow> im_URL r \<noteq> '''' \<and> im_Engine r = ''yandex''" for d r
    by (auto simp: yandex_dup_def split: if_splits)
  have e: "yandex_entity E e = Some r \<Longrightarrow> im_URL r \<noteq> '''' \<and> im_Engine r = ''yandex''" for e r
    by (auto simp: yandex_entity_def Let_def split: if_splits)
  have "list_all (\<lambda>r. im_URL r \<noteq> '''' \<and> im_Engine r = ''yandex'') (yandex_blocks E ms)" for ms
    by (induction ms) (simp_all add: Let_def image_filter[OF d] image_filter[OF e] split: sum.splits)
  then show ?thesis by (simp add: parseYandexDataState_def)
qed

lemma json_images_good:
  "list_all (\<lambda>r. im_URL r \<noteq> '''' \<and> im_Engine r = ''ddg'') (parseDDGImageJSON E data)"
  "list_all (\<lambda>r. im_URL r \<noteq> '''' \<and> im_Engine r = ''google'') (parseGoogleImageJSON E data)"
  "list_all (\<lambda>r. im_URL r \<noteq> '''' \<and> im_Engine r = ''bing'') (parseBingHTML E data)"
proof -
  have d: "ddg_image d = Some r \<Longrightarrow> im_URL r \<noteq> '''' \<and> im_Engine r = ''ddg''" for d r
    by (auto simp: ddg_image_def split: if_splits)
  have g: "google_image d = Some r \<Longrightarrow> im_URL r \<noteq> '''' \<and> im_Engine r = ''google''" for d r
    by (auto simp: google_image_def split: if_splits)
  have b: "bing_image E d = Some r \<Longrightarrow> im_URL r \<noteq> '''' \<and> im_Engine r = ''bing''" for d r
    by (auto simp: bing_image_def split: if_splits sum.splits)
  show "list_all (\<lambda>r. im_URL r \<noteq> '''' \<and> im_Engine r = ''ddg'') (parseDDGImageJSON E data)"
    "list_all (\<lambda>r. im_URL r \<noteq> '''' \<and> im_Engine r = ''google'') (parseGoogleImageJSON E data)"
    "list_all (\<lambda>r. im_URL r \<noteq> '''' \<and> im_Engine r = ''bing'') (parseBingHTML E data)"
    by (simp_all add: parseDDGImageJSON_def parseGoogleImageJSON_def parseBingHTML_def image_filter[OF d]
        image_filter[OF g] image_filter[OF b] split: sum.splits option.splits)
qed

text \<open>A group \<open>[^"]+\<close> is never empty.\<close>

lemma groups_nonempty:
  assumes "(gs, t) \<in> set (rx_groups ((False, a) # (True, RPlus (RCls P)) # ps) s)"
  shows "gs \<noteq> [] \<and> hd gs \<noteq> ''''"
proof -
  from assms obtain u v hs where "v \<in> set (rx_run (RPlus (RCls P)) u)"
    and gs: "gs = take (length (snd u) - length (snd v)) (snd u) # hs" by auto
  from rx_cls_plus_consumes[OF this(1)] obtain w where "snd u = w @ snd v" "w \<noteq> []" by (auto simp: consumes_def)
  with gs show ?thesis by simp
qed

lemma all_groups_sound:
  "(b, e, gs) \<in> set (rx_all_groups ps p s i) \<Longrightarrow> \<exists>st t. (gs, t) \<in> set (rx_groups ps st)"
proof (induction ps p s i rule: rx_all_groups.induct)
  case (2 ps p c cs i)
  show ?case
  proof (cases "filter (\<lambda>(gs, t). length (snd t) < length (c # cs)) (take 1 (rx_groups ps (p, c # cs)))")
    case Nil
    with 2 show ?thesis by simp
  next
    case (Cons a list)
    obtain hs t where a: "a = (hs, t)" by (rule prod.exhaust)
    have "a \<in> set (filter (\<lambda>(gs, t). length (snd t) < length (c # cs)) (take 1 (rx_groups ps (p, c # cs))))"
      using Cons by simp
    then have hs: "(hs, t) \<in> set (rx_groups ps (p, c # cs))" using a by (auto dest: in_set_takeD)
    from 2 Cons a consider "gs = hs"
      | "(b, e, gs) \<in> set (rx_all_groups ps (fst t) (snd t) (i + (Suc (length cs) - length (snd t))))"
      by (auto simp: Let_def)
    then show ?thesis
    proof cases
      case 1
      with hs show ?thesis by blast
    next
      case rest: 2
      show ?thesis by (rule 2(2)[OF Cons a[symmetric] refl rest])
    qed
  qed
qed simp

lemma brave_images_good: "list_all (\<lambda>r. im_URL r \<noteq> '''' \<and> im_Engine r = ''brave'') (parseBraveImageHTML h)"
proof -
  have "gs ! 0 \<noteq> ''''" if "(b, e, gs) \<in> set (find_all_groups bravePropsRe h)" for b e gs
  proof -
    from that obtain st t where "(gs, t) \<in> set (rx_groups bravePropsRe st)"
      unfolding find_all_groups_def using all_groups_sound by metis
    then show ?thesis unfolding bravePropsRe_def not_quote_def
      using groups_nonempty by (metis hd_conv_nth)
  qed
  then show ?thesis by (auto simp: parseBraveImageHTML_def list_all_iff brave_image_def Let_def)
qed

lemma page_good:
  assumes "0 \<le> n" "\<And>d. list_all (\<lambda>r. im_URL r \<noteq> '''' \<and> im_Engine r = eng) (p d)"
  shows "good_answer eng n (page_answer a b p n ans w)"
  using assms by (simp add: page_answer_def good_cut split: sum.splits prod.splits)

interpretation brave_images: image_engine "ie_ctxErr E" "''brave''" "BraveImages_Search E" for E
  by unfold_locales
    (simp_all add: BraveImages_Search_def Let_def split_def page_good brave_images_good split: option.splits)

interpretation bing_images: image_engine "ie_ctxErr E" "''bing''" "BingImages_Search E" for E
  by unfold_locales
    (simp_all add: BingImages_Search_def Let_def split_def page_good json_images_good split: option.splits)

interpretation ddg_images: image_engine "ie_ctxErr E" "''ddg''" "DdgImages_Search E" for E
  by unfold_locales
    (simp_all add: DdgImages_Search_def Let_def split_def good_cut json_images_good split: option.splits sum.splits)

interpretation google_images: image_engine "ie_ctxErr E" "''google''" "GoogleImages_Search E" for E
  by unfold_locales
    (simp_all add: GoogleImages_Search_def Let_def split_def good_cut json_images_good split: option.splits sum.splits prod.splits)

interpretation yandex_images: image_engine "ie_ctxErr E" "''yandex''" "YandexImages_Search E" for E
proof unfold_locales
  fix doer q n w
  assume n: "(0::int) \<le> n"
  have "good_answer ''yandex'' n (yandex_render E u n w)" for u w
    using n by (simp add: yandex_render_def good_cut yandex_images_good split: option.splits sum.splits prod.splits)
  with n show "good_answer ''yandex'' n (YandexImages_Search E doer q n w)"
    by (simp add: YandexImages_Search_def Let_def split_def good_cut yandex_images_good split: option.splits sum.splits)
qed (simp add: YandexImages_Search_def)

subsection \<open>The parallel search\<close>

text \<open>One engine's goroutine: the primary doer, the fallback doer when it failed, and the fallback
  doer when there are no results; the list it appends is its set of results, if any.\<close>

definition image_job ::
  "'w browser \<Rightarrow> 'w browser option \<Rightarrow> string \<Rightarrow> int \<Rightarrow> 'w image_engine \<Rightarrow> ('w, ImageResult list) job" where
  "image_job doer fb query n eng w =
     (case eng doer query n w of
        None \<Rightarrow> None
      | Some (r1, w1) \<Rightarrow>
          (case (case (r1, fb) of (Inl _, Some b) \<Rightarrow> eng b query n w1 | _ \<Rightarrow> Some (r1, w1)) of
             None \<Rightarrow> None
           | Some (Inl _, w2) \<Rightarrow> Some ([], w2)
           | Some (Inr (x # xs), w2) \<Rightarrow> Some ([x # xs], w2)
           | Some (Inr [], w2) \<Rightarrow>
               (case fb of
                  None \<Rightarrow> Some ([], w2)
                | Some b \<Rightarrow>
                    (case eng b query n w2 of
                       None \<Rightarrow> None
                     | Some (Inr (x # xs), w3) \<Rightarrow> Some ([x # xs], w3)
                     | Some (_, w3) \<Rightarrow> Some ([], w3)))))"

definition image_jobs ::
  "'w browser \<Rightarrow> 'w browser option \<Rightarrow> string \<Rightarrow> int \<Rightarrow> 'w image_engine list \<Rightarrow> ('w, ImageResult list) job list" where
  "image_jobs doer fb query n engines = map (image_job doer fb query n) engines"

text \<open>What \<open>Search\<close> returns after \<open>wg.Wait\<close>; \<open>None\<close> is the panic of the last slice.\<close>

definition MultiSearch_result :: "int \<Rightarrow> ImageResult list list \<Rightarrow> ImageResult list option" where
  "MultiSearch_result n allSets = cut_max n (fuseWRR allSets)"

definition all_engines :: "'w image_env \<Rightarrow> 'w image_engine list" where
  "all_engines E =
     [YandexImages_Search E, DdgImages_Search E, GoogleImages_Search E, BraveImages_Search E, BingImages_Search E]"

text \<open>A goroutine that never panics and whose set is good.\<close>

definition job_ok :: "int \<Rightarrow> string \<Rightarrow> ('w, ImageResult list) job \<Rightarrow> bool" where
  "job_ok n nm j \<longleftrightarrow>
     (\<forall>w. \<exists>sets w'. j w = Some (sets, w') \<and> list_all (good_results nm n) sets)"

context image_engine
begin

lemma job_good:
  assumes "0 \<le> n" "image_job doer fb q n search w = Some (sets, w')"
  shows "list_all (good_results name n) sets"
  using assms(2) good[OF assms(1)]
  by (auto simp: image_job_def split: option.splits prod.splits sum.splits list.splits)

lemma job_returns:
  assumes "0 \<le> n"
  shows "\<exists>sets w'. image_job doer fb q n search w = Some (sets, w')"
proof -
  obtain r1 w1 where 1: "search doer q n w = Some (r1, w1)" using no_panic[OF assms] by blast
  have "\<exists>r2 w2. (case (r1, fb) of (Inl _, Some b) \<Rightarrow> search b q n w1 | _ \<Rightarrow> Some (r1, w1)) = Some (r2, w2)"
    using no_panic[OF assms] by (simp split: sum.splits option.splits)
  then obtain r2 w2 where
    2: "(case (r1, fb) of (Inl _, Some b) \<Rightarrow> search b q n w1 | _ \<Rightarrow> Some (r1, w1)) = Some (r2, w2)" by blast
  have 3: "\<exists>r3 w3. search b q n w2 = Some (r3, w3)" for b using no_panic[OF assms] by blast
  show ?thesis
  proof (cases r2)
    case (Inr xs)
    then show ?thesis
    proof (cases "xs = [] \<and> fb \<noteq> None")
      case True
      then obtain b where b: "fb = Some b" by auto
      obtain r3 w3 where "search b q n w2 = Some (r3, w3)" using 3 by blast
      with 1 2 Inr True b show ?thesis
        by (cases r3) (auto simp: image_job_def split: list.splits)
    qed (use 1 2 in \<open>auto simp: image_job_def split: list.splits option.splits\<close>)
  qed (use 1 2 in \<open>simp add: image_job_def\<close>)
qed

lemma job_contract: "0 \<le> n \<Longrightarrow> job_ok n name (image_job doer fb q n search)"
  unfolding job_ok_def using job_returns job_good by blast

lemma job_cancelled:
  assumes "ctxErr w = Some e"
  shows "image_job doer fb q n search w = Some ([], w)"
  using cancelled[OF assms] by (simp add: image_job_def split: option.splits)

end

lemma fuse_members: "set (fuseWRR sets) \<subseteq> set (concat sets)"
proof
  let ?o = "image_occs sets"
  fix r
  assume "r \<in> set (fuseWRR sets)"
  then obtain u where u: "u \<in> set (fuse_urls im_URL ?o)" "r = the (first_with im_URL u ?o)"
    by (auto simp: image_fuse_alt)
  then have "u \<in> (im_URL \<circ> snd) ` set ?o" by (auto simp: fuse_urls_def)
  then obtain r0 where "first_with im_URL u ?o = Some r0"
    using first_with_None[of im_URL u ?o] by (cases "first_with im_URL u ?o") auto
  moreover from this obtain x where "find (\<lambda>(_, r). im_URL r = u) ?o = Some (x, r0)" by (auto simp: first_with_def)
  then have "(x, r0) \<in> set ?o" unfolding find_Some_iff by (metis nth_mem)
  ultimately have "r \<in> snd ` set ?o" using u(2) by force
  then show "r \<in> set (concat sets)" by (metis image_occs_def set_map weighted_sets_snd)
qed

definition image_names :: "string list" where
  "image_names = [''yandex'', ''ddg'', ''google'', ''brave'', ''bing'']"

lemma image_jobs_ok:
  "0 \<le> n \<Longrightarrow> list_all2 (job_ok n) image_names (image_jobs doer fb q n (all_engines E))"
  by (simp add: image_names_def image_jobs_def all_engines_def yandex_images.job_contract ddg_images.job_contract
      google_images.job_contract brave_images.job_contract bing_images.job_contract)

lemma image_job_ok:
  assumes "0 \<le> n" "j \<in> set (image_jobs doer fb q n (all_engines E))"
  obtains nm where "nm \<in> set image_names" "job_ok n nm j"
  using image_jobs_ok[OF assms(1), of doer fb q E] assms(2)
  by (metis in_set_conv_nth list_all2_conv_all_nth)

lemma image_jobs_return: "0 \<le> n \<Longrightarrow> returns (image_jobs doer fb q n (all_engines E))"
  unfolding returns_def by (metis image_job_ok job_ok_def)

text \<open>C15: However the engines' goroutines interleave and whatever the pages hold, a parallel image
  search with a maximum that is not negative ends after two steps per engine, without a panic,
  and delivers at most that many images, each address once, each with an address and the name
  of one of the engines.\<close>

theorem image_search_delivers:
  assumes "0 \<le> n"
    and "(dr_step (image_jobs doer fb q n (all_engines E)) ^^ k) (dr_init (image_jobs doer fb q n (all_engines E)) w) s"
  shows "(dr_final s \<longleftrightarrow> k = 10)
    \<and> (\<exists>u rs. (dr_step (image_jobs doer fb q n (all_engines E)))\<^sup>*\<^sup>* s u \<and> dr_final u
        \<and> MultiSearch_result n (dr_all u) = Some rs \<and> int (length rs) \<le> n \<and> distinct (map im_URL rs)
        \<and> list_all (\<lambda>r. im_URL r \<noteq> '''' \<and> im_Engine r \<in> set image_names) rs)"
proof -
  let ?js = "image_jobs doer fb q n (all_engines E)"
  note ret = image_jobs_return[OF assms(1), of doer fb q E]
  obtain u where u: "(dr_step ?js)\<^sup>*\<^sup>* s u" "dr_final u" using dr_ends(2)[OF ret assms(2)] by blast
  have "(dr_step ?js)\<^sup>*\<^sup>* (dr_init ?js w) u" using relpowp_imp_rtranclp[OF assms(2)] u(1) by (rule rtranclp_trans)
  from dr_merged[OF this u(2)] have m: "merged_from ?js (dr_all u)" .
  have good: "\<exists>nm \<in> set image_names. good_results nm n rs" if "rs \<in> set (dr_all u)" for rs
  proof -
    from merged_set[OF m that] obtain j sets v v' where
      j: "j \<in> set ?js" "j v = Some (sets, v')" "rs \<in> set sets" by blast
    from image_job_ok[OF assms(1) j(1)] obtain nm where "nm \<in> set image_names" "job_ok n nm j" .
    moreover from this(2) obtain sets' w' where "j v = Some (sets', w')" "list_all (good_results nm n) sets'"
      unfolding job_ok_def by blast
    ultimately show ?thesis using j(2,3) by (auto simp: list_all_iff)
  qed
  let ?rs = "if int (length (fuseWRR (dr_all u))) > n then take (nat n) (fuseWRR (dr_all u)) else fuseWRR (dr_all u)"
  have "MultiSearch_result n (dr_all u) = Some ?rs" using assms(1) by (simp add: MultiSearch_result_def cut_max_def)
  moreover have "int (length ?rs) \<le> n" using assms(1) by auto
  moreover have "distinct (map im_URL ?rs)" using image_fuse_distinct by (auto simp: take_map[symmetric])
  moreover have "set ?rs \<subseteq> set (concat (dr_all u))" using fuse_members[of "dr_all u"] set_take_subset by fastforce
  then have "list_all (\<lambda>r. im_URL r \<noteq> '''' \<and> im_Engine r \<in> set image_names) ?rs"
    using good unfolding list_all_iff good_results_def by fastforce
  moreover have "dr_final s \<longleftrightarrow> k = 10" using dr_ends(1)[OF ret assms(2)] by (simp add: image_jobs_def all_engines_def)
  ultimately show ?thesis using u by blast
qed

text \<open>An environment for evaluation: no decoder succeeds, no renderer.\<close>

definition lab_image_env :: "unit image_env" where
  "lab_image_env =
     \<lparr>ie_ctxErr = (\<lambda>_. None), ie_defaultUA = '''', ie_unescape = (\<lambda>s. s), ie_query = (\<lambda>_ _. None),
      ie_dec_state = (\<lambda>_. Inl Canceled), ie_dec_viewer = (\<lambda>_. Inl Canceled), ie_dec_ddg = (\<lambda>_. Inl Canceled),
      ie_dec_google = (\<lambda>_. Inl Canceled), ie_dec_bing = (\<lambda>_. Inl Canceled), ie_range = map snd, ie_Renderer = None\<rparr>"

theorem image_search_delivers_witness:
  "\<exists>u rs. (dr_step (image_jobs (still_browser (Inl Canceled)) None ''cat'' 5 (all_engines lab_image_env)))\<^sup>*\<^sup>*
       (dr_init (image_jobs (still_browser (Inl Canceled)) None ''cat'' 5 (all_engines lab_image_env)) ()) u
     \<and> dr_final u \<and> MultiSearch_result 5 (dr_all u) = Some rs \<and> int (length rs) \<le> 5"
proof -
  let ?js = "image_jobs (still_browser (Inl Canceled)) None ''cat'' 5 (all_engines lab_image_env)"
  have "(dr_step ?js ^^ 0) (dr_init ?js ()) (dr_init ?js ())" by simp
  from image_search_delivers[OF _ this] show ?thesis by auto
qed

text \<open>A negative maximum panics, even with nothing to cut.\<close>

lemma negative_max_panics: "n < 0 \<Longrightarrow> cut_answer n rs w = None"
  by (simp add: cut_answer_def cut_max_def)

subsection \<open>What the code does not do\<close>

text \<open>The keys of \<open>net/http\<close> headers begin with a capital letter.  The plain doer hands them on,
  and the Yandex engine looks its captcha header up in lower case, so a captcha answered to the
  plain doer is not recognised: the page is parsed as results.\<close>

definition canonical_key :: "string \<Rightarrow> bool" where
  "canonical_key k \<longleftrightarrow> k \<noteq> [] \<and> 65 \<le> byte (hd k) \<and> byte (hd k) \<le> 90"

lemma canonical_no_captcha:
  assumes "list_all (\<lambda>(k, _). canonical_key k) h"
  shows "header_value ''x-yandex-captcha'' h = ''''"
proof -
  have "\<not> canonical_key ''x-yandex-captcha''" by (simp add: canonical_key_def)
  with assms have "map_of h ''x-yandex-captcha'' = None"
    by (auto simp: map_of_eq_None_iff list_all_iff)
  then show ?thesis by (simp add: header_value_def)
qed

lemma plain_doer_misses_captcha:
  assumes "list_all (\<lambda>(k, _). canonical_key k) (Header r)"
    and "HTTPDoer_Do C req w = (Inr (data, h, 200), w')" "NewRequest C (Url req) = None" "Client_Do C req w = (Inr r, w')"
  shows "header_value ''x-yandex-captcha'' h = ''''"
  using canonical_no_captcha[OF assms(1)] assms(2-4) by (auto simp: HTTPDoer_Do_def split: sum.splits)

text \<open>When the primary doer fails and the fallback doer finds nothing, the same search is sent
  through the fallback doer a second time.\<close>

lemma fallback_searched_twice:
  assumes "eng doer q n w = Some (Inl e, w1)" "eng b q n w1 = Some (Inr [], w2)" "eng b q n w2 = Some (Inr [], w3)"
  shows "image_job doer (Some b) q n eng w = Some ([], w3)"
  using assms by (simp add: image_job_def)

text \<open>Yandex entities come from a Go map: which images survive the cut depends on the order of
  the walk, only the set before the cut does not.\<close>

lemma map_filter_mset: "mset xs = mset ys \<Longrightarrow> mset (List.map_filter f xs) = mset (List.map_filter f ys)"
  by (simp add: List.map_filter_def)

lemma yandex_order_free:
  assumes "range_law E" "range_law (E\<lparr>ie_range := g\<rparr>)" "ie_dec_state E (ie_unescape E m) = Inr es" "es \<noteq> []"
  shows "mset (yandex_blocks E (m # ms)) = mset (yandex_blocks (E\<lparr>ie_range := g\<rparr>) (m # ms))"
proof -
  have "yandex_entity (E\<lparr>ie_range := g\<rparr>) = yandex_entity E"
    by (intro ext) (simp add: yandex_entity_def extractImgURL_def)
  moreover have "mset (ie_range E es) = mset (map snd es)" "mset (g es) = mset (map snd es)"
    using assms(1,2) by (simp_all add: range_law_def)
  then have "mset (ie_range E es) = mset (g es)" by (rule trans[OF _ sym])
  from map_filter_mset[OF this, of "yandex_entity E"]
  have "mset (List.map_filter (yandex_entity E) (ie_range E es)) = mset (List.map_filter (yandex_entity E) (g es))" .
  ultimately show ?thesis using assms(3,4) by (simp add: Let_def)
qed

end
