(* ===== verification/Engine_Setup.thy ===== *)
theory Engine_Setup
  imports Image_Search Dual_Browser
begin

text \<open>
  How the engines are put together: the constructors and options of the \<open>websearch\<close> engines
  (\<open>brave.go\<close>, \<open>bing.go\<close>, \<open>yep.go\<close>, \<open>reddit.go\<close>, \<open>startpage.go\<close>, \<open>ddg.go\<close>), the text of the
  rate-limit error (\<open>websearch/errors.go\<close>), the plain doer of \<open>search/dual_browser.go\<close>, and the
  copies of \<open>websearch\<close> routines that package \<open>search\<close> keeps (\<open>search/dedup.go\<close>,
  \<open>search/helpers.go\<close>).
\<close>

subsection \<open>Constructors\<close>

datatype 'w BraveOption = WithBraveBrowser "'w browser option"
datatype 'w BingOption = WithBingBrowser "'w browser option"
datatype 'w YepOption = WithYepBrowser "'w browser option"
datatype 'w RedditOption = WithRedditBrowser "'w browser option"
datatype 'w StartpageOption = WithStartpageBrowser "'w browser option" | WithStartpageLanguage string
datatype 'w DDGOption = WithDDGBrowser "'w browser option" | WithDDGRegion string

record 'w Brave = brave_browser :: "'w browser option"
record 'w Bing = bing_browser :: "'w browser option"
record 'w Yep = yep_browser :: "'w browser option"
record 'w Reddit = reddit_browser :: "'w browser option"
record 'w Startpage = sp_browser :: "'w browser option"
  sp_language :: string
record 'w DDG = ddg_browser :: "'w browser option"
  ddg_region :: string

primrec brave_option :: "'w BraveOption \<Rightarrow> 'w Brave \<Rightarrow> 'w Brave" where
  "brave_option (WithBraveBrowser bc) b = b\<lparr>brave_browser := bc\<rparr>"

primrec bing_option :: "'w BingOption \<Rightarrow> 'w Bing \<Rightarrow> 'w Bing" where
  "bing_option (WithBingBrowser bc) b = b\<lparr>bing_browser := bc\<rparr>"

primrec yep_option :: "'w YepOption \<Rightarrow> 'w Yep \<Rightarrow> 'w Yep" where
  "yep_option (WithYepBrowser bc) y = y\<lparr>yep_browser := bc\<rparr>"

primrec reddit_option :: "'w RedditOption \<Rightarrow> 'w Reddit \<Rightarrow> 'w Reddit" where
  "reddit_option (WithRedditBrowser bc) r = r\<lparr>reddit_browser := bc\<rparr>"

primrec startpage_option :: "'w StartpageOption \<Rightarrow> 'w Startpage \<Rightarrow> 'w Startpage" where
  "startpage_option (WithStartpageBrowser bc) sp = sp\<lparr>sp_browser := bc\<rparr>"
| "startpage_option (WithStartpageLanguage lang) sp = sp\<lparr>sp_language := lang\<rparr>"

primrec ddg_option :: "'w DDGOption \<Rightarrow> 'w DDG \<Rightarrow> 'w DDG" where
  "ddg_option (WithDDGBrowser bc) d = d\<lparr>ddg_browser := bc\<rparr>"
| "ddg_option (WithDDGRegion r) d = d\<lparr>ddg_region := r\<rparr>"

definition NewBrave :: "'w BraveOption list \<Rightarrow> 'w Brave" where
  "NewBrave opts = fold brave_option opts \<lparr>brave_browser = None\<rparr>"

definition NewBing :: "'w BingOption list \<Rightarrow> 'w Bing" where
  "NewBing opts = fold bing_option opts \<lparr>bing_browser = None\<rparr>"

definition NewYep :: "'w YepOption list \<Rightarrow> 'w Yep" where
  "NewYep opts = fold yep_option opts \<lparr>yep_browser = None\<rparr>"

definition NewReddit :: "'w RedditOption list \<Rightarrow> 'w Reddit" where
  "NewReddit opts = fold reddit_option opts \<lparr>reddit_browser = None\<rparr>"

definition NewStartpage :: "'w StartpageOption list \<Rightarrow> 'w Startpage" where
  "NewStartpage opts = fold startpage_option opts \<lparr>sp_browser = None, sp_language = startpageDefaultLang\<rparr>"

definition NewDDG_opts :: "'w DDGOption list \<Rightarrow> ('w browser \<times> string) result" where
  "NewDDG_opts opts =
     (let d = fold ddg_option opts \<lparr>ddg_browser = None, ddg_region = ddgDefaultRegion\<rparr>
      in NewDDG (ddg_browser d) (ddg_region d))"

text \<open>The engines as their constructors leave them; \<open>DDG_of\<close> has refused a missing browser already.\<close>

definition Brave_of :: "('w, 'n) ws_env \<Rightarrow> 'w BraveOption list \<Rightarrow> 'w search" where
  "Brave_of E opts = Brave_Search E (brave_browser (NewBrave opts))"

definition Bing_of :: "('w, 'n) ws_env \<Rightarrow> 'w BingOption list \<Rightarrow> 'w search" where
  "Bing_of E opts = Bing_Search E (bing_browser (NewBing opts))"

definition Yep_of :: "('w, 'n) ws_env \<Rightarrow> 'w YepOption list \<Rightarrow> 'w search" where
  "Yep_of E opts = Yep_Search E (yep_browser (NewYep opts))"

definition Reddit_of :: "('w, 'n) ws_env \<Rightarrow> 'w RedditOption list \<Rightarrow> 'w search" where
  "Reddit_of E opts = Reddit_Search E (reddit_browser (NewReddit opts))"

definition Startpage_of :: "('w, 'n) ws_env \<Rightarrow> 'w StartpageOption list \<Rightarrow> 'w search" where
  "Startpage_of E opts = (let sp = NewStartpage opts in Startpage_Search E (sp_browser sp) (sp_language sp))"

text \<open>What a constructor with options promises: later options win, and an engine whose browser
  was never set, or set to nil at last, answers with an error and sends nothing.\<close>

locale browser_setup =
  fixes engine :: "'o list \<Rightarrow> 'w search"
    and with_browser :: "'w browser option \<Rightarrow> 'o"
  assumes unset: "\<exists>e. \<forall>q opts w. engine [] q opts w = (Inl e, w)"
    and unset_again: "engine (os @ [with_browser None]) q opts w = engine [with_browser None] q opts w"
    and set_nil: "engine [with_browser None] q opts w = engine [] q opts w"
    and twice: "engine (os @ [with_browser b, with_browser b']) q opts w = engine (os @ [with_browser b']) q opts w"
begin

lemma nil_browser_sends_nothing: "\<exists>e. \<forall>os q opts w. engine (os @ [with_browser None]) q opts w = (Inl e, w)"
  using unset unset_again set_nil by metis

lemma last_browser_wins:
  "engine (os @ map with_browser bs @ [with_browser b]) q opts w = engine (os @ [with_browser b]) q opts w"
proof (induction bs rule: rev_induct)
  case (snoc b' bs)
  then show ?case using twice[of "os @ map with_browser bs" b' b] by simp
qed simp

end

lemma brave_last: "brave_browser (NewBrave (opts @ [WithBraveBrowser b])) = b"
  by (simp add: NewBrave_def)

lemma bing_last: "bing_browser (NewBing (opts @ [WithBingBrowser b])) = b"
  by (simp add: NewBing_def)

lemma yep_last: "yep_browser (NewYep (opts @ [WithYepBrowser b])) = b"
  by (simp add: NewYep_def)

lemma reddit_last: "reddit_browser (NewReddit (opts @ [WithRedditBrowser b])) = b"
  by (simp add: NewReddit_def)

lemma startpage_last:
  "NewStartpage (opts @ [WithStartpageBrowser b]) = (NewStartpage opts)\<lparr>sp_browser := b\<rparr>"
  by (simp add: NewStartpage_def)

lemmas setup_last = brave_last bing_last yep_last reddit_last startpage_last
  brave_last[of "[]", simplified] bing_last[of "[]", simplified] yep_last[of "[]", simplified]
  reddit_last[of "[]", simplified] startpage_last[of "[]", simplified]

lemma two_browsers: "os @ [x, y] = (os @ [x]) @ [y]"
  by simp

interpretation brave_setup: browser_setup "Brave_of E" WithBraveBrowser for E
  by unfold_locales (simp_all add: Brave_of_def setup_last two_browsers del: append_assoc append.simps,
    simp_all add: Brave_Search_def NewBrave_def)

interpretation bing_setup: browser_setup "Bing_of E" WithBingBrowser for E
  by unfold_locales (simp_all add: Bing_of_def setup_last two_browsers del: append_assoc append.simps,
    simp_all add: Bing_Search_def NewBing_def)

interpretation yep_setup: browser_setup "Yep_of E" WithYepBrowser for E
  by unfold_locales (simp_all add: Yep_of_def setup_last two_browsers del: append_assoc append.simps,
    simp_all add: Yep_Search_def NewYep_def)

interpretation reddit_setup: browser_setup "Reddit_of E" WithRedditBrowser for E
  by unfold_locales (simp_all add: Reddit_of_def setup_last two_browsers del: append_assoc append.simps,
    simp_all add: Reddit_Search_def NewReddit_def)

interpretation startpage_setup: browser_setup "Startpage_of E" WithStartpageBrowser for E
  by unfold_locales (simp_all add: Startpage_of_def NewStartpage_def Startpage_Search_def)

text \<open>An engine that was given a browser is a provider in the sense of the combinators, whatever
  options came before.\<close>

locale built_engine = browser_setup engine with_browser
  for engine :: "'o list \<Rightarrow> 'w search" and with_browser :: "'w browser option \<Rightarrow> 'o" +
  fixes ctxErr :: "'w \<Rightarrow> go_error option"
  assumes built: "provider ctxErr (engine (os @ [with_browser (Some b)]))"

sublocale built_engine \<subseteq> built: provider ctxErr "engine (os @ [with_browser (Some b)])" for os b
  by (rule built)

context built_engine
begin

lemma inert_when_cancelled:
  assumes "ctxErr w = Some e"
  shows "\<exists>e'. engine (os @ [with_browser b]) q opts w = (Inl e', w)"
proof (cases b)
  case None
  then show ?thesis using nil_browser_sends_nothing by blast
next
  case (Some b')
  then show ?thesis using built.cancelled[OF assms] by blast
qed

lemma chain_of_built:
  "bs \<noteq> [] \<Longrightarrow> provider ctxErr (Fallback_Search (map (\<lambda>b. engine (os @ [with_browser (Some b)])) bs))"
  by (rule fallback_provider) (auto intro: built)

end

interpretation brave_built: built_engine "Brave_of E" WithBraveBrowser "ws_ctxErr E" for E
  by unfold_locales (simp_all add: Brave_of_def brave_last brave.cancelled brave.limited)

interpretation bing_built: built_engine "Bing_of E" WithBingBrowser "ws_ctxErr E" for E
  by unfold_locales (simp_all add: Bing_of_def bing_last bing.cancelled bing.limited)

interpretation yep_built: built_engine "Yep_of E" WithYepBrowser "ws_ctxErr E" for E
  by unfold_locales (simp_all add: Yep_of_def yep_last yep.cancelled yep.limited)

interpretation reddit_built: built_engine "Reddit_of E" WithRedditBrowser "ws_ctxErr E" for E
  by unfold_locales (simp_all add: Reddit_of_def reddit_last reddit.cancelled reddit.limited)

interpretation startpage_built: built_engine "Startpage_of E" WithStartpageBrowser "ws_ctxErr E" for E
  by unfold_locales (simp_all add: Startpage_of_def startpage_last startpage.cancelled startpage.limited Let_def)

text \<open>DuckDuckGo is the one engine whose constructor fails.\<close>

lemma NewDDG_needs_browser:
  "is_ok (NewDDG_opts opts) \<longleftrightarrow> ddg_browser (fold ddg_option opts \<lparr>ddg_browser = None, ddg_region = ddgDefaultRegion\<rparr>) \<noteq> None"
  by (simp add: NewDDG_opts_def NewDDG_def Let_def split: option.split)

subsection \<open>The text of the rate-limit error\<close>

text \<open>\<open>time.Duration.String\<close>: a fraction without trailing zeros, and the units from hours to
  nanoseconds.  \<open>strip_zeros\<close> works on the fraction's digits.\<close>

definition strip_zeros :: "string \<Rightarrow> string" where
  "strip_zeros ds = rev (dropWhile (\<lambda>c. c = CHR ''0'') (rev ds))"

definition pad_digits :: "nat \<Rightarrow> nat \<Rightarrow> string" where
  "pad_digits n v = (let ds = nat_digits v in replicate (n - length ds) (CHR ''0'') @ ds)"

definition fmtFrac :: "nat \<Rightarrow> nat \<Rightarrow> string" where
  "fmtFrac v prec =
     (let frac = v mod 10 ^ prec
      in if frac = 0 then '''' else ''.'' @ strip_zeros (pad_digits prec frac))"

definition with_frac :: "nat \<Rightarrow> nat \<Rightarrow> string" where
  "with_frac v prec = nat_digits (v div 10 ^ prec) @ fmtFrac v prec"

definition Duration_String :: "duration \<Rightarrow> string" where
  "Duration_String d =
     (let u = nat \<bar>d\<bar>;
          body =
            (if u = 0 then ''0s''
             else if u < 1000 then nat_digits u @ ''ns''
             else if u < 1000000 then with_frac u 3 @ [CHR 0xC2, CHR 0xB5] @ ''s''
             else if u < 1000000000 then with_frac u 6 @ ''ms''
             else
               let secs = u div 10 ^ 9; mins = secs div 60
               in (if mins = 0 then ''''
                   else (if mins div 60 = 0 then '''' else nat_digits (mins div 60) @ ''h'')
                     @ nat_digits (mins mod 60) @ ''m'')
                  @ nat_digits (secs mod 60) @ fmtFrac u 9 @ ''s'')
      in if d < 0 then ''-'' @ body else body)"

definition RateLimited_Error :: "string \<Rightarrow> duration \<Rightarrow> string" where
  "RateLimited_Error engine retryAfter =
     (if retryAfter > 0
      then ''rate limited by '' @ engine @ '' (retry after '' @ Duration_String retryAfter @ '')''
      else ''rate limited by '' @ engine)"

lemma RateLimited_Error_examples:
  "RateLimited_Error ''ddg'' 0 = ''rate limited by ddg''"
  "RateLimited_Error ''reddit'' (30 * 10 ^ 9) = ''rate limited by reddit (retry after 30s)''"
  "RateLimited_Error ''reddit'' (3690 * 10 ^ 9 + 250 * 10 ^ 6) = ''rate limited by reddit (retry after 1h1m30.25s)''"
  by (simp_all add: RateLimited_Error_def Duration_String_def fmtFrac_def pad_digits_def strip_zeros_def
      nat_digits.simps Let_def, code_simp+)

subsection \<open>The plain doer of package search\<close>

text \<open>The same steps as the doer of package \<open>imagesearch\<close>: the headers of the answer are handed on
  under their canonical keys.\<close>

definition search_HTTPDoer_Do :: "'w http_client \<Rightarrow> 'w doer" where
  "search_HTTPDoer_Do C req w =
     (case NewRequest C (Url req) of
        Some e \<Rightarrow> (Inl e, w)
      | None \<Rightarrow>
          let (resp, w1) = Client_Do C req w
          in case resp of
               Inl e \<Rightarrow> (Inl e, w1)
             | Inr r \<Rightarrow>
                 (case ReadAll r of
                    Inl e \<Rightarrow> (Inl e, w1)
                  | Inr data \<Rightarrow> (Inr (data, map (\<lambda>(k, v). (k, header_value k (Header r))) (Header r), StatusCode r), w1)))"

lemma map_lookup_self:
  assumes "distinct (map fst h)"
  shows "map (\<lambda>(k, v). (k, header_value k h)) h = h"
proof (rule map_idI)
  fix x assume "x \<in> set h"
  with assms show "(\<lambda>(k, v). (k, header_value k h)) x = x" by (cases x) (simp add: header_value_def)
qed

text \<open>For answers with distinct header keys, as those of \<open>net/http\<close> are, the two doers agree.\<close>

lemma plain_doers_agree:
  assumes "\<And>req w r w'. Client_Do C req w = (Inr r, w') \<Longrightarrow> distinct (map fst (Header r))"
  shows "search_HTTPDoer_Do C req w = HTTPDoer_Do C req w"
  using assms
  by (auto simp: search_HTTPDoer_Do_def HTTPDoer_Do_def map_lookup_self Let_def
      split: option.splits sum.splits prod.splits)

text \<open>The Reddit engine looks for the waiting time under a lower-case key, so what a server asks
  for through the plain doer is lost.\<close>

lemma canonical_no_retry_after:
  assumes "list_all (\<lambda>(k, _). canonical_key k) h"
  shows "retry_after parseDuration h = 0"
proof -
  have "\<not> canonical_key ''retry-after''" by (simp add: canonical_key_def)
  with assms have "map_of h ''retry-after'' = None"
    by (auto simp: map_of_eq_None_iff list_all_iff)
  then show ?thesis by (simp add: retry_after_def)
qed

text \<open>Every request of an engine asks for compression itself, and then \<open>net/http\<close> hands the
  compressed bytes on: a fallback to the plain doer gives the parsers compressed pages.\<close>

lemma engines_ask_for_compression:
  assumes "''accept-encoding'' \<notin> fst ` set kvs"
  shows "header_value ''accept-encoding'' (chrome E b kvs) = ''gzip, deflate, br''"
proof -
  have "map_of (with_headers kvs h) k = map_of h k" if "k \<notin> fst ` set kvs" for k h
    using that unfolding with_headers_def
    by (induction kvs arbitrary: h) (auto simp: update_conv' split: prod.splits)
  then show ?thesis using assms by (simp add: header_value_def chrome_def ChromeHeadersFor_def)
qed


subsection \<open>The copies in package search\<close>

text \<open>The bag of words, filled by the loop over the words.\<close>

fun search_count_words :: "string list \<Rightarrow> bow \<Rightarrow> bow" where
  "search_count_words [] vec = vec"
| "search_count_words (w # ws) vec =
     search_count_words ws (AList.update w ((case map_of vec w of Some n \<Rightarrow> n | None \<Rightarrow> 0) + 1) vec)"

definition search_tokenize :: "unicode_tables \<Rightarrow> string \<Rightarrow> bow" where
  "search_tokenize U s =
     search_count_words (FieldsFunc (\<lambda>r. \<not> IsLetter U r \<and> \<not> IsDigit U r) (ToLower U s)) []"

text \<open>The loops of the similarity, over the entries of a map in the order \<open>range\<close> visits them.
  The first accumulates the product and the first norm at once.\<close>

fun search_dot_loop :: "bow \<Rightarrow> (string \<times> real) list \<Rightarrow> real \<Rightarrow> real \<Rightarrow> real \<times> real" where
  "search_dot_loop b [] d normA = (d, normA)"
| "search_dot_loop b ((k, v) # es) d normA =
     search_dot_loop b es (case map_of b k of Some bv \<Rightarrow> d + v * bv | None \<Rightarrow> d) (normA + v * v)"

fun search_norm_loop :: "(string \<times> real) list \<Rightarrow> real \<Rightarrow> real" where
  "search_norm_loop [] normB = normB"
| "search_norm_loop ((k, v) # es) normB = search_norm_loop es (normB + v * v)"

definition search_cosineSimilarity ::
  "(bow \<Rightarrow> (string \<times> real) list) \<Rightarrow> (bow \<Rightarrow> (string \<times> real) list) \<Rightarrow> bow \<Rightarrow> bow \<Rightarrow> real" where
  "search_cosineSimilarity rangeA rangeB a b =
     (if length a = 0 \<or> length b = 0 then 0
      else let (d, normA) = search_dot_loop b (rangeA a) 0 0;
               normB = search_norm_loop (rangeB b) 0;
               denom = sqrt normA * sqrt normB
           in if denom = 0 then 0 else d / denom)"

text \<open>The loops over block markers, which stop at the first hit.\<close>

fun search_marker_loop :: "string list \<Rightarrow> string \<Rightarrow> bool" where
  "search_marker_loop [] low = False"
| "search_marker_loop (m # ms) low = (if Contains low m then True else search_marker_loop ms low)"

definition search_isDDGRateLimited :: "unicode_tables \<Rightarrow> string \<Rightarrow> bool" where
  "search_isDDGRateLimited U body =
     (let low = ToLower U body
      in if search_marker_loop [''please try again'', ''not a robot'', ''unusual traffic'', ''blocked''] low then True
         else Contains low ''action=\"/d.js\"'' \<and> Contains low ''type=\"hidden\"'')"

definition startpageCheckRateLimit :: "unicode_tables \<Rightarrow> string \<Rightarrow> bool" where
  "startpageCheckRateLimit U body =
     search_marker_loop [''rate limited'', ''too many requests'', ''g-recaptcha'', ''captcha''] (ToLower U body)"

lemma search_count_words_eq: "search_count_words ws vec = fold bump ws vec"
  by (induction ws arbitrary: vec) (simp_all add: bump_def)

lemma search_tokenize_eq: "search_tokenize U s = tokenize_bow U s"
  by (simp add: search_tokenize_def tokenize_bow_def search_count_words_eq)

lemma search_dot_loop_eq: "search_dot_loop b es d n = (d + dot es b, n + norm2 es)"
  by (induction b es d n rule: search_dot_loop.induct) (simp_all add: dot_def norm2_def split: option.split)

lemma search_norm_loop_eq: "search_norm_loop es n = n + norm2 es"
  by (induction es n rule: search_norm_loop.induct) (simp_all add: norm2_def)

lemma norm2_perm: "mset es = mset a \<Longrightarrow> norm2 es = norm2 a"
  by (simp add: norm2_def flip: sum_mset_sum_list)

lemma dot_perm: "mset es = mset a \<Longrightarrow> dot es b = dot a b"
  by (simp add: dot_def flip: sum_mset_sum_list)

lemma search_marker_loop_eq: "search_marker_loop ms low = has_marker ms low"
  by (induction ms) (simp_all add: has_marker_def)



end
