(* ===== verification/Fetch_Setup.thy ===== *)
theory Fetch_Setup
  imports Fetch_Metrics
begin

text \<open>
  The construction of a fetcher with all its options (\<open>fetch/fetcher.go\<close>): the settings of the
  plain HTTP client, its limit on redirects, and the option lists the two stealth clients are
  built with.  \<open>stealth.NewClient\<close> is a function of that list: it gives a client, known by the
  user agent of its identity, or fails.
\<close>

subsection \<open>Settings\<close>

definition defaultTimeout :: duration where "defaultTimeout = 30 * second"
definition defaultMaxRedirects :: nat where "defaultMaxRedirects = 10"
definition browserClientTimeoutSec :: int where "browserClientTimeoutSec = 15"

datatype stealth_option =
    StealthTimeout int
  | StealthProxyPool
  | StealthFollowRedirects
  | StealthRetryOnBlock int
  | StealthCookieSolver
  | StealthDialControl
  | StealthRedirectGuard
  | StealthRequestURLGuard

datatype metrics_impl = NoopMetrics | PromMetrics promTierMetrics

datatype fetch_option =
    TierOption foption
  | WithTimeout duration
  | WithCookieSolver bool
  | WithMetrics metrics_impl

record fetch_setup =
  su_fetcher :: Fetcher
  su_timeout :: duration
  su_cookies :: bool
  su_metrics :: metrics_impl

fun setup_option :: "unicode_tables \<Rightarrow> fetch_option \<Rightarrow> fetch_setup \<Rightarrow> fetch_setup" where
  "setup_option U (TierOption x) s = s\<lparr>su_fetcher := apply_option U x (su_fetcher s)\<rparr>"
| "setup_option U (WithTimeout d) s = s\<lparr>su_timeout := d\<rparr>"
| "setup_option U (WithCookieSolver present) s = s\<lparr>su_cookies := present\<rparr>"
| "setup_option U (WithMetrics m) s = s\<lparr>su_metrics := m\<rparr>"

definition proxy_options :: "bool \<Rightarrow> stealth_option list" where
  "proxy_options cookies =
     [StealthTimeout browserClientTimeoutSec, StealthProxyPool, StealthFollowRedirects, StealthRetryOnBlock 2,
      StealthRequestURLGuard] @ (if cookies then [StealthCookieSolver] else [])"

definition direct_options :: "stealth_option list" where
  "direct_options =
     [StealthTimeout browserClientTimeoutSec, StealthFollowRedirects, StealthDialControl, StealthRedirectGuard,
      StealthRequestURLGuard]"

definition NewFetcher :: "unicode_tables \<Rightarrow> (stealth_option list \<Rightarrow> string option) \<Rightarrow> fetch_option list \<Rightarrow> fetch_setup" where
  "NewFetcher U NewClient opts =
     (let s = fold (setup_option U) opts
            \<lparr>su_fetcher = empty_fetcher, su_timeout = defaultTimeout, su_cookies = False, su_metrics = NoopMetrics\<rparr>;
          f = su_fetcher s;
          f = (if hasProxyPool f
               then (case NewClient (proxy_options (su_cookies s)) of
                       Some ua \<Rightarrow> f\<lparr>proxyClient := Client (Some ua)\<rparr> | None \<Rightarrow> f)
               else f);
          f = (if directFirst f \<and> directClient f = NoClient
               then f\<lparr>directClient := (case NewClient direct_options of Some ua \<Rightarrow> Client (Some ua) | None \<Rightarrow> NoClient),
                      blockCache := (case blockCache f of
                         None \<Rightarrow> Some (NewDirectBlockCache defaultBlockTTL defaultBlockCacheCap)
                       | Some c \<Rightarrow> Some c),
                      proxyFirstDomains := (case proxyFirstDomains f of
                         None \<Rightarrow> Some (NewProxyFirstDomains U [])
                       | Some d \<Rightarrow> Some d)\<rparr>
               else f)
      in s\<lparr>su_fetcher := f\<rparr>)"

text \<open>The tier options alone decide the fetcher of \<open>New\<close>, given the two clients.\<close>

definition tier_options :: "fetch_option list \<Rightarrow> foption list" where
  "tier_options opts = List.map_filter (\<lambda>x. case x of TierOption y \<Rightarrow> Some y | _ \<Rightarrow> None) opts"

definition cookie_setting :: "fetch_option list \<Rightarrow> bool" where
  "cookie_setting opts = fold (\<lambda>x c. case x of WithCookieSolver b \<Rightarrow> b | _ \<Rightarrow> c) opts False"

lemma setup_fold:
  "su_fetcher (fold (setup_option U) opts s) = fold (apply_option U) (tier_options opts) (su_fetcher s)"
  "su_cookies (fold (setup_option U) opts s) = fold (\<lambda>x c. case x of WithCookieSolver b \<Rightarrow> b | _ \<Rightarrow> c) opts (su_cookies s)"
proof (induction opts arbitrary: s)
  case (Cons x opts)
  { case 1 show ?case using Cons(1)[of "setup_option U x s"] by (cases x) (simp_all add: tier_options_def map_filter_simps)
  next
    case 2 show ?case using Cons(2)[of "setup_option U x s"] by (cases x) simp_all }
qed (simp_all add: tier_options_def map_filter_simps)

lemma NewFetcher_is_New:
  "su_fetcher (NewFetcher U NewClient opts) =
     New U (NewClient (proxy_options (cookie_setting opts))) (NewClient direct_options) (tier_options opts)"
proof -
  let ?s = "fold (setup_option U) opts
      \<lparr>su_fetcher = empty_fetcher, su_timeout = defaultTimeout, su_cookies = False, su_metrics = NoopMetrics\<rparr>"
  have "fold (apply_option U) (tier_options opts) empty_fetcher = su_fetcher ?s" "cookie_setting opts = su_cookies ?s"
    by (simp_all add: setup_fold cookie_setting_def)
  then show ?thesis by (simp only: NewFetcher_def New_def Let_def) simp
qed

text \<open>So the cookie solver reaches the proxy client wherever it stands among the options.\<close>

lemma tier_options_append [simp]: "tier_options (xs @ ys) = tier_options xs @ tier_options ys"
  by (simp add: tier_options_def List.map_filter_def)

lemma cookie_order_free:
  "su_fetcher (NewFetcher U N (xs @ [WithCookieSolver b] @ map TierOption ts @ ys)) =
   su_fetcher (NewFetcher U N (xs @ map TierOption ts @ [WithCookieSolver b] @ ys))"
proof -
  have "fold (\<lambda>x c. case x of WithCookieSolver b \<Rightarrow> b | _ \<Rightarrow> c) (map TierOption ts) c = c" for c :: bool
    by (induction ts) simp_all
  moreover have "tier_options (WithCookieSolver b # zs) = tier_options zs" for zs
    by (simp add: tier_options_def map_filter_simps)
  ultimately show ?thesis by (simp add: NewFetcher_is_New cookie_setting_def)
qed

subsection \<open>What the clients are guarded by\<close>

text \<open>A client builder that refuses option lists without the guards.\<close>

definition guarded_builder :: "(stealth_option list \<Rightarrow> string option) \<Rightarrow> stealth_option list \<Rightarrow> string option" where
  "guarded_builder N os =
     (if StealthRequestURLGuard \<in> set os
        \<and> (StealthProxyPool \<in> set os \<or> StealthDialControl \<in> set os \<and> StealthRedirectGuard \<in> set os)
      then N os else None)"

text \<open>A direct client exists only in direct-first mode, and nothing but the block cache, the
  proxy-first list and that client depends on the mode.\<close>

lemma apply_option_clients:
  "directClient (apply_option U x f) = directClient f" "proxyClient (apply_option U x f) = proxyClient f"
  by (cases x; simp split: option.split)+

lemma fold_option_clients:
  "directClient (fold (apply_option U) xs f) = directClient f" "proxyClient (fold (apply_option U) xs f) = proxyClient f"
  by (induction xs arbitrary: f) (simp_all add: apply_option_clients)

lemma direct_client_needs_mode:
  assumes "directClient (su_fetcher (NewFetcher U N opts)) \<noteq> NoClient"
  shows "directFirst (su_fetcher (NewFetcher U N opts)) \<and> N direct_options \<noteq> None"
  using assms fold_option_clients(1)[of U "tier_options opts" empty_fetcher]
  by (auto simp: NewFetcher_is_New New_def Let_def empty_fetcher_def split: if_splits option.splits)

text \<open>No fetcher has an unguarded stealth client: under all options and their orders, every client
  checks the address of a request, and one that does not go through a proxy also checks each
  connection and each redirect.  A builder that refuses option lists without these guards makes no
  difference, and a direct client exists only in direct-first mode.\<close>

theorem stealth_clients_guarded:
  "NewFetcher U (guarded_builder N) opts = NewFetcher U N opts
   \<and> (directFirst (su_fetcher (NewFetcher U N opts)) \<or> DirectClient (su_fetcher (NewFetcher U N opts)) = None)"
proof
  show "NewFetcher U (guarded_builder N) opts = NewFetcher U N opts"
    by (simp add: NewFetcher_def guarded_builder_def proxy_options_def direct_options_def Let_def)
  show "directFirst (su_fetcher (NewFetcher U N opts)) \<or> DirectClient (su_fetcher (NewFetcher U N opts)) = None"
    using direct_client_needs_mode[of U N opts] by (auto simp: DirectClient_def split: client.split)
qed

subsection \<open>Redirects of the plain client\<close>

text \<open>\<open>CheckRedirect\<close>: \<open>via\<close> are the requests made so far.\<close>

definition CheckRedirect :: "string list \<Rightarrow> go_error option" where
  "CheckRedirect via =
     (if length via \<ge> defaultMaxRedirects
      then Some (ErrNew (''stopped after '' @ Itoa (int defaultMaxRedirects) @ '' redirects'')) else None)"

text \<open>How \<open>http.Client\<close> follows redirects: \<open>send\<close> gives an answer or the next address.\<close>

function follow :: "(string \<Rightarrow> 'w \<Rightarrow> (string + 'r) \<times> 'w) \<Rightarrow> string list \<Rightarrow> string \<Rightarrow> 'w \<Rightarrow> (string list \<times> 'r result) \<times> 'w" where
  "follow send via url w =
     (case send url w of
        (Inr r, w1) \<Rightarrow> ((via @ [url], Inr r), w1)
      | (Inl next_url, w1) \<Rightarrow>
          (case CheckRedirect (via @ [url]) of
             Some e \<Rightarrow> ((via @ [url], Inl e), w1)
           | None \<Rightarrow> follow send (via @ [url]) next_url w1))"
  by pat_completeness auto

termination
  by (relation "measure (\<lambda>(_, via, _, _). defaultMaxRedirects - length via)")
    (auto simp: CheckRedirect_def split: if_splits)

declare follow.simps [simp del]

text \<open>Whatever the servers answer, a fetch of the plain client sends at most ten requests, and it
  fails with the redirect error only after exactly ten.\<close>

lemma follow_bounded:
  assumes "follow send via url w = ((us, r), w')" "length via < 10"
  shows "length us \<le> 10 \<and> (\<forall>e. r = Inl e \<longrightarrow> length us = 10 \<and> e = ErrNew ''stopped after 10 redirects'')"
  using assms
proof (induction send via url w rule: follow.induct)
  case (1 send via url w)
  show ?case
  proof (cases "send url w")
    case (Pair a w1)
    have ten: "Itoa 10 = ''10''" by (simp add: Itoa_def nat_digits.simps) code_simp
    show ?thesis
    proof (cases a)
      case (Inr x)
      with 1 Pair show ?thesis by (auto simp: follow.simps[of send via])
    next
      case (Inl u)
      show ?thesis
      proof (cases "CheckRedirect (via @ [url])")
        case None
        with 1(1)[OF Pair[symmetric] Inl None] 1(2) Pair Inl show ?thesis
          by (simp add: follow.simps[of send via] CheckRedirect_def defaultMaxRedirects_def split: if_splits)
      next
        case (Some e)
        with 1(2,3) Pair Inl ten show ?thesis
          by (auto simp: follow.simps[of send via] CheckRedirect_def defaultMaxRedirects_def split: if_splits)
      qed
    qed
  qed
qed

text \<open>The plain client asks for gzip and deflate and decodes only gzip: a deflated page is handed on
  as it came.\<close>

lemma deflate_not_decoded:
  "header_Get (http_headers ua []) ''Accept-Encoding'' = ''gzip, deflate''"
  "header_Get (resp_Header resp) ''Content-Encoding'' = ''deflate'' \<Longrightarrow> ReadResponseBody E resp = resp_Body resp"
  by (simp_all add: http_headers_def header_Get_def header_Set_def ReadResponseBody_def update_conv')

end
