(* ===== verification/Parallel_Fetch.thy ===== *)
theory Parallel_Fetch
  imports Work_System Go_Errors
begin

text \<open>
  \<open>pipeline/fetch.go\<close>: one goroutine per URL behind a semaphore, each recovering a panic
  of the fetch function into an error, and a wait for all of them.  The goroutines are a step
  relation; the function's result is its value in a final state.
\<close>

record FetchResult =
  fr_URL :: string
  fr_Content :: string
  fr_Err :: "go_error option"

text \<open>How a call of the fetch function ends.\<close>

datatype fetch_outcome = Returned string "go_error option" | Panicked string

definition fetch_result :: "string \<Rightarrow> fetch_outcome \<Rightarrow> FetchResult" where
  "fetch_result url oc = (case oc of
     Returned content e \<Rightarrow> \<lparr>fr_URL = url, fr_Content = content, fr_Err = e\<rparr>
   | Panicked v \<Rightarrow> \<lparr>fr_URL = url, fr_Content = '''', fr_Err = Some (ErrNew (''panic: '' @ v))\<rparr>)"

type_synonym FetchOption = "nat \<Rightarrow> nat"

definition WithMaxConcurrency :: "int \<Rightarrow> FetchOption" where
  "WithMaxConcurrency n cap = (if n > 0 then nat n else cap)"

definition fetch_capacity :: "FetchOption list \<Rightarrow> nat" where
  "fetch_capacity opts = fold (\<lambda>opt c. opt c) opts 10"

text \<open>The result: one entry per URL, in the order of the URLs.\<close>

definition ParallelFetch :: "string list \<Rightarrow> (string \<Rightarrow> fetch_outcome) \<Rightarrow> FetchResult list" where
  "ParallelFetch urls fetchFn = map (\<lambda>u. fetch_result u (fetchFn u)) urls"

subsection \<open>The goroutines\<close>

text \<open>A goroutine waits to enter the semaphore, runs the fetch function, has written its entry
  and leaves the semaphore, and is finished.\<close>

datatype phase = Waiting | Running | Written | Finished

record pf =
  phases :: "phase list"
  entries :: "FetchResult list"

definition zero_result :: FetchResult where
  "zero_result = \<lparr>fr_URL = '''', fr_Content = '''', fr_Err = None\<rparr>"

definition pf_init :: "string list \<Rightarrow> pf" where
  "pf_init urls = \<lparr>phases = replicate (length urls) Waiting, entries = replicate (length urls) zero_result\<rparr>"

fun holds_sem :: "phase \<Rightarrow> bool" where
  "holds_sem Running = True"
| "holds_sem Written = True"
| "holds_sem _ = False"

definition holders :: "pf \<Rightarrow> nat" where
  "holders s = length (filter holds_sem (phases s))"

inductive pf_step :: "nat \<Rightarrow> string list \<Rightarrow> (string \<Rightarrow> fetch_outcome) \<Rightarrow> pf \<Rightarrow> pf \<Rightarrow> bool"
  for cap urls fetchFn where
  acquire: "i < length (phases s) \<Longrightarrow> phases s ! i = Waiting \<Longrightarrow> holders s < cap \<Longrightarrow>
    pf_step cap urls fetchFn s (s\<lparr>phases := (phases s)[i := Running]\<rparr>)"
| fetched: "i < length (phases s) \<Longrightarrow> phases s ! i = Running \<Longrightarrow>
    pf_step cap urls fetchFn s (s\<lparr>phases := (phases s)[i := Written],
      entries := (entries s)[i := fetch_result (urls ! i) (fetchFn (urls ! i))]\<rparr>)"
| release: "i < length (phases s) \<Longrightarrow> phases s ! i = Written \<Longrightarrow>
    pf_step cap urls fetchFn s (s\<lparr>phases := (phases s)[i := Finished]\<rparr>)"

inductive_cases pf_stepE: "pf_step cap urls fetchFn s t"

text \<open>\<open>wg.Wait\<close> returns.\<close>

definition pf_final :: "pf \<Rightarrow> bool" where
  "pf_final s \<longleftrightarrow> list_all (\<lambda>p. p = Finished) (phases s)"

fun phase_work :: "phase \<Rightarrow> nat" where
  "phase_work Waiting = 3"
| "phase_work Running = 2"
| "phase_work Written = 1"
| "phase_work Finished = 0"

definition pf_work :: "pf \<Rightarrow> nat" where
  "pf_work s = (\<Sum>p \<leftarrow> phases s. phase_work p)"

definition pf_inv :: "nat \<Rightarrow> string list \<Rightarrow> (string \<Rightarrow> fetch_outcome) \<Rightarrow> pf \<Rightarrow> bool" where
  "pf_inv cap urls fetchFn s \<longleftrightarrow> length (phases s) = length urls \<and> length (entries s) = length urls
     \<and> holders s \<le> cap
     \<and> (\<forall>i < length urls. entries s ! i = (if phases s ! i \<in> {Written, Finished}
          then fetch_result (urls ! i) (fetchFn (urls ! i)) else zero_result))"

subsection \<open>The invariant and the work left\<close>

lemma holders_alt: "holders s = (\<Sum>p \<leftarrow> phases s. if holds_sem p then 1 else 0)"
proof -
  have "length (filter holds_sem ps) = (\<Sum>p \<leftarrow> ps. if holds_sem p then 1 else 0)" for ps
    by (induction ps) auto
  then show ?thesis by (simp add: holders_def)
qed

lemma holders_update:
  assumes "i < length (phases s)"
  shows "holders (s\<lparr>phases := (phases s)[i := p]\<rparr>) + (if holds_sem (phases s ! i) then 1 else 0)
    = holders s + (if holds_sem p then 1 else 0)"
  using sum_list_update_nat[OF assms, of "\<lambda>p. if holds_sem p then 1 else 0" p] by (simp add: holders_alt)

lemma holders_entries [simp]: "holders (s\<lparr>entries := e\<rparr>) = holders s"
  by (simp add: holders_def)

lemma pf_inv_init: "pf_inv cap urls fetchFn (pf_init urls)"
  by (auto simp: pf_inv_def pf_init_def holders_def)

lemma pf_inv_step:
  assumes "pf_inv cap urls fetchFn s" "pf_step cap urls fetchFn s t"
  shows "pf_inv cap urls fetchFn t"
  using assms(2)
proof (cases rule: pf_step.cases)
  case (acquire i)
  then show ?thesis using assms(1) holders_update[of i s Running]
    by (auto simp: pf_inv_def nth_list_update)
next
  case (fetched i)
  then show ?thesis using assms(1) holders_update[of i s Written]
    by (auto simp: pf_inv_def nth_list_update holders_def)
next
  case (release i)
  then show ?thesis using assms(1) holders_update[of i s Finished]
    by (auto simp: pf_inv_def nth_list_update)
qed

lemma pf_work_step:
  assumes "pf_step cap urls fetchFn s t"
  shows "Suc (pf_work t) = pf_work s"
  using assms
proof (cases rule: pf_step.cases)
  case (acquire i)
  then show ?thesis using sum_list_update_nat[of i "phases s" phase_work Running] by (simp add: pf_work_def)
next
  case (fetched i)
  then show ?thesis using sum_list_update_nat[of i "phases s" phase_work Written] by (simp add: pf_work_def)
next
  case (release i)
  then show ?thesis using sum_list_update_nat[of i "phases s" phase_work Finished] by (simp add: pf_work_def)
qed

lemma phase_work_0: "phase_work p = 0 \<longleftrightarrow> p = Finished"
  by (cases p) auto

lemma pf_final_work: "pf_final s \<longleftrightarrow> pf_work s = 0"
  by (auto simp: pf_final_def pf_work_def list_all_iff phase_work_0)

lemma pf_progress:
  assumes "0 < cap" "\<not> pf_final s"
  shows "\<exists>t. pf_step cap urls fetchFn s t"
proof (cases "\<exists>i < length (phases s). holds_sem (phases s ! i)")
  case True
  then obtain i where i: "i < length (phases s)" "holds_sem (phases s ! i)" by blast
  then show ?thesis
    by (cases "phases s ! i") (auto intro: pf_step.fetched pf_step.release)
next
  case False
  then have "filter holds_sem (phases s) = []" by (auto simp: filter_empty_conv in_set_conv_nth)
  then have h: "holders s = 0" by (simp add: holders_def)
  from assms(2) obtain i where i: "i < length (phases s)" "phases s ! i \<noteq> Finished"
    by (auto simp: pf_final_def list_all_iff in_set_conv_nth)
  with False have "phases s ! i = Waiting" by (cases "phases s ! i") auto
  with i h assms(1) pf_step.acquire[of i s cap urls fetchFn] show ?thesis by auto
qed

text \<open>A semaphore of capacity zero is never made: \<open>fetch_capacity\<close> is positive.  The
  number of goroutines is \<open>Suc cap'\<close> at most.\<close>

interpretation pf: work_system "pf_step (Suc cap') urls fetchFn" "pf_inv (Suc cap') urls fetchFn" pf_final pf_work
  for cap' urls fetchFn
  using pf_inv_step pf_work_step pf_final_work pf_progress by unfold_locales auto

lemma fetch_capacity_pos:
  "list_all (\<lambda>opt. \<exists>n. opt = WithMaxConcurrency n) opts \<Longrightarrow> 0 < fetch_capacity opts"
proof -
  have "0 < c \<Longrightarrow> list_all (\<lambda>opt. \<exists>n. opt = WithMaxConcurrency n) opts \<Longrightarrow> 0 < fold (\<lambda>opt c. opt c) opts c" for c
    by (induction opts arbitrary: c) (auto simp: WithMaxConcurrency_def)
  then show "list_all (\<lambda>opt. \<exists>n. opt = WithMaxConcurrency n) opts \<Longrightarrow> 0 < fetch_capacity opts"
    by (simp add: fetch_capacity_def)
qed

lemma pf_reach_inv:
  assumes "0 < cap" "(pf_step cap urls fetchFn)\<^sup>*\<^sup>* (pf_init urls) s"
  shows "pf_inv cap urls fetchFn s"
  using assms pf.reach_inv[of "cap - 1" urls fetchFn] pf_inv_init by simp

text \<open>C24: Never more than the configured number of fetches run at once, whatever the
  interleaving.\<close>

theorem ParallelFetch_bounded:
  assumes "(pf_step (fetch_capacity [WithMaxConcurrency n]) urls fetchFn)\<^sup>*\<^sup>* (pf_init urls) s"
  shows "int (length (filter (\<lambda>p. p = Running) (phases s))) \<le> (if 0 < n then n else 10)"
proof -
  have cap: "fetch_capacity [WithMaxConcurrency n] = (if 0 < n then nat n else 10)"
    by (simp add: fetch_capacity_def WithMaxConcurrency_def)
  have "length (filter (\<lambda>p. p = Running) (phases s)) \<le> holders s"
  proof -
    have "length (filter (\<lambda>p. p = Running) ps) \<le> length (filter holds_sem ps)" for ps
      by (induction ps) auto
    then show ?thesis by (simp add: holders_def)
  qed
  also have "holders s \<le> fetch_capacity [WithMaxConcurrency n]"
    using pf_reach_inv[OF _ assms] unfolding cap pf_inv_def by (auto split: if_splits)
  finally show ?thesis unfolding cap by (auto split: if_splits)
qed

theorem ParallelFetch_bounded_witness:
  "int (length (filter (\<lambda>p. p = Running) (phases \<lparr>phases = [Running, Waiting], entries = [zero_result, zero_result]\<rparr>))) \<le> (if (0::int) < 1 then 1 else 10)"
proof (rule ParallelFetch_bounded[of 1 "[''a'', ''b'']" "\<lambda>u. Returned u None"])
  let ?s = "pf_init [''a'', ''b'']"
  have "pf_step (fetch_capacity [WithMaxConcurrency 1]) [''a'', ''b''] (\<lambda>u. Returned u None) ?s
      (?s\<lparr>phases := (phases ?s)[0 := Running]\<rparr>)"
    by (rule pf_step.acquire) (simp_all add: pf_init_def holders_def fetch_capacity_def WithMaxConcurrency_def)
  then show "(pf_step (fetch_capacity [WithMaxConcurrency 1]) [''a'', ''b''] (\<lambda>u. Returned u None))\<^sup>*\<^sup>* ?s
      \<lparr>phases = [Running, Waiting], entries = [zero_result, zero_result]\<rparr>"
    by (simp add: pf_init_def)
qed

lemma ParallelFetch_entries:
  assumes "0 < cap" "(pf_step cap urls fetchFn)\<^sup>*\<^sup>* (pf_init urls) s" "pf_final s"
  shows "entries s = ParallelFetch urls fetchFn"
proof (rule nth_equalityI)
  note I = pf_reach_inv[OF assms(1,2)]
  then show "length (entries s) = length (ParallelFetch urls fetchFn)" by (simp add: pf_inv_def ParallelFetch_def)
  fix i
  assume "i < length (entries s)"
  moreover from this I have "phases s ! i = Finished"
    using assms(3) by (auto simp: pf_inv_def pf_final_def list_all_length)
  ultimately show "entries s ! i = ParallelFetch urls fetchFn ! i" using I by (simp add: pf_inv_def ParallelFetch_def)
qed

text \<open>C4: The goroutines refine the sequential loop: when all have finished, the entries are those
  of fetching the URLs one after the other, in the order of the URLs, a panic of one call
  being an error of its own entry only.\<close>

theorem ParallelFetch_refines:
  assumes "0 < cap" "(pf_step cap urls fetchFn)\<^sup>*\<^sup>* (pf_init urls) s" "pf_final s"
  shows "entries s = ParallelFetch urls fetchFn"
  using assms by (rule ParallelFetch_entries)

theorem ParallelFetch_refines_witness:
  "\<exists>s. pf_final s \<and> entries s = ParallelFetch [''a'', ''b''] (\<lambda>u. if u = ''a'' then Panicked ''boom'' else Returned u None)"
proof -
  let ?f = "\<lambda>u. if u = ''a'' then Panicked ''boom'' else Returned u None"
  obtain n s where s: "(pf_step (Suc 0) [''a'', ''b''] ?f ^^ n) (pf_init [''a'', ''b'']) s" "pf_final s"
    using pf.completes[where cap' = 0 and urls = "[''a'', ''b'']" and fetchFn = ?f, OF pf_inv_init] by blast
  from ParallelFetch_refines[OF _ relpowp_imp_rtranclp[OF s(1)] s(2)] s(2) show ?thesis by blast
qed

text \<open>C13: The wait always ends: from every state the goroutines can reach, some goroutine can move
  until all are finished, and every run takes three steps per URL.\<close>

theorem ParallelFetch_live:
  assumes "0 < cap" "(pf_step cap urls fetchFn ^^ n) (pf_init urls) s"
  shows "(pf_final s \<longleftrightarrow> n = 3 * length urls) \<and> (pf_final s \<longleftrightarrow> \<not> (\<exists>t. pf_step cap urls fetchFn s t))
    \<and> (\<exists>t. (pf_step cap urls fetchFn)\<^sup>*\<^sup>* s t \<and> pf_final t \<and> entries t = ParallelFetch urls fetchFn)"
proof -
  obtain c where c: "cap = Suc c" using assms(1) by (cases cap) auto
  have w: "pf_work (pf_init urls) = 3 * length urls" by (simp add: pf_work_def pf_init_def sum_list_replicate)
  have r: "(pf_step cap urls fetchFn)\<^sup>*\<^sup>* (pf_init urls) s" using assms(2) by (rule relpowp_imp_rtranclp)
  have I: "pf_inv cap urls fetchFn s" by (rule pf_reach_inv[OF assms(1) r])
  obtain t where t: "(pf_step cap urls fetchFn)\<^sup>*\<^sup>* s t" "pf_final t"
    using pf.completes[of c urls fetchFn s] I c relpowp_imp_rtranclp by metis
  then have "entries t = ParallelFetch urls fetchFn"
    using ParallelFetch_entries[OF assms(1) rtranclp_trans[OF r t(1)] t(2)] by simp
  then show ?thesis
    using pf.final_after[of n c urls fetchFn "pf_init urls" s] pf.stuck_iff_final[of c urls fetchFn s] assms(2) I t c w
      pf_inv_init by auto
qed

theorem ParallelFetch_live_witness:
  "(pf_final (pf_init [''a'']) \<longleftrightarrow> 0 = 3 * length [''a''])
    \<and> (pf_final (pf_init [''a'']) \<longleftrightarrow> \<not> (\<exists>t. pf_step 1 [''a''] (\<lambda>u. Panicked u) (pf_init [''a'']) t))
    \<and> (\<exists>t. (pf_step 1 [''a''] (\<lambda>u. Panicked u))\<^sup>*\<^sup>* (pf_init [''a'']) t \<and> pf_final t
        \<and> entries t = ParallelFetch [''a''] (\<lambda>u. Panicked u))"
  by (rule ParallelFetch_live) simp_all

end
