(* ===== verification/Fact_Numbers.thy ===== *)
theory Fact_Numbers
  imports Go_Regexp
begin

text \<open>
  The text side of \<open>llm/factverify.go\<close>: the normalization of quotes and sources,
  the number tokens of a text (\<open>factNumberRe\<close>), and the canonical forms by which
  two numbers compare.  Unicode normalization (\<open>norm.NFC\<close> of
  \<open>golang.org/x/text\<close>) and the tables of package \<open>unicode\<close> are
  parameters.  The lemmas show that two tokens share a form exactly when they are the same
  token or can denote the same rational number.
\<close>

definition thousandsGroupLen :: nat where "thousandsGroupLen = 3"

subsection \<open>Normalization\<close>

text \<open>The loop of \<open>ndDigitValue\<close>: the number of consecutive digit runes just
  below \<open>r\<close>.  \<open>unicode.IsDigit\<close> is false of a negative rune, so it stops.\<close>

fun nd_count :: "unicode_tables \<Rightarrow> rune \<Rightarrow> nat" where
  "nd_count U 0 = 0"
| "nd_count U (Suc r) = (if IsDigit U r then Suc (nd_count U r) else 0)"

definition ndDigitValue :: "unicode_tables \<Rightarrow> rune \<Rightarrow> rune" where
  "ndDigitValue U r = nd_count U r mod 10"

text \<open>\<open>None\<close> is the source's -1: the rune is deleted.\<close>

definition factNormalizeRune :: "unicode_tables \<Rightarrow> rune \<Rightarrow> rune option" where
  "factNormalizeRune U r =
     (if r > 57 \<and> IsDigit U r then Some (48 + ndDigitValue U r)
      else if r \<in> {0x2018, 0x2019, 0x201A, 0x201B} then Some 39
      else if r \<in> {0x201C, 0x201D, 0x201E, 0x201F, 0xAB, 0xBB} then Some 34
      else if r \<in> {0x2013, 0x2014, 0x2212} then Some 45
      else if r \<in> {0x451, 0x401} then Some 0x435
      else if r \<in> {0xAD, 0x200B, 0x200C, 0x200D, 0x2060, 0xFEFF} then None
      else if r \<in> {0xA0, 0x202F, 0x2009} then Some 32
      else Some r)"

text \<open>\<open>strings.Map\<close>: the runes of the string mapped, those without a value left out.\<close>

definition strings_Map :: "(rune \<Rightarrow> rune option) \<Rightarrow> string \<Rightarrow> string" where
  "strings_Map f s = of_runes (List.map_filter f (runes s))"

definition normalizeFactText :: "(string \<Rightarrow> string) \<Rightarrow> unicode_tables \<Rightarrow> string \<Rightarrow> string" where
  "normalizeFactText nfc U s =
     Join (Fields (strings_Map (factNormalizeRune U) (ToLower U (nfc s)))) '' ''"

subsection \<open>Numbers\<close>

text \<open>\<open>[0-9]+(?:[.,][0-9]+)*\b(?: [0-9]{3}\b)*(?:[.,][0-9]+)?\<close>\<close>

definition rx_digits :: rx where
  "rx_digits = RPlus (RCls is_digit_byte)"

definition rx_frac :: rx where
  "rx_frac = RSeq (RCls (\<lambda>c. c = CHR ''.'' \<or> c = CHR '','')) rx_digits"

definition rx_group :: rx where
  "rx_group = RSeq (RCls (\<lambda>c. c = CHR '' '')) (RSeq (RThree (RCls is_digit_byte)) RWordB)"

definition factNumberRe :: rx where
  "factNumberRe = RSeq rx_digits (RSeq (RStar rx_frac) (RSeq RWordB (RSeq (RStar rx_group) (ROpt rx_frac))))"

definition isDigitByte :: "char \<Rightarrow> bool" where
  "isDigitByte b \<longleftrightarrow> byte b \<ge> 48 \<and> byte b \<le> 57"

definition sign_before :: "string \<Rightarrow> nat \<Rightarrow> bool" where
  "sign_before s a \<longleftrightarrow> a > 0 \<and> s ! (a - 1) = CHR ''-'' \<and> (a = 1 \<or> \<not> isDigitByte (s ! (a - 2)))"

definition factNumberTokens :: "string \<Rightarrow> string list" where
  "factNumberTokens s =
     map (\<lambda>(a, b). let tok = take (b - a) (drop a s) in if sign_before s a then ''-'' @ tok else tok)
       (rx_find_all factNumberRe None s 0)"

definition splitNumberSign :: "string \<Rightarrow> string \<times> string" where
  "splitNumberSign token = (if HasPrefix token ''-'' then (''-'', drop 1 token) else ('''', token))"

definition is_num_sep :: "char \<Rightarrow> bool" where
  "is_num_sep c \<longleftrightarrow> c = CHR ''.'' \<or> c = CHR '','' \<or> c = CHR '' ''"

text \<open>The loop of \<open>splitNumberToken\<close>; \<open>cur\<close> is \<open>body[start:i]\<close>.\<close>

fun split_num :: "string \<Rightarrow> string \<Rightarrow> string list \<times> string" where
  "split_num cur [] = ([cur], [])"
| "split_num cur (c # cs) =
     (if is_num_sep c then let (gs, ss) = split_num [] cs in (cur # gs, c # ss)
      else split_num (cur @ [c]) cs)"

definition splitNumberToken :: "string \<Rightarrow> string list \<times> string" where
  "splitNumberToken body = split_num [] body"

definition allThreeDigit :: "string list \<Rightarrow> bool" where
  "allThreeDigit groups \<longleftrightarrow> list_all (\<lambda>g. length g = thousandsGroupLen) groups"

definition strings_Cut :: "string \<Rightarrow> string \<Rightarrow> string \<times> string \<times> bool" where
  "strings_Cut s sep = (case Index s sep of
     None \<Rightarrow> (s, '''', False)
   | Some i \<Rightarrow> (take i s, drop (i + length sep) s, True))"

definition trim_left_zeros :: "string \<Rightarrow> string" where
  "trim_left_zeros s = dropWhile (\<lambda>c. c = CHR ''0'') s"

definition trim_right_zeros :: "string \<Rightarrow> string" where
  "trim_right_zeros s = rev (dropWhile (\<lambda>c. c = CHR ''0'') (rev s))"

definition canonicalNumber :: "string \<Rightarrow> string" where
  "canonicalNumber v =
     (let neg = HasPrefix v ''-'';
          v = (if neg then drop 1 v else v);
          (intPart, frac, hasFrac) = strings_Cut v ''.'';
          intPart = trim_left_zeros intPart;
          intPart = (if intPart = '''' then ''0'' else intPart);
          frac = (if hasFrac then trim_right_zeros frac else frac);
          hasFrac = (hasFrac \<and> frac \<noteq> '''');
          out = (if hasFrac then intPart @ ''.'' @ frac else intPart)
      in if neg \<and> out \<noteq> ''0'' then ''-'' @ out else out)"

definition numberForms :: "string \<Rightarrow> string list" where
  "numberForms token =
     (let (sign, body) = splitNumberSign token;
          (groups, seps) = splitNumberToken body;
          n = length groups;
          forms1 = (if n > 1 \<and> allThreeDigit (drop 1 groups)
                    then [canonicalNumber (sign @ concat groups)] else []);
          forms2 = (if n > 1 \<and> seps ! (n - 2) \<noteq> CHR '' '' \<and> allThreeDigit (drop 1 (take (n - 1) groups))
                    then [canonicalNumber (sign @ concat (take (n - 1) groups) @ ''.'' @ groups ! (n - 1))]
                    else []);
          forms = forms1 @ forms2
      in if forms = [] then (if n = 1 then [canonicalNumber token] else [token]) else forms)"

definition factNumbersCovered :: "(string \<Rightarrow> string) \<Rightarrow> unicode_tables \<Rightarrow> string \<Rightarrow> string \<Rightarrow> bool" where
  "factNumbersCovered nfc U point quote =
     (let need = factNumberTokens (normalizeFactText nfc U point)
      in if length need = 0 then True
         else let have = concat (map numberForms (factNumberTokens (normalizeFactText nfc U quote)))
              in list_all (\<lambda>tok. list_ex (\<lambda>form. form \<in> set have) (numberForms tok)) need)"

subsection \<open>Values of number strings\<close>

abbreviation digits :: "string \<Rightarrow> bool" where
  "digits s \<equiv> list_all is_digit_byte s"

definition frac_val :: "string \<Rightarrow> rat" where
  "frac_val f = of_nat (digits_val 0 f) / 10 ^ length f"

text \<open>A string \<open>[-]digits[.digits]\<close> and the rational number it denotes.\<close>

fun num_str :: "bool \<Rightarrow> string \<Rightarrow> string option \<Rightarrow> string" where
  "num_str neg i None = (if neg then ''-'' else '''') @ i"
| "num_str neg i (Some f) = (if neg then ''-'' else '''') @ i @ ''.'' @ f"

definition num_value :: "bool \<Rightarrow> string \<Rightarrow> string option \<Rightarrow> rat" where
  "num_value neg i f =
     (if neg then -1 else 1) * (of_nat (digits_val 0 i) + frac_val (case f of None \<Rightarrow> '''' | Some x \<Rightarrow> x))"

lemma digit_not_special:
  assumes "is_digit_byte c"
  shows "c \<noteq> CHR ''-'' \<and> c \<noteq> CHR ''.'' \<and> c \<noteq> CHR '','' \<and> c \<noteq> CHR '' ''"
  using assms by (auto simp: is_digit_byte_def)

lemma digits_not_special:
  assumes "digits s"
  shows "CHR ''-'' \<notin> set s" "CHR ''.'' \<notin> set s" "CHR '','' \<notin> set s" "CHR '' '' \<notin> set s"
  using assms digit_not_special by (auto simp: list_all_iff)

lemma Index_dot:
  "CHR ''.'' \<notin> set i \<Longrightarrow> Index (i @ CHR ''.'' # f) ''.'' = Some (length i)"
  by (induction i) auto

lemma strings_Cut_num:
  assumes "digits i"
  shows "strings_Cut i ''.'' = (i, '''', False)" "strings_Cut (i @ ''.'' @ f) ''.'' = (i, f, True)"
  using digits_not_special(2)[OF assms] IndexByte_None[of i "CHR ''.''"] Index_dot[of i f]
  by (auto simp: strings_Cut_def IndexByte_def split: option.splits)

lemma digits_val_acc: "digits_val a s = a * 10 ^ length s + digits_val 0 s"
proof (induction s arbitrary: a)
  case (Cons c s)
  have "digits_val (10 * a + (byte c - 48)) s = (10 * a + (byte c - 48)) * 10 ^ length s + digits_val 0 s"
    "digits_val (byte c - 48) s = (byte c - 48) * 10 ^ length s + digits_val 0 s"
    using Cons by blast+
  then show ?case by (simp only: digits_val.simps) (simp add: add_mult_distrib)
qed simp

lemma digits_val_lt: "digits s \<Longrightarrow> digits_val 0 s < 10 ^ length s"
proof (induction s)
  case (Cons c s)
  then have "byte c - 48 \<le> 9" "digits_val 0 s < 10 ^ length s" by (auto simp: is_digit_byte_def)
  moreover have "(byte c - 48) * 10 ^ length s \<le> 9 * 10 ^ length s"
    using calculation(1) by (rule mult_le_mono1)
  moreover have "digits_val 0 (c # s) = (byte c - 48) * 10 ^ length s + digits_val 0 s"
    by (simp add: digits_val_acc[of "byte c - 48" s])
  ultimately have "digits_val 0 (c # s) < 10 * 10 ^ length s" by linarith
  then show ?case by simp
qed simp

lemma ten_split: "10 * a + x = 10 * b + y \<Longrightarrow> x < 10 \<Longrightarrow> y < 10 \<Longrightarrow> a = b \<and> x = (y::nat)"
  by presburger

lemma mkbyte_48 [simp]: "mkbyte 48 = CHR ''0''"
  by (simp add: char_of_eq_iff)

lemma digits_val_inj:
  "digits s \<Longrightarrow> digits t \<Longrightarrow> length s = length t \<Longrightarrow> digits_val 0 s = digits_val 0 t \<Longrightarrow> s = t"
proof (induction s arbitrary: t rule: rev_induct)
  case (snoc c s)
  then obtain u d where t: "t = u @ [d]" by (cases t rule: rev_cases) auto
  have c: "48 \<le> byte c" "byte c \<le> 57" "48 \<le> byte d" "byte d \<le> 57"
    using snoc.prems t by (auto simp: is_digit_byte_def)
  have "10 * digits_val 0 s + (byte c - 48) = 10 * digits_val 0 u + (byte d - 48)"
    using snoc.prems t by (simp add: digits_val_append)
  then have "digits_val 0 s = digits_val 0 u \<and> byte c - 48 = byte d - 48"
    by (rule ten_split) (use c in simp_all)
  then have "digits_val 0 s = digits_val 0 u \<and> byte c = byte d" using c by linarith
  moreover have "s = u"
    by (rule snoc.IH) (use snoc.prems t calculation in simp_all)
  ultimately show ?case using t by (simp add: of_char_eq_iff)
qed simp

lemma digits_val_zeros: "digits_val 0 (s @ replicate k (CHR ''0'')) = digits_val 0 s * 10 ^ k"
proof -
  have "digits_val a (replicate k (CHR ''0'')) = a * 10 ^ k" for a
    by (induction k arbitrary: a) (simp_all add: algebra_simps)
  then show ?thesis by (simp add: digits_val_append)
qed

lemma digits_val_trim_left: "digits_val 0 (trim_left_zeros s) = digits_val 0 s"
  unfolding trim_left_zeros_def by (induction s) auto

lemma nat_digits_Suc: "0 < n \<Longrightarrow> d < 10 \<Longrightarrow> nat_digits (10 * n + d) = nat_digits n @ [mkbyte (48 + d)]"
  by (subst nat_digits.simps) simp

lemma digits_no_leading_zero:
  assumes "digits s" "s = '''' \<or> hd s \<noteq> CHR ''0''"
  shows "(if s = '''' then ''0'' else s) = nat_digits (digits_val 0 s)"
  using assms
proof (induction s rule: rev_induct)
  case Nil
  show ?case by (simp add: nat_digits.simps)
next
  case (snoc c s)
  have d: "byte c - 48 < 10" "mkbyte (48 + (byte c - 48)) = c" using snoc.prems by (auto simp: is_digit_byte_def)
  show ?case
  proof (cases "s = []")
    case True
    then show ?thesis using d by (subst nat_digits.simps) simp
  next
    case False
    then have s: "s = nat_digits (digits_val 0 s)" and h: "hd s \<noteq> CHR ''0''" using snoc by auto
    have "digits_val 0 s \<noteq> 0"
    proof
      assume "digits_val 0 s = 0"
      with s have "s = ''0''" by (simp add: nat_digits.simps)
      with h show False by simp
    qed
    then show ?thesis
      using s d nat_digits_Suc[of "digits_val 0 s" "byte c - 48"] False by (simp add: digits_val_append)
  qed
qed

lemma int_part_canonical:
  assumes "digits i"
  shows "(if trim_left_zeros i = '''' then ''0'' else trim_left_zeros i) = nat_digits (digits_val 0 i)"
proof -
  have "digits (trim_left_zeros i)" using assms by (simp add: trim_left_zeros_def list_all_dropWhile)
  moreover have "trim_left_zeros i = '''' \<or> hd (trim_left_zeros i) \<noteq> CHR ''0''"
    using hd_dropWhile[of "\<lambda>c. c = CHR ''0''" i] by (auto simp: trim_left_zeros_def)
  ultimately show ?thesis using digits_no_leading_zero by (simp add: digits_val_trim_left)
qed

lemma trim_right_decomp: "\<exists>k. s = trim_right_zeros s @ replicate k (CHR ''0'')"
proof -
  have "rev s = takeWhile (\<lambda>c. c = CHR ''0'') (rev s) @ rev (trim_right_zeros s)"
    by (simp add: trim_right_zeros_def)
  moreover have "takeWhile (\<lambda>c. c = CHR ''0'') (rev s)
      = replicate (length (takeWhile (\<lambda>c. c = CHR ''0'') (rev s))) (CHR ''0'')"
    by (rule replicate_length_same[symmetric]) (auto dest: set_takeWhileD)
  ultimately show ?thesis by (metis rev_append rev_replicate rev_rev_ident)
qed

lemma trim_right_last: "trim_right_zeros s \<noteq> [] \<Longrightarrow> last (trim_right_zeros s) \<noteq> CHR ''0''"
  using hd_dropWhile[of "\<lambda>c. c = CHR ''0''" "rev s"] by (auto simp: trim_right_zeros_def last_rev)

lemma digits_trim_right: "digits s \<Longrightarrow> digits (trim_right_zeros s)"
  by (simp add: trim_right_zeros_def list_all_dropWhile)

lemma frac_val_zeros: "frac_val (s @ replicate k (CHR ''0'')) = frac_val s"
  by (simp add: frac_val_def digits_val_zeros power_add)

lemma frac_val_trim: "frac_val (trim_right_zeros s) = frac_val s"
  using trim_right_decomp[of s] frac_val_zeros by metis

lemma frac_val_bounds: "digits s \<Longrightarrow> 0 \<le> frac_val s \<and> frac_val s < 1"
proof -
  assume "digits s"
  then have "(of_nat (digits_val 0 s) :: rat) < of_nat (10 ^ length s)"
    using digits_val_lt of_nat_less_iff by blast
  then show ?thesis by (simp add: frac_val_def)
qed

lemma frac_val_inj_le:
  assumes "digits f" "digits g" "length f \<le> length g" "g \<noteq> [] \<Longrightarrow> last g \<noteq> CHR ''0''"
    and "frac_val f = frac_val g"
  shows "f = g"
proof -
  let ?k = "length g - length f" and ?z = "CHR ''0''"
  have "(10::rat) ^ length g = 10 ^ length f * 10 ^ ?k" using assms(3) by (simp flip: power_add)
  then have "(of_nat (digits_val 0 f * 10 ^ ?k) :: rat) = of_nat (digits_val 0 g)"
    using assms(5) by (simp add: frac_val_def field_simps)
  then have "digits_val 0 (f @ replicate ?k ?z) = digits_val 0 g"
    by (simp only: of_nat_eq_iff digits_val_zeros)
  moreover have "digits (f @ replicate ?k ?z)" using assms(1)
    by (auto simp: list_all_iff is_digit_byte_def)
  ultimately have eq: "f @ replicate ?k ?z = g" using assms(2,3) by (intro digits_val_inj) auto
  show ?thesis
  proof (cases ?k)
    case 0
    with eq show ?thesis by simp
  next
    case (Suc k)
    with eq have "g = (f @ replicate k ?z) @ [?z]" by (simp flip: replicate_append_same)
    with assms(4) show ?thesis by simp
  qed
qed

lemma frac_val_inj:
  assumes "digits f" "digits g" "frac_val f = frac_val g"
  shows "trim_right_zeros f = trim_right_zeros g"
proof -
  have "digits (trim_right_zeros f)" "digits (trim_right_zeros g)"
    "frac_val (trim_right_zeros f) = frac_val (trim_right_zeros g)"
    using assms by (simp_all add: digits_trim_right frac_val_trim)
  then show ?thesis
    using frac_val_inj_le[of "trim_right_zeros f" "trim_right_zeros g"] trim_right_last[of g]
      frac_val_inj_le[of "trim_right_zeros g" "trim_right_zeros f"] trim_right_last[of f]
    by (cases "length (trim_right_zeros f) \<le> length (trim_right_zeros g)") auto
qed

text \<open>The canonical form, from the value of the integer part and the trimmed fraction.\<close>

definition canon :: "bool \<Rightarrow> nat \<Rightarrow> string \<Rightarrow> string" where
  "canon neg n f =
     (if neg \<and> \<not> (n = 0 \<and> f = '''') then ''-'' else '''') @ nat_digits n
     @ (if f = '''' then '''' else CHR ''.'' # f)"

abbreviation frac_of :: "string option \<Rightarrow> string" where
  "frac_of f \<equiv> (case f of None \<Rightarrow> '''' | Some x \<Rightarrow> x)"

lemma nat_digits_0 [simp]: "nat_digits 0 = ''0''"
  by (simp add: nat_digits.simps)

lemma nat_digits_eq_0 [simp]: "nat_digits n = ''0'' \<longleftrightarrow> n = 0"
  using nat_digits_inj[of n 0] by simp

lemma nat_digits_digits [simp]: "digits (nat_digits n)"
  by (rule nat_digits_all)

lemma nat_digits_frac_not_zero: "nat_digits n @ CHR ''.'' # f \<noteq> ''0''"
proof
  assume "nat_digits n @ CHR ''.'' # f = ''0''"
  then have "CHR ''.'' \<in> set ''0''" by (metis in_set_conv_decomp)
  then show False by simp
qed

lemma HasPrefix_minus: "digits i \<Longrightarrow> HasPrefix (i @ x) ''-'' \<longleftrightarrow> i = [] \<and> HasPrefix x ''-''"
  using digits_not_special(1)[of i] by (cases i) auto

lemma canonicalNumber_num_str:
  assumes "digits i" "digits (frac_of f)"
  shows "canonicalNumber (num_str neg i f) = canon neg (digits_val 0 i) (trim_right_zeros (frac_of f))"
proof (cases f)
  case None
  have "HasPrefix i ''-'' \<longleftrightarrow> False" using HasPrefix_minus[OF assms(1), of "[]"] by (cases i) auto
  with None show ?thesis using int_part_canonical[OF assms(1)]
    by (simp add: canonicalNumber_def strings_Cut_num(1)[OF assms(1)] canon_def trim_right_zeros_def)
next
  case (Some g)
  have "HasPrefix (i @ CHR ''.'' # g) ''-'' \<longleftrightarrow> False" using HasPrefix_minus[OF assms(1)] by simp
  with Some show ?thesis
    using int_part_canonical[OF assms(1)] strings_Cut_num(2)[OF assms(1), of g]
      nat_digits_frac_not_zero[of "digits_val 0 i"]
    by (auto simp: canonicalNumber_def canon_def)
qed

lemma append_dot_inj:
  assumes "a @ x = b @ y" "digits a" "digits b" "x = [] \<or> hd x = CHR ''.''" "y = [] \<or> hd y = CHR ''.''"
  shows "a = b \<and> x = y"
  using assms
proof (induction a arbitrary: b)
  case Nil
  then show ?case using digits_not_special(2)[of b] by (cases b) auto
next
  case (Cons c a)
  then show ?case using digits_not_special(2)[of "c # a"] by (cases b) auto
qed

lemma minus_prefix_inj:
  assumes "(if a then ''-'' else '''') @ x = (if b then ''-'' else '''') @ y"
    "x \<noteq> []" "hd x \<noteq> CHR ''-''" "y \<noteq> []" "hd y \<noteq> CHR ''-''"
  shows "(a \<longleftrightarrow> b) \<and> x = y"
  using assms by (cases a; cases b) (cases x; cases y; simp)+

lemma canon_inj:
  "canon neg n f = canon neg' n' f' \<longleftrightarrow>
     n = n' \<and> f = f' \<and> (neg = neg' \<or> n = 0 \<and> f = '''')" (is "?l = ?r")
proof
  assume l: ?l
  let ?body = "\<lambda>n f. nat_digits n @ (if f = '''' then '''' else CHR ''.'' # f)"
  have hd: "hd (?body m g) \<noteq> CHR ''-''" "?body m g \<noteq> []" for m g
    using digits_not_special(1)[OF nat_digits_digits, of m] by (cases "nat_digits m"; auto)+
  have "?body n f = ?body n' f' \<and> (neg \<and> \<not> (n = 0 \<and> f = '''') \<longleftrightarrow> neg' \<and> \<not> (n' = 0 \<and> f' = ''''))"
    using minus_prefix_inj[OF l[unfolded canon_def] hd(2) hd(1) hd(2) hd(1)] by blast
  moreover from this have "nat_digits n = nat_digits n' \<and>
      (if f = '''' then '''' else CHR ''.'' # f) = (if f' = '''' then '''' else CHR ''.'' # f')"
    by (intro append_dot_inj) auto
  ultimately show ?r by (auto simp: nat_digits_inj split: if_splits)
qed (auto simp: canon_def)

lemma int_frac_unique:
  fixes x y :: rat
  assumes "of_nat m + x = of_nat n + y" "0 \<le> x" "x < 1" "0 \<le> y" "y < 1"
  shows "m = n \<and> x = y"
proof -
  have "(of_nat m :: rat) < of_nat n + 1" "(of_nat n :: rat) < of_nat m + 1" using assms by linarith+
  then have "(of_nat m :: rat) < of_nat (Suc n)" "(of_nat n :: rat) < of_nat (Suc m)" by simp_all
  then have "m < Suc n" "n < Suc m" by (simp_all only: of_nat_less_iff)
  with assms show ?thesis by simp
qed

lemma frac_val_zero: "digits f \<Longrightarrow> frac_val f = 0 \<longleftrightarrow> trim_right_zeros f = ''''"
proof -
  have e: "frac_val '''' = 0" "trim_right_zeros '''' = ''''" by (simp_all add: frac_val_def trim_right_zeros_def)
  assume "digits f"
  then have "frac_val f = 0 \<Longrightarrow> trim_right_zeros f = ''''" using frac_val_inj[of f "''''"] e by simp
  then show ?thesis using frac_val_trim[of f] e(1) by metis
qed

lemma signed_eq_iff:
  fixes v w :: rat
  assumes "0 \<le> v" "0 \<le> w"
  shows "(if a then -1 else 1) * v = (if b then -1 else 1) * w \<longleftrightarrow> v = w \<and> (a = b \<or> v = 0)"
  using assms by (cases a; cases b) auto

text \<open>Two number strings have the same canonical form exactly when they denote the same
  number.\<close>

lemma canonicalNumber_eq_iff:
  assumes "digits i" "digits (frac_of f)" "digits j" "digits (frac_of g)"
  shows "canonicalNumber (num_str neg i f) = canonicalNumber (num_str neg' j g)
    \<longleftrightarrow> num_value neg i f = num_value neg' j g"
proof -
  let ?n = "digits_val 0 i" and ?x = "frac_val (frac_of f)"
  let ?k = "digits_val 0 j" and ?y = "frac_val (frac_of g)"
  have b: "0 \<le> ?x" "?x < 1" "0 \<le> ?y" "?y < 1" using assms frac_val_bounds by auto
  have xy: "?x = ?y \<longleftrightarrow> trim_right_zeros (frac_of f) = trim_right_zeros (frac_of g)"
    using frac_val_inj[OF assms(2,4)] frac_val_trim by metis
  have "num_value neg i f = num_value neg' j g \<longleftrightarrow>
      (of_nat ?n :: rat) + ?x = of_nat ?k + ?y \<and> (neg = neg' \<or> (of_nat ?n :: rat) + ?x = 0)"
    unfolding num_value_def by (rule signed_eq_iff) (use b in simp_all)
  also have "\<dots> \<longleftrightarrow> ?n = ?k \<and> ?x = ?y \<and> (neg = neg' \<or> ?n = 0 \<and> ?x = 0)"
    using int_frac_unique[of ?n ?x ?k ?y, OF _ b] add_nonneg_eq_0_iff[OF of_nat_0_le_iff b(1), of ?n]
    by (metis of_nat_eq_0_iff)
  finally show ?thesis
    using xy frac_val_zero[OF assms(2)] assms by (simp add: canonicalNumber_num_str canon_inj)
qed

subsection \<open>Readings of a number token\<close>

text \<open>The values a token can denote: a plain number; a number whose separators group
  thousands; a number whose last separator is a decimal mark.  A token with neither
  reading (a version, an address) denotes none.\<close>

definition token_readings :: "string \<Rightarrow> (bool \<times> string \<times> string option) list" where
  "token_readings tok =
     (let (sign, body) = splitNumberSign tok; neg = (sign = ''-''); (gs, ss) = splitNumberToken body
      in if length gs = 1 then [(neg, hd gs, None)]
         else (if list_all (\<lambda>g. length g = 3) (tl gs) then [(neg, concat gs, None)] else [])
            @ (if last ss \<noteq> CHR '' '' \<and> list_all (\<lambda>g. length g = 3) (butlast (tl gs))
               then [(neg, concat (butlast gs), Some (last gs))] else []))"

definition readings :: "string \<Rightarrow> rat set" where
  "readings tok = set (map (\<lambda>(neg, i, f). num_value neg i f) (token_readings tok))"

text \<open>A well-formed token: an optional minus, then digit groups with one separator between
  two groups.\<close>

definition render :: "string \<Rightarrow> (char \<times> string) list \<Rightarrow> string" where
  "render d rs = d @ concat (map (\<lambda>(c, g). c # g) rs)"

abbreviation groups_ok :: "string \<Rightarrow> (char \<times> string) list \<Rightarrow> bool" where
  "groups_ok d rs \<equiv> d \<noteq> [] \<and> digits d \<and> list_all (\<lambda>(c, g). is_num_sep c \<and> g \<noteq> [] \<and> digits g) rs"

definition body_ok :: "string \<Rightarrow> bool" where
  "body_ok b \<longleftrightarrow> (\<exists>d rs. b = render d rs \<and> groups_ok d rs)"

definition token_ok :: "string \<Rightarrow> bool" where
  "token_ok t \<longleftrightarrow> body_ok (snd (splitNumberSign t))"

lemma digit_not_sep: "is_digit_byte c \<Longrightarrow> \<not> is_num_sep c"
  using digit_not_special by (auto simp: is_num_sep_def)

lemma split_num_digits: "digits d \<Longrightarrow> split_num cur (d @ s) = split_num (cur @ d) s"
  by (induction d arbitrary: cur) (auto simp: digit_not_sep)

lemma split_num_render:
  "digits d \<Longrightarrow> list_all (\<lambda>(c, g). is_num_sep c \<and> digits g) rs
   \<Longrightarrow> split_num [] (render d rs) = (d # map snd rs, map fst rs)"
proof (induction rs arbitrary: d)
  case Nil
  then show ?case using split_num_digits[of d "[]" "[]"] by (simp add: render_def)
next
  case (Cons r rs)
  obtain c g where r: "r = (c, g)" by (cases r)
  then have "split_num [] (render g rs) = (g # map snd rs, map fst rs)" using Cons by simp
  then show ?case using Cons.prems r by (simp add: render_def split_num_digits)
qed

lemma splitNumberToken_render:
  "groups_ok d rs \<Longrightarrow> splitNumberToken (render d rs) = (d # map snd rs, map fst rs)"
  unfolding splitNumberToken_def by (rule split_num_render) (auto simp: list_all_iff)

lemma token_okE:
  assumes "token_ok t"
  obtains neg d rs where "groups_ok d rs" "t = (if neg then ''-'' else '''') @ render d rs"
    "splitNumberSign t = (if neg then ''-'' else '''', render d rs)"
proof -
  from assms obtain d rs where b: "snd (splitNumberSign t) = render d rs" "groups_ok d rs"
    by (auto simp: token_ok_def body_ok_def)
  show thesis
  proof (cases "HasPrefix t ''-''")
    case True
    then have "t = ''-'' @ drop 1 t" by (cases t) auto
    then show thesis using b True that[of d rs True] by (auto simp: splitNumberSign_def)
  next
    case False
    then show thesis using b that[of d rs False] by (simp add: splitNumberSign_def)
  qed
qed

lemma digits_concat: "list_all digits gs \<Longrightarrow> digits (concat gs)"
  by (induction gs) auto

lemma token_readings_digits:
  assumes "token_ok t" "(neg, i, f) \<in> set (token_readings t)"
  shows "digits i \<and> digits (frac_of f)"
proof -
  from assms(1) obtain ng d rs where t: "groups_ok d rs" "splitNumberSign t = (if ng then ''-'' else '''', render d rs)"
    by (rule token_okE)
  let ?gs = "d # map snd rs"
  have gs: "list_all digits ?gs" using t(1) by (auto simp: list_all_iff)
  then have "digits (concat ?gs)" "digits (concat (butlast ?gs))" "digits (last ?gs)"
    by (rule digits_concat) (use gs in \<open>auto simp: list_all_iff last_map intro!: digits_concat dest!: in_set_butlastD\<close>)
  with assms(2) t gs show ?thesis
    by (auto simp: token_readings_def splitNumberToken_render[OF t(1)] simp del: concat.simps split: if_splits)
qed

text \<open>The forms of a token are the canonical forms of its readings, or the token itself.\<close>

lemma numberForms_readings:
  assumes "token_ok t"
  shows "numberForms t =
    (if token_readings t = [] then [t]
     else map (\<lambda>(neg, i, f). canonicalNumber (num_str neg i f)) (token_readings t))"
proof -
  from assms obtain neg d rs where t: "groups_ok d rs" "t = (if neg then ''-'' else '''') @ render d rs"
    "splitNumberSign t = (if neg then ''-'' else '''', render d rs)" by (rule token_okE)
  note sp = splitNumberToken_render[OF t(1)]
  show ?thesis
  proof (cases rs rule: rev_cases)
    case Nil
    then show ?thesis using t sp
      by (cases neg) (simp_all add: numberForms_def token_readings_def render_def)
  next
    case (snoc xs x)
    have l: "map fst rs ! (length rs - Suc 0) = fst x" "map fst rs ! length xs = fst x"
      "last (map fst rs) = fst x" using snoc by (simp_all add: nth_append)
    show ?thesis using t(3) sp l snoc
      by (cases neg) (simp_all add: numberForms_def token_readings_def allThreeDigit_def
        thousandsGroupLen_def butlast_append nth_append)
  qed
qed

lemma filter_sep_digits: "digits d \<Longrightarrow> filter is_num_sep d = []"
  by (auto simp: filter_empty_conv list_all_iff digit_not_sep)

lemma filter_sep_render: "groups_ok d rs \<Longrightarrow> filter is_num_sep (render d rs) = map fst rs"
proof -
  assume ok: "groups_ok d rs"
  then have "list_all (\<lambda>(c, g). is_num_sep c \<and> digits g) rs" by (auto simp: list_all_iff)
  then have "filter is_num_sep (concat (map (\<lambda>(c, g). c # g) rs)) = map fst rs"
    by (induction rs) (auto simp: filter_sep_digits)
  then show ?thesis using ok by (simp add: render_def filter_sep_digits)
qed

lemma filter_sep_minus: "filter is_num_sep ((if b then ''-'' else '''') @ s) = filter is_num_sep s"
  by (simp add: is_num_sep_def)

text \<open>A canonical form has at most one separator, a dot; a token without a reading has
  a space or two separators.\<close>

lemma canonical_seps:
  assumes "digits i" "digits (frac_of f)"
  shows "filter is_num_sep (canonicalNumber (num_str neg i f)) \<in> {[], ''.''}"
proof -
  have "is_num_sep (CHR ''.'')" by (simp add: is_num_sep_def)
  moreover have "filter is_num_sep (trim_right_zeros (frac_of f)) = []" "filter is_num_sep (nat_digits n) = []" for n
    using filter_sep_digits assms(2) digits_trim_right by auto
  ultimately show ?thesis
    by (simp add: canonicalNumber_num_str[OF assms] canon_def filter_sep_minus del: filter_append)
      (simp add: is_num_sep_def)
qed

lemma literal_seps:
  assumes "token_ok t" "token_readings t = []"
  shows "filter is_num_sep t \<notin> {[], ''.''}"
proof -
  from assms obtain neg d rs where t: "groups_ok d rs" "t = (if neg then ''-'' else '''') @ render d rs"
    "splitNumberSign t = (if neg then ''-'' else '''', render d rs)" by (auto elim: token_okE)
  have f: "filter is_num_sep t = map fst rs" by (simp add: t(2) filter_sep_minus filter_sep_render[OF t(1)] del: filter_append)
  have r: "rs \<noteq> []" "\<not> list_all (\<lambda>g. length g = 3) (map snd rs)"
    "last (map fst rs) = CHR '' '' \<or> \<not> list_all (\<lambda>g. length g = 3) (butlast (map snd rs))"
    using assms(2) by (auto simp: token_readings_def t(3) splitNumberToken_render[OF t(1)] split: if_splits)
  show ?thesis
  proof (cases rs rule: rev_cases)
    case (snoc xs x)
    with r f show ?thesis by (cases xs) auto
  qed (use r in simp)
qed

lemma image_meet_iff:
  "(\<And>a b. a \<in> A \<Longrightarrow> b \<in> B \<Longrightarrow> f a = f b \<longleftrightarrow> g a = g b)
   \<Longrightarrow> f ` A \<inter> f ` B \<noteq> {} \<longleftrightarrow> g ` A \<inter> g ` B \<noteq> {}"
  by (auto simp: disjoint_iff image_iff)

text \<open>A token that cannot be read as a number is no form of one that can.\<close>

lemma literal_no_form:
  assumes "token_ok y" "token_readings y \<noteq> []" "token_ok x" "token_readings x = []"
  shows "x \<notin> set (numberForms y)"
proof
  assume "x \<in> set (numberForms y)"
  then obtain neg i f where i: "(neg, i, f) \<in> set (token_readings y)" "x = canonicalNumber (num_str neg i f)"
    using assms(1,2) by (auto simp: numberForms_readings)
  from token_readings_digits[OF assms(1) i(1)] canonical_seps[of i f neg] literal_seps[OF assms(3,4)] i(2) show False
    by auto
qed

lemma literal_match_iff:
  assumes t: "token_ok t" and u: "token_ok u" and l: "token_readings t = [] \<or> token_readings u = []"
  shows "list_ex (\<lambda>form. form \<in> set (numberForms u)) (numberForms t) \<longleftrightarrow> t = u"
proof (cases "token_readings t = [] \<and> token_readings u = []")
  case False
  then have "t \<noteq> u" using l by auto
  moreover have "\<not> list_ex (\<lambda>form. form \<in> set (numberForms u)) (numberForms t)"
  proof (cases "token_readings t = []")
    case True
    with False literal_no_form[OF u _ t] show ?thesis by (simp add: numberForms_readings[OF t])
  next
    case False
    with l literal_no_form[OF t _ u] show ?thesis by (auto simp: numberForms_readings[OF u] list_ex_iff)
  qed
  ultimately show ?thesis by blast
qed (simp add: numberForms_readings[OF t] numberForms_readings[OF u])

text \<open>Two tokens share a form exactly when they are the same token or can denote the same
  number.\<close>

lemma token_match_iff:
  assumes t: "token_ok t" and u: "token_ok u"
  shows "list_ex (\<lambda>form. form \<in> set (numberForms u)) (numberForms t)
    \<longleftrightarrow> t = u \<or> readings t \<inter> readings u \<noteq> {}"
proof (cases "token_readings t = [] \<or> token_readings u = []")
  case True
  then have "readings t \<inter> readings u = {}" by (auto simp: readings_def)
  with literal_match_iff[OF t u True] show ?thesis by simp
next
  case False
  let ?c = "\<lambda>(neg, i, f). canonicalNumber (num_str neg i f)" and ?v = "\<lambda>(neg, i, f). num_value neg i f"
  have eq: "?c a = ?c b \<longleftrightarrow> ?v a = ?v b"
    if "a \<in> set (token_readings t)" "b \<in> set (token_readings u)" for a b
  proof -
    obtain n1 i f n2 j g where ab: "a = (n1, i, f)" "b = (n2, j, g)" by (cases a, cases b) auto
    with that show ?thesis
      using token_readings_digits[OF t, of n1 i f] token_readings_digits[OF u, of n2 j g]
        canonicalNumber_eq_iff[of i f j g n1 n2] by simp
  qed
  have "list_ex (\<lambda>form. form \<in> set (numberForms u)) (numberForms t) \<longleftrightarrow>
      ?c ` set (token_readings t) \<inter> ?c ` set (token_readings u) \<noteq> {}"
    using False by (simp add: numberForms_readings[OF t] numberForms_readings[OF u] list_ex_iff) blast
  also have "\<dots> \<longleftrightarrow> readings t \<inter> readings u \<noteq> {}"
    unfolding readings_def set_map by (rule image_meet_iff) (rule eq)
  also have "\<dots> \<longleftrightarrow> t = u \<or> readings t \<inter> readings u \<noteq> {}"
    using False by (auto simp: readings_def)
  finally show ?thesis .
qed

subsection \<open>The tokens of a text\<close>

definition piece_ok :: "string \<Rightarrow> bool" where
  "piece_ok p \<longleftrightarrow> (case p of [] \<Rightarrow> False | c # g \<Rightarrow> is_num_sep c \<and> g \<noteq> [] \<and> digits g)"

lemma render_pieces:
  assumes "d \<noteq> []" "digits d" "list_all piece_ok ps"
  shows "body_ok (d @ concat ps)"
proof -
  let ?rs = "map (\<lambda>p. (hd p, tl p)) ps"
  have "concat ps = concat (map (\<lambda>(c, g). c # g) ?rs)"
    "list_all (\<lambda>(c, g). is_num_sep c \<and> g \<noteq> [] \<and> digits g) ?rs"
    using assms(3) by (induction ps) (auto simp: piece_ok_def split: list.splits)
  then have "d @ concat ps = render d ?rs \<and> groups_ok d ?rs"
    unfolding render_def using assms(1,2) by (intro conjI) (rule arg_cong, assumption+)
  then show ?thesis unfolding body_ok_def by blast
qed

lemma rx_frac_consumes:
  assumes "t \<in> set (rx_run rx_frac s)"
  shows "\<exists>w. consumes s w t \<and> piece_ok w"
proof -
  from assms obtain u where u: "u \<in> set (rx_run (RCls (\<lambda>c. c = CHR ''.'' \<or> c = CHR '','')) s)"
    "t \<in> set (rx_run rx_digits u)" by (auto simp: rx_frac_def)
  obtain c where c: "consumes s [c] u" "c = CHR ''.'' \<or> c = CHR '',''" using rx_cls_consumes[OF u(1)] by blast
  obtain g where g: "consumes u g t" "g \<noteq> []" "digits g"
    using rx_cls_plus_consumes[OF u(2)[unfolded rx_digits_def]] by blast
  from consumes_trans[OF c(1) g(1)] have "consumes s (c # g) t" by simp
  with c g show ?thesis by (auto simp: piece_ok_def is_num_sep_def intro!: exI[of _ "c # g"])
qed

lemma rx_group_consumes:
  assumes "t \<in> set (rx_run rx_group s)"
  shows "\<exists>w. consumes s w t \<and> piece_ok w"
proof -
  from assms obtain u where u: "u \<in> set (rx_run (RCls (\<lambda>c. c = CHR '' '')) s)"
    "t \<in> set (rx_run (RThree (RCls is_digit_byte)) u)"
    by (auto simp: rx_group_def simp del: rx_run.simps(1) split: if_splits)
  from u(2) obtain x y where xy: "x \<in> set (rx_run (RCls is_digit_byte) u)"
    "y \<in> set (rx_run (RCls is_digit_byte) x)" "t \<in> set (rx_run (RCls is_digit_byte) y)"
    unfolding RThree_def by (auto simp del: rx_run.simps(1))
  obtain c where c: "consumes s [c] u" "c = CHR '' ''" using rx_cls_consumes[OF u(1)] by blast
  obtain d1 d2 d3 where "consumes u [d1] x" "is_digit_byte d1" "consumes x [d2] y" "is_digit_byte d2"
    "consumes y [d3] t" "is_digit_byte d3"
    using rx_cls_consumes[OF xy(1)] rx_cls_consumes[OF xy(2)] rx_cls_consumes[OF xy(3)] by blast
  moreover from this c(1) have "consumes s ([c] @ [d1] @ [d2] @ [d3]) t" by (meson consumes_trans)
  ultimately show ?thesis using c(2)
    by (intro exI[of _ "[c, d1, d2, d3]"]) (auto simp: piece_ok_def is_num_sep_def)
qed

lemma factNumberRe_consumes:
  assumes "t \<in> set (rx_run factNumberRe s)"
  shows "\<exists>w. consumes s w t \<and> body_ok w"
proof -
  from assms obtain a b c where abc: "a \<in> set (rx_run rx_digits s)" "b \<in> set (rx_run (RStar rx_frac) a)"
    "c \<in> set (rx_run (RStar rx_group) b)" "t \<in> set (rx_run (ROpt rx_frac) c)"
    by (auto simp: factNumberRe_def split: if_splits)
  obtain d where d: "consumes s d a" "d \<noteq> []" "digits d"
    using rx_cls_plus_consumes[OF abc(1)[unfolded rx_digits_def]] by blast
  obtain ps where ps: "consumes a (concat ps) b" "list_all piece_ok ps"
    using rx_star_consumes[OF rx_frac_consumes abc(2)] by blast
  obtain qs where qs: "consumes b (concat qs) c" "list_all piece_ok qs"
    using rx_star_consumes[OF rx_group_consumes abc(3)] by blast
  obtain os where os: "consumes c (concat os) t" "list_all piece_ok os"
  proof (cases "t = c")
    case True
    then show thesis using that[of "[]"] by simp
  next
    case False
    with abc(4) have "t \<in> set (rx_run rx_frac c)" by simp
    from rx_frac_consumes[OF this] obtain w where "consumes c w t" "piece_ok w" by blast
    then show thesis using that[of "[w]"] by simp
  qed
  have "consumes s (d @ concat (ps @ qs @ os)) t"
    using consumes_trans[OF d(1) consumes_trans[OF ps(1) consumes_trans[OF qs(1) os(1)]]] by simp
  moreover have "body_ok (d @ concat (ps @ qs @ os))" using d ps qs os by (intro render_pieces) auto
  ultimately show ?thesis by blast
qed

lemma body_ok_no_minus: "body_ok b \<Longrightarrow> \<not> HasPrefix b ''-''"
proof -
  assume "body_ok b"
  then obtain d rs where "b = render d rs" "d \<noteq> []" "digits d" by (auto simp: body_ok_def)
  then show ?thesis using HasPrefix_minus[of d] by (simp add: render_def)
qed

lemma factNumberTokens_ok: "tok \<in> set (factNumberTokens s) \<Longrightarrow> token_ok tok"
proof -
  assume "tok \<in> set (factNumberTokens s)"
  then obtain a b where ab: "(a, b) \<in> set (rx_find_all factNumberRe None s 0)"
    and tok: "tok = (if sign_before s a then ''-'' @ take (b - a) (drop a s) else take (b - a) (drop a s))"
    by (auto simp: factNumberTokens_def Let_def)
  from rx_find_all_sound[OF ab] obtain q t where
    "t \<in> set (rx_run factNumberRe (q, drop a s))" "consumes (q, drop a s) (take (b - a) (drop a s)) t" by auto
  with factNumberRe_consumes consumes_unique have "body_ok (take (b - a) (drop a s))" by metis
  then show ?thesis using body_ok_no_minus by (auto simp: tok token_ok_def splitNumberSign_def)
qed

text \<open>The number rule: every number token of the point is, literally or as a number,
  one of the tokens of the quote.\<close>

theorem factNumbersCovered_iff:
  "factNumbersCovered nfc U point quote \<longleftrightarrow>
     list_all (\<lambda>t. list_ex (\<lambda>u. t = u \<or> readings t \<inter> readings u \<noteq> {})
         (factNumberTokens (normalizeFactText nfc U quote)))
       (factNumberTokens (normalizeFactText nfc U point))"
proof -
  let ?need = "factNumberTokens (normalizeFactText nfc U point)"
  let ?have = "factNumberTokens (normalizeFactText nfc U quote)"
  have "list_ex (\<lambda>form. form \<in> set (concat (map numberForms ?have))) (numberForms t)
      \<longleftrightarrow> list_ex (\<lambda>u. t = u \<or> readings t \<inter> readings u \<noteq> {}) ?have" if "t \<in> set ?need" for t
  proof -
    have "list_ex (\<lambda>form. form \<in> set (concat (map numberForms ?have))) (numberForms t)
      \<longleftrightarrow> (\<exists>u \<in> set ?have. list_ex (\<lambda>form. form \<in> set (numberForms u)) (numberForms t))"
      by (auto simp: list_ex_iff)
    also have "\<dots> \<longleftrightarrow> (\<exists>u \<in> set ?have. t = u \<or> readings t \<inter> readings u \<noteq> {})"
      using token_match_iff[OF factNumberTokens_ok[OF that] factNumberTokens_ok] by blast
    finally show ?thesis by (simp add: list_ex_iff)
  qed
  then show ?thesis by (auto simp: factNumbersCovered_def Let_def list_all_iff)
qed

subsection \<open>Decimal digits of other scripts\<close>

lemma nd_count_run: "(\<And>j. j < i \<Longrightarrow> IsDigit U (b + j)) \<Longrightarrow> nd_count U (b + i) = nd_count U b + i"
  by (induction i) auto

text \<open>In a block of ten consecutive digit runes that starts a run of digits, or follows whole
  blocks of ten, the rune at offset \<open>i\<close> has the value \<open>i\<close> and is normalized to
  that ASCII digit.\<close>

theorem ndDigitValue_block:
  assumes "\<And>j. j < 10 \<Longrightarrow> IsDigit U (b + j)" "nd_count U b mod 10 = 0" "57 < b" "i < 10"
  shows "ndDigitValue U (b + i) = i \<and> factNormalizeRune U (b + i) = Some (48 + i)"
proof -
  have "nd_count U (b + i) = nd_count U b + i" using assms by (intro nd_count_run) auto
  then have "ndDigitValue U (b + i) = i" using assms(2,4) by (simp add: ndDigitValue_def mod_add_eq[symmetric])
  then show ?thesis using assms by (simp add: factNormalizeRune_def)
qed

text \<open>The full-width digits start at U+FF10.\<close>

definition fullwidth_tables :: unicode_tables where
  "fullwidth_tables = \<lparr>ut_lower = (\<lambda>r. r), ut_letter = (\<lambda>_. False), ut_digit = (\<lambda>r. 65296 \<le> r \<and> r < 65306)\<rparr>"

theorem ndDigitValue_block_witness:
  "ndDigitValue fullwidth_tables (65296 + 3) = 3 \<and> factNormalizeRune fullwidth_tables (65296 + 3) = Some (48 + 3)"
proof (rule ndDigitValue_block)
  have "(65296::nat) = Suc 65295" by simp
  moreover have "\<not> IsDigit fullwidth_tables 65295" by (simp add: IsDigit_def fullwidth_tables_def)
  ultimately show "nd_count fullwidth_tables 65296 mod 10 = 0" by (metis mod_0 nd_count.simps(2))
qed (simp_all add: IsDigit_def fullwidth_tables_def)

subsection \<open>Normalization of ASCII text\<close>

lemma factNormalizeRune_ascii: "r < 128 \<Longrightarrow> factNormalizeRune U r = Some r"
  by (simp add: factNormalizeRune_def IsDigit_def)

lemma map_filter_id: "(\<And>x. x \<in> set xs \<Longrightarrow> f x = Some x) \<Longrightarrow> List.map_filter f xs = xs"
  by (induction xs) simp_all

lemma normalize_ascii:
  assumes "is_ascii s" "nfc s = s"
  shows "normalizeFactText nfc U s = Join (fields_segs IsSpace (map (\<lambda>c. [lower_byte c]) s) []) '' ''"
proof -
  let ?l = "map lower_byte s"
  have l: "ToLower U (nfc s) = ?l" using assms by (simp add: ToLower_def)
  have a: "is_ascii ?l" using assms by (auto simp: is_ascii_def list_all_iff lower_byte_ascii)
  have "List.map_filter (factNormalizeRune U) (map byte ?l) = map byte ?l"
    using a by (intro map_filter_id) (auto simp: is_ascii_def list_all_iff factNormalizeRune_ascii)
  then have "strings_Map (factNormalizeRune U) ?l = ?l"
    using a by (simp add: strings_Map_def runes_ascii of_runes_ascii del: map_map)
  then show ?thesis using a by (simp add: normalizeFactText_def l Fields_ascii comp_def)
qed

end
