(* ===== verification/Llm_Facts.thy ===== *)
theory Llm_Facts
  imports Fact_Numbers Text_Chunk Ws_Results
begin

text \<open>
  \<open>llm/factverify.go\<close>: the deterministic check of the facts a model proposes
  against the sources it cites, with the types of \<open>llm/summarize.go\<close> it
  annotates.  Unicode normalization (\<open>norm.NFC\<close> of \<open>golang.org/x/text\<close>) and
  the tables of package \<open>unicode\<close> are parameters.
\<close>

record FactItem =
  Point :: string
  Sources :: "int list"
  Quote :: string
  Status :: string
  HeldReason :: string

record StructuredOutput =
  Answer :: string
  Facts :: "FactItem list"

definition FactStatusVerified :: string where "FactStatusVerified = ''verified''"
definition FactStatusHeld :: string where "FactStatusHeld = ''held''"

definition HeldNoQuote :: string where "HeldNoQuote = ''no_quote''"
definition HeldBadSourceIndex :: string where "HeldBadSourceIndex = ''bad_source_index''"
definition HeldQuoteTooShort :: string where "HeldQuoteTooShort = ''quote_too_short''"
definition HeldQuoteNotInSource :: string where "HeldQuoteNotInSource = ''quote_not_in_source''"
definition HeldNumberNotInQuote :: string where "HeldNumberNotInQuote = ''number_not_in_quote''"

lemmas fact_consts = FactStatusVerified_def FactStatusHeld_def HeldNoQuote_def HeldBadSourceIndex_def
  HeldQuoteTooShort_def HeldQuoteNotInSource_def HeldNumberNotInQuote_def

definition minFactQuoteLen :: nat where "minFactQuoteLen = 20"
subsection \<open>Verification\<close>

definition verifyFact ::
  "(string \<Rightarrow> string) \<Rightarrow> unicode_tables \<Rightarrow> FactItem \<Rightarrow> nat \<Rightarrow> (int, string) gomap \<Rightarrow> string \<times> string" where
  "verifyFact nfc U f numSources haystacks =
     (if TrimSpace (Quote f) = '''' then (FactStatusHeld, HeldNoQuote)
      else if \<not> list_ex (\<lambda>idx. idx \<ge> 1 \<and> idx \<le> int numSources) (Sources f)
        then (FactStatusHeld, HeldBadSourceIndex)
      else let quote = normalizeFactText nfc U (Quote f)
      in if RuneCount quote < minFactQuoteLen then (FactStatusHeld, HeldQuoteTooShort)
      else if \<not> list_ex (\<lambda>idx. case map_of haystacks idx of Some h \<Rightarrow> Contains h quote | None \<Rightarrow> False) (Sources f)
        then (FactStatusHeld, HeldQuoteNotInSource)
      else if \<not> factNumbersCovered nfc U (Point f) (Quote f) then (FactStatusHeld, HeldNumberNotInQuote)
      else (FactStatusVerified, ''''))"

text \<open>A metric event: a counter incremented, or a duration observed, with its labels.\<close>

datatype metric =
    Counter string "(string \<times> string) list"
  | ObserveSeconds string "(string \<times> string) list" duration

definition metricFactsVerifiedTotal :: string where "metricFactsVerifiedTotal = ''llm_facts_verified_total''"
definition metricFactsHeldTotal :: string where "metricFactsHeldTotal = ''llm_facts_held_total''"

definition fact_metric :: "string \<times> string \<Rightarrow> metric" where
  "fact_metric sr =
     (if fst sr = FactStatusVerified then Counter metricFactsVerifiedTotal []
      else Counter metricFactsHeldTotal [(''reason'', snd sr)])"

text \<open>\<open>contents[url]\<close> of a Go map with string values.\<close>

definition content_of :: "(string, string) gomap \<Rightarrow> string \<Rightarrow> string" where
  "content_of m k = (case map_of m k of Some v \<Rightarrow> v | None \<Rightarrow> '''')"

definition source_text :: "(string, string) gomap \<Rightarrow> Result \<Rightarrow> string" where
  "source_text contents r = (let h = content_of contents (URL r) in if h = '''' then Content r else h)"

text \<open>The loop that builds \<open>haystacks\<close>, from index \<open>i\<close> on.\<close>

fun haystacks_from ::
  "(string \<Rightarrow> string) \<Rightarrow> unicode_tables \<Rightarrow> (string, string) gomap \<Rightarrow> nat \<Rightarrow> Result list
   \<Rightarrow> (int, string) gomap \<Rightarrow> (int, string) gomap" where
  "haystacks_from nfc U contents i [] m = m"
| "haystacks_from nfc U contents i (r # rs) m =
     (let h = source_text contents r
      in haystacks_from nfc U contents (Suc i) rs
           (if h \<noteq> '''' then AList.update (int i + 1) (normalizeFactText nfc U h) m else m))"

definition verifyFacts ::
  "(string \<Rightarrow> string) \<Rightarrow> unicode_tables \<Rightarrow> FactItem list \<Rightarrow> Result list \<Rightarrow> (string, string) gomap
   \<Rightarrow> FactItem list \<times> metric list" where
  "verifyFacts nfc U facts results contents =
     (if length facts = 0 then (facts, [])
      else let haystacks = haystacks_from nfc U contents 0 results [];
               outcome = (\<lambda>f. verifyFact nfc U f (length results) haystacks)
           in (map (\<lambda>f. f\<lparr>Status := fst (outcome f), HeldReason := snd (outcome f)\<rparr>) facts,
               map (\<lambda>f. fact_metric (outcome f)) facts))"

text \<open>\<open>ExtractJSONAnswer\<close>: the scan of the string value after its opening quote.\<close>

fun answer_scan :: "string \<Rightarrow> string \<Rightarrow> string" where
  "answer_scan sb [] = sb"
| "answer_scan sb [c] = (if c = CHR 0x22 then sb else sb @ [c])"
| "answer_scan sb (c # d # cs) =
     (if c = CHR 0x5C then
        (if d = CHR 0x22 then answer_scan (sb @ [CHR 0x22]) cs
         else if d = CHR ''n'' then answer_scan (sb @ [CHR 0x0A]) cs
         else answer_scan (sb @ [c]) (d # cs))
      else if c = CHR 0x22 then sb
      else answer_scan (sb @ [c]) (d # cs))"

definition answer_key :: string where
  "answer_key = CHR 0x22 # ''answer'' @ [CHR 0x22]"

definition ExtractJSONAnswer :: "string \<Rightarrow> string" where
  "ExtractJSONAnswer raw =
     (case Index raw answer_key of
        None \<Rightarrow> ''''
      | Some idx \<Rightarrow>
          let rest = TrimSpace (drop (idx + length answer_key) raw)
          in if length rest = 0 \<or> hd rest \<noteq> CHR '':'' then ''''
             else let rest = TrimSpace (tl rest)
                  in if length rest = 0 \<or> hd rest \<noteq> CHR 0x22 then ''''
                     else answer_scan [] (tl rest))"

text \<open>\<open>json.Unmarshal\<close> into \<open>StructuredOutput\<close> is a parameter; \<open>None\<close>
  is its error.\<close>

definition parseStructuredOutput ::
  "(string \<Rightarrow> StructuredOutput option) \<Rightarrow> (string \<Rightarrow> string) \<Rightarrow> unicode_tables \<Rightarrow> string
   \<Rightarrow> Result list \<Rightarrow> (string, string) gomap \<Rightarrow> StructuredOutput \<times> metric list" where
  "parseStructuredOutput unmarshal nfc U raw results contents =
     (case unmarshal raw of
        None \<Rightarrow>
          let answer = ExtractJSONAnswer raw
          in if answer \<noteq> '''' then (\<lparr>Answer = answer, Facts = []\<rparr>, []) else (\<lparr>Answer = raw, Facts = []\<rparr>, [])
      | Some out \<Rightarrow>
          let (facts, ms) = verifyFacts nfc U (Facts out) results contents in (out\<lparr>Facts := facts\<rparr>, ms))"

subsection \<open>Verification against its specification\<close>

text \<open>The checks of a fact with what they demand, in the order of the reasons.\<close>

definition fact_checks ::
  "(string \<Rightarrow> string) \<Rightarrow> unicode_tables \<Rightarrow> Result list \<Rightarrow> (string, string) gomap \<Rightarrow> FactItem \<Rightarrow> (string \<times> bool) list" where
  "fact_checks nfc U results contents f =
     (let norm = normalizeFactText nfc U; quote = norm (Quote f) in
      [(''no_quote'', TrimSpace (Quote f) \<noteq> ''''),
       (''bad_source_index'', \<exists>i < length results. int i + 1 \<in> set (Sources f)),
       (''quote_too_short'', 20 \<le> length (runes quote)),
       (''quote_not_in_source'', \<exists>i < length results. int i + 1 \<in> set (Sources f)
          \<and> source_text contents (results ! i) \<noteq> ''''
          \<and> sublist quote (norm (source_text contents (results ! i)))),
       (''number_not_in_quote'',
          list_all (\<lambda>t. list_ex (\<lambda>u. t = u \<or> readings t \<inter> readings u \<noteq> {}) (factNumberTokens quote))
            (factNumberTokens (norm (Point f))))])"

definition annotate ::
  "(string \<Rightarrow> string) \<Rightarrow> unicode_tables \<Rightarrow> Result list \<Rightarrow> (string, string) gomap \<Rightarrow> FactItem \<Rightarrow> FactItem" where
  "annotate nfc U results contents f =
     (case find (\<lambda>c. \<not> snd c) (fact_checks nfc U results contents f) of
        None \<Rightarrow> f\<lparr>Status := ''verified'', HeldReason := ''''\<rparr>
      | Some c \<Rightarrow> f\<lparr>Status := ''held'', HeldReason := fst c\<rparr>)"

lemma haystacks_from_lookup:
  "map_of (haystacks_from nfc U contents i rs m) k =
     (if int i < k \<and> nat (k - int i) \<le> length rs \<and> source_text contents (rs ! nat (k - int i - 1)) \<noteq> ''''
      then Some (normalizeFactText nfc U (source_text contents (rs ! nat (k - int i - 1)))) else map_of m k)"
proof (induction nfc U contents i rs m rule: haystacks_from.induct)
  case (2 nfc U contents i r rs m)
  let ?m = "if source_text contents r \<noteq> '''' then AList.update (int i + 1) (normalizeFactText nfc U (source_text contents r)) m else m"
  have IH: "map_of (haystacks_from nfc U contents (Suc i) rs ?m) k =
     (if int (Suc i) < k \<and> nat (k - int (Suc i)) \<le> length rs \<and> source_text contents (rs ! nat (k - int (Suc i) - 1)) \<noteq> ''''
      then Some (normalizeFactText nfc U (source_text contents (rs ! nat (k - int (Suc i) - 1)))) else map_of ?m k)"
    using 2 by simp
  show ?case
  proof (cases "k \<le> int i + 1")
    case True
    then show ?thesis using IH by (auto simp: update_conv Let_def)
  next
    case False
    then have "nat (k - int i - 1) = Suc (nat (k - int (Suc i) - 1))" by linarith
    moreover have "nat (k - int i) \<le> length (r # rs) \<longleftrightarrow> nat (k - int (Suc i)) \<le> length rs"
      using False by (simp add: nat_le_iff) linarith
    ultimately show ?thesis using IH False by (simp add: update_conv Let_def)
  qed
qed auto

lemma haystack_of:
  "map_of (haystacks_from nfc U contents 0 rs []) k = Some h \<longleftrightarrow>
     (\<exists>i < length rs. k = int i + 1 \<and> source_text contents (rs ! i) \<noteq> ''''
        \<and> h = normalizeFactText nfc U (source_text contents (rs ! i)))"
proof -
  have "0 < k \<and> nat k \<le> length rs \<longleftrightarrow> (\<exists>i < length rs. k = int i + 1)"
    by (auto intro!: exI[of _ "nat (k - 1)"])
  then show ?thesis by (auto simp: haystacks_from_lookup)
qed

lemma verifyFact_annotate:
  "f\<lparr>Status := fst (verifyFact nfc U f (length results) (haystacks_from nfc U contents 0 results [])),
     HeldReason := snd (verifyFact nfc U f (length results) (haystacks_from nfc U contents 0 results []))\<rparr>
   = annotate nfc U results contents f"
proof -
  have idx: "list_ex (\<lambda>idx. idx \<ge> 1 \<and> idx \<le> int (length results)) (Sources f)
      \<longleftrightarrow> (\<exists>i < length results. int i + 1 \<in> set (Sources f))" (is "?l = ?r")
  proof
    assume ?l
    then obtain k where "k \<in> set (Sources f)" "1 \<le> k" "k \<le> int (length results)" by (auto simp: list_ex_iff)
    then show ?r by (intro exI[of _ "nat (k - 1)"]) auto
  next
    assume ?r
    then obtain i where "i < length results" "int i + 1 \<in> set (Sources f)" by blast
    then show ?l by (auto simp: list_ex_iff intro!: bexI[of _ "int i + 1"])
  qed
  have found: "list_ex (\<lambda>idx. case map_of (haystacks_from nfc U contents 0 results []) idx of
        Some h \<Rightarrow> Contains h q | None \<Rightarrow> False) (Sources f)
      \<longleftrightarrow> (\<exists>i < length results. int i + 1 \<in> set (Sources f) \<and> source_text contents (results ! i) \<noteq> ''''
            \<and> sublist q (normalizeFactText nfc U (source_text contents (results ! i))))" for q
    by (auto simp: list_ex_iff haystack_of Contains_iff split: option.splits)
  show ?thesis
    by (simp add: annotate_def fact_checks_def verifyFact_def Let_def idx found factNumbersCovered_iff
        RuneCount_def minFactQuoteLen_def fact_consts not_less)
qed

lemma verifyFacts_spec_aux:
  "fst (verifyFacts nfc U facts results contents) = map (annotate nfc U results contents) facts"
  by (simp add: verifyFacts_def verifyFact_annotate Let_def)

text \<open>C3: Verification annotates and never drops: the facts come back in order, each with the
  reason of the first check that fails, or verified when none does.\<close>

theorem verifyFacts_spec:
  "fst (verifyFacts nfc U facts results contents) = map (annotate nfc U results contents) facts"
  by (rule verifyFacts_spec_aux)

text \<open>One counter is incremented for each fact, in order, by its outcome.\<close>

theorem verifyFacts_metrics:
  "snd (verifyFacts nfc U facts results contents)
   = map (\<lambda>f. fact_metric (Status f, HeldReason f)) (fst (verifyFacts nfc U facts results contents))"
  by (simp add: verifyFacts_def Let_def)


subsection \<open>Concrete facts\<close>

definition weight_source :: Result where
  "weight_source = \<lparr>Title = ''spec'', URL = ''u'', Content = ''The device has a mass of 1,234.5 grams.'', Score = 0, Metadata = []\<rparr>"

definition weight_fact :: FactItem where
  "weight_fact = \<lparr>Point = ''It weighs 1234.50 g'', Sources = [1], Quote = ''device has a mass of 1,234.5 grams'',
     Status = '''', HeldReason = ''''\<rparr>"

lemma weight_norms:
  "normalizeFactText (\<lambda>s. s) U ''It weighs 1234.50 g'' = ''it weighs 1234.50 g''"
  "normalizeFactText (\<lambda>s. s) U ''device has a mass of 1,234.5 grams'' = ''device has a mass of 1,234.5 grams''"
  "normalizeFactText (\<lambda>s. s) U ''The device has a mass of 1,234.5 grams.'' = ''the device has a mass of 1,234.5 grams.''"
  by (subst normalize_ascii; simp add: ascii_eval)+

lemma weight_tokens:
  "factNumberTokens ''it weighs 1234.50 g'' = [''1234.50'']"
  "factNumberTokens ''device has a mass of 1,234.5 grams'' = [''1,234.5'']"
  by code_simp+

lemma weight_forms: "numberForms ''1234.50'' = [''1234.5'']" "numberForms ''1,234.5'' = [''1234.5'']"
  by code_simp+

lemma weight_verified:
  "fst (verifyFacts (\<lambda>s. s) U [weight_fact] [weight_source] []) = [weight_fact\<lparr>Status := ''verified'', HeldReason := ''''\<rparr>]"
proof -
  have n: "TrimSpace ''device has a mass of 1,234.5 grams'' = ''device has a mass of 1,234.5 grams''"
    by (rule TrimSpace_ascii_id) (simp_all add: is_ascii_def trim_runes_def IsSpace_low)
  have r: "RuneCount ''device has a mass of 1,234.5 grams'' = 34"
    by (simp add: RuneCount_def runes_ascii is_ascii_def)
  show ?thesis
    by (simp add: verifyFacts_def verifyFact_def weight_fact_def weight_source_def n r weight_norms weight_tokens
        weight_forms factNumbersCovered_def Let_def source_text_def content_of_def minFactQuoteLen_def
        FactStatusVerified_def Contains_def)
qed


text \<open>A number glued to a unit is no token, since the pattern asks for a word boundary after
  its digits: the fact below is verified although its point says 5kg and its quote 7kg.\<close>

definition unit_fact :: FactItem where
  "unit_fact = \<lparr>Point = ''The pump weighs 5kg'', Sources = [1], Quote = ''The pump weighs 7kg in total'',
     Status = '''', HeldReason = ''''\<rparr>"

definition unit_source :: Result where
  "unit_source = \<lparr>Title = ''spec'', URL = ''u'', Content = ''The pump weighs 7kg in total'', Score = 0, Metadata = []\<rparr>"

lemma unit_norms:
  "normalizeFactText (\<lambda>s. s) U ''The pump weighs 5kg'' = ''the pump weighs 5kg''"
  "normalizeFactText (\<lambda>s. s) U ''The pump weighs 7kg in total'' = ''the pump weighs 7kg in total''"
  by (subst normalize_ascii; simp add: ascii_eval)+

theorem unit_number_unchecked:
  "fst (verifyFacts (\<lambda>s. s) U [unit_fact] [unit_source] []) = [unit_fact\<lparr>Status := FactStatusVerified, HeldReason := ''''\<rparr>]"
proof -
  have n: "TrimSpace ''The pump weighs 7kg in total'' = ''The pump weighs 7kg in total''"
    by (rule TrimSpace_ascii_id) (simp_all add: is_ascii_def trim_runes_def IsSpace_low)
  have r: "RuneCount ''the pump weighs 7kg in total'' = 28"
    by (simp add: RuneCount_def runes_ascii is_ascii_def)
  have t: "factNumberTokens ''the pump weighs 5kg'' = []" by code_simp
  show ?thesis
    by (simp add: verifyFacts_def verifyFact_def unit_fact_def unit_source_def n r t unit_norms
        factNumbersCovered_def Let_def source_text_def content_of_def minFactQuoteLen_def Contains_def)
qed

subsection \<open>The answer of malformed output\<close>

text \<open>The text of an answer inside a JSON string: quotes escaped, line feeds escaped or left as
  they are.\<close>

definition esc_byte :: "bool \<Rightarrow> char \<Rightarrow> string" where
  "esc_byte nl c = (if c = CHR 0x22 then [CHR 0x5C, CHR 0x22]
     else if c = CHR 0x0A \<and> nl then [CHR 0x5C, CHR ''n''] else [c])"

definition json_esc :: "bool \<Rightarrow> string \<Rightarrow> string" where
  "json_esc nl s = concat (map (esc_byte nl) s)"

lemma answer_scan_esc:
  assumes "CHR 0x5C \<notin> set s"
  shows "answer_scan sb (json_esc nl s @ CHR 0x22 # t) = sb @ s"
  using assms
proof (induction s arbitrary: sb)
  case Nil
  then show ?case by (cases t) (simp_all add: json_esc_def)
next
  case (Cons c s)
  then have IH: "answer_scan b (json_esc nl s @ CHR 0x22 # t) = b @ s" for b by simp
  obtain d u where d: "json_esc nl s @ CHR 0x22 # t = d # u" by (cases "json_esc nl s @ CHR 0x22 # t") auto
  have c: "c \<noteq> CHR 0x5C" using Cons.prems by auto
  have e: "json_esc nl (c # s) @ CHR 0x22 # t = esc_byte nl c @ d # u" by (simp add: json_esc_def d[unfolded json_esc_def])
  show ?case unfolding e using c IH[unfolded d] by (auto simp: esc_byte_def)
qed

lemma strip_front_keeps:
  assumes "list_all (\<lambda>e. q \<notin> set e) es"
  shows "\<exists>y'. strip_front es (y @ q # x) = y' @ q # x"
  using assms
proof (induction es "y @ q # x" arbitrary: y rule: strip_front.induct)
  case (1 es)
  show ?case
  proof (cases "find (\<lambda>e. e \<noteq> [] \<and> HasPrefix (y @ q # x) e) es")
    case None
    then show ?thesis by (subst strip_front.simps) auto
  next
    case (Some e)
    then have e: "e \<in> set es" "prefix e (y @ q # x)" by (auto simp: find_Some_iff HasPrefix_iff)
    then have "q \<notin> set e" using 1(2) by (auto simp: list_all_iff)
    then have "length e \<le> length y"
      using e(2) by (metis (no_types, lifting) UnCI append_eq_append_conv_if leI list.set_intros(1)
        nth_append_length nth_mem prefix_def nth_append)
    then have dr: "drop (length e) (y @ q # x) = drop (length e) y @ q # x" by simp
    from 1(1)[OF Some dr 1(2)] obtain y' where "strip_front es (drop (length e) y @ q # x) = y' @ q # x" by blast
    then show ?thesis using Some dr by (subst strip_front.simps) simp
  qed
qed

lemma encode_rune_low:
  assumes "valid_rune r" "c \<in> set (encode_rune r)" "byte c < 128"
  shows "byte c = r"
proof -
  from assms(1,2) obtain b where b: "b \<in> set (encode_bytes r)" "c = mkbyte b" by (auto simp: encode_rune_def)
  then have "byte c = b" using encode_bytes_lt[OF assms(1)] by simp
  with b(1) assms(3) show ?thesis by (auto simp: encode_bytes_def split: if_splits)
qed

lemma space_encodings_marks: "e \<in> set space_encodings \<Longrightarrow> CHR 0x22 \<notin> set e"
proof
  assume "e \<in> set space_encodings" "CHR 0x22 \<in> set e"
  then obtain r where r: "IsSpace r" "CHR 0x22 \<in> set (encode_rune r)" by (auto simp: space_encodings_def IsSpace_def)
  then have "r = 34" using encode_rune_low[OF space_valid] by force
  with r(1) show False by (simp add: IsSpace_low)
qed

lemma TrimLeft_spaces:
  assumes "list_all (\<lambda>c. c = CHR '' '') w" "byte c < 128" "\<not> IsSpace (byte c)"
  shows "TrimLeftSpace (w @ c # z) = c # z"
  using assms(1)
proof (induction w)
  case Nil
  have "valid_rune (byte c)" using assms(2) by (simp add: valid_rune_def)
  from find_space_prefix[OF this, of z] show ?case
    using assms(2,3) by (simp add: TrimLeftSpace_def strip_front.simps encode_rune_ascii)
next
  case (Cons a w)
  have "valid_rune (byte (CHR '' ''))" by (simp add: valid_rune_def)
  from find_space_prefix[OF this, of "w @ c # z"]
  have "find (\<lambda>e. e \<noteq> [] \<and> HasPrefix (CHR '' '' # w @ c # z) e) space_encodings = Some '' ''"
    using encode_rune_ascii[of "CHR '' ''"] by (simp add: IsSpace_low)
  with Cons show ?case by (simp add: TrimLeftSpace_def strip_front.simps[of _ "CHR '' '' # _"])
qed

lemma TrimSpace_between:
  assumes "list_all (\<lambda>c. c = CHR '' '') w" "c = CHR 0x22 \<or> c = CHR '':''"
  shows "\<exists>y'. TrimSpace (w @ c # x @ CHR 0x22 # y) = c # x @ CHR 0x22 # y'"
proof -
  have l: "TrimLeftSpace (w @ c # x @ CHR 0x22 # y) = c # x @ CHR 0x22 # y"
    by (rule TrimLeft_spaces) (use assms in \<open>auto simp: IsSpace_low\<close>)
  have "list_all (\<lambda>e. CHR 0x22 \<notin> set e) (map rev space_encodings)"
    using space_encodings_marks by (auto simp: list_all_iff)
  from strip_front_keeps[OF this, of "rev y" "rev (c # x)"] obtain y' where
    "strip_front (map rev space_encodings) (rev (c # x @ CHR 0x22 # y)) = y' @ CHR 0x22 # rev (c # x)" by auto
  then have "TrimRightSpace (c # x @ CHR 0x22 # y) = c # x @ CHR 0x22 # rev y'"
    by (simp add: TrimRightSpace_def)
  then show ?thesis unfolding TrimSpace_def l by blast
qed

lemma Index_answer_key: "CHR 0x22 \<notin> set pre \<Longrightarrow> Index (pre @ answer_key @ x) answer_key = Some (length pre)"
  by (induction pre) (auto simp: answer_key_def)

lemma ExtractJSONAnswer_esc:
  assumes "CHR 0x22 \<notin> set pre" "CHR 0x5C \<notin> set s"
    "list_all (\<lambda>c. c = CHR '' '') w" "list_all (\<lambda>c. c = CHR '' '') w'"
  shows "ExtractJSONAnswer (pre @ answer_key @ w @ '':'' @ w' @ [CHR 0x22] @ json_esc nl s @ [CHR 0x22] @ post) = s"
proof -
  obtain y where y: "TrimSpace (w @ CHR '':'' # (w' @ [CHR 0x22] @ json_esc nl s) @ CHR 0x22 # post)
      = CHR '':'' # (w' @ [CHR 0x22] @ json_esc nl s) @ CHR 0x22 # y"
    using TrimSpace_between[OF assms(3)] by blast
  obtain z where z: "TrimSpace (w' @ CHR 0x22 # json_esc nl s @ CHR 0x22 # y) = CHR 0x22 # json_esc nl s @ CHR 0x22 # z"
    using TrimSpace_between[OF assms(4)] by blast
  show ?thesis
    using y z Index_answer_key[OF assms(1)] by (simp add: ExtractJSONAnswer_def answer_scan_esc[OF assms(2)])
qed



end
