(* ===== verification/Llm_Client.thy ===== *)
theory Llm_Client
  imports Llm_Facts Go_Int Go_Net Text_Query
begin

text \<open>
  \<open>llm/client.go\<close>, \<open>optional.go\<close>, \<open>multimodal.go\<close> and
  \<open>query.go\<close>: the configuration of the client, which options it hands to the kit
  client (\<open>go-kit/llm\<close>), the completion calls with their metrics, and the query
  rewriting and expansion on top of them.  The kit client, the environment, the clock and
  the JSON decoders are parameters (record \<open>llm_deps\<close>); a world value of type
  \<open>'w\<close> is threaded through the calls that reach the outside.  The prompt templates are
  package variables a consumer may override, so their expansion by \<open>fmt.Sprintf\<close> is a
  parameter too (record \<open>prompts\<close>).
\<close>

subsection \<open>Options of the kit client\<close>

datatype ChatOption =
    WithChatTemperature real
  | WithChatMaxTokens int
  | WithReasoningEffort string
  | WithChatModel string

record ProxySpec =
  ps_URL :: string
  ps_Key :: string

record Endpoint =
  ep_URL :: string
  ep_Key :: string
  ep_Model :: string

text \<open>Callbacks are opaque names here: the client only passes them on.\<close>

type_synonym callback = nat

datatype kitOption =
    WithEndpoints "Endpoint list"
  | WithModelCooldown duration
  | kit_WithModelCooldownObserver callback
  | WithEndpointAttemptObserver callback
  | kit_WithPerAttemptTimeout duration
  | WithFallbackKeys "string list"
  | kit_WithReasoningEffortModels "string list"

record kitClient =
  kc_base :: string
  kc_key :: string
  kc_model :: string
  kc_opts :: "kitOption list"

record ImagePart =
  ip_URL :: string
  ip_MIMEType :: string

record 'w llm_deps =
  kit_Complete :: "kitClient \<Rightarrow> string \<Rightarrow> string \<Rightarrow> ChatOption list \<Rightarrow> 'w \<Rightarrow> string result \<times> 'w"
  kit_CompleteMultimodal :: "kitClient \<Rightarrow> string \<Rightarrow> ImagePart list \<Rightarrow> 'w \<Rightarrow> string result \<times> 'w"
  kit_BuildMultiProxyEndpointsFiltered ::
    "ProxySpec list \<Rightarrow> string \<Rightarrow> string list \<Rightarrow> callback option \<Rightarrow> 'w \<Rightarrow> Endpoint list \<times> 'w"
  kit_BuildModelChainEndpointsFiltered ::
    "string \<Rightarrow> string \<Rightarrow> string \<Rightarrow> string list \<Rightarrow> callback option \<Rightarrow> 'w \<Rightarrow> Endpoint list \<times> 'w"
  Getenv :: "string \<Rightarrow> string"
  Now :: "'w \<Rightarrow> instant"
  unmarshal_output :: "string \<Rightarrow> StructuredOutput option"
  unmarshal_strings :: "string \<Rightarrow> string list result"
  NFC :: "string \<Rightarrow> string"
  tables :: unicode_tables

subsection \<open>Configuration\<close>

record config =
  apiBase :: string
  apiKey :: string
  proxyURLs :: "string list"
  proxyKeys :: "string list"
  fallbacks :: "string list"
  model :: string
  modelChain :: "string list"
  chainObserver :: "callback option"
  filterObserver :: "callback option"
  cooldownObserver :: "callback option"
  cooldownDuration :: duration
  perAttemptTimeout :: duration
  temperature :: real
  maxTokens :: int
  metrics :: bool
  reasoningEffortModels :: "string list"

type_synonym llm_option = "config \<Rightarrow> config"

definition WithAPIBase :: "string \<Rightarrow> llm_option" where "WithAPIBase url c = c\<lparr>apiBase := url\<rparr>"
definition WithAPIKey :: "string \<Rightarrow> llm_option" where "WithAPIKey key c = c\<lparr>apiKey := key\<rparr>"
definition WithProxyURLs :: "string list \<Rightarrow> llm_option" where "WithProxyURLs urls c = c\<lparr>proxyURLs := urls\<rparr>"
definition WithProxyKeys :: "string list \<Rightarrow> llm_option" where "WithProxyKeys keys c = c\<lparr>proxyKeys := keys\<rparr>"
definition WithAPIKeyFallbacks :: "string list \<Rightarrow> llm_option" where
  "WithAPIKeyFallbacks keys c = c\<lparr>fallbacks := keys\<rparr>"
definition WithModel :: "string \<Rightarrow> llm_option" where "WithModel m c = c\<lparr>model := m\<rparr>"
definition WithModelFallbackChain :: "string list \<Rightarrow> llm_option" where
  "WithModelFallbackChain chain c = c\<lparr>modelChain := chain\<rparr>"
definition WithModelChainObserver :: "callback option \<Rightarrow> llm_option" where
  "WithModelChainObserver obs c = c\<lparr>chainObserver := obs\<rparr>"
definition WithModelFilterObserver :: "callback option \<Rightarrow> llm_option" where
  "WithModelFilterObserver obs c = c\<lparr>filterObserver := obs\<rparr>"
definition WithModelCooldownObserver :: "callback option \<Rightarrow> llm_option" where
  "WithModelCooldownObserver fn c = c\<lparr>cooldownObserver := fn\<rparr>"
definition WithModelCooldownDuration :: "duration \<Rightarrow> llm_option" where
  "WithModelCooldownDuration d c = c\<lparr>cooldownDuration := d\<rparr>"
definition WithPerAttemptTimeout :: "duration \<Rightarrow> llm_option" where
  "WithPerAttemptTimeout d c = c\<lparr>perAttemptTimeout := d\<rparr>"
definition WithReasoningEffortModels :: "string list \<Rightarrow> llm_option" where
  "WithReasoningEffortModels models c = c\<lparr>reasoningEffortModels := models\<rparr>"
definition WithTemperature :: "real \<Rightarrow> llm_option" where "WithTemperature t c = c\<lparr>temperature := t\<rparr>"
definition WithMaxTokens :: "int \<Rightarrow> llm_option" where "WithMaxTokens n c = c\<lparr>maxTokens := n\<rparr>"
definition WithMetrics :: "bool \<Rightarrow> llm_option" where "WithMetrics m c = c\<lparr>metrics := m\<rparr>"

definition defaultTemperature :: real where "defaultTemperature = 3 / 10"
definition defaultMaxTokens :: int where "defaultMaxTokens = 2000"

definition zero_config :: config where
  "zero_config = \<lparr>apiBase = '''', apiKey = '''', proxyURLs = [], proxyKeys = [], fallbacks = [], model = '''',
     modelChain = [], chainObserver = None, filterObserver = None, cooldownObserver = None,
     cooldownDuration = 0, perAttemptTimeout = 0, temperature = defaultTemperature,
     maxTokens = defaultMaxTokens, metrics = False, reasoningEffortModels = []\<rparr>"

text \<open>The defaults, then the options in order.\<close>

definition apply_options :: "llm_option list \<Rightarrow> config" where
  "apply_options opts = fold (\<lambda>opt c. opt c) opts zero_config"

definition minute :: duration where "minute = 60000000000"
definition second :: duration where "second = 1000000000"

definition defaultCooldownDuration :: duration where "defaultCooldownDuration = 5 * minute"

definition resolveCooldownDuration :: "(string \<Rightarrow> string) \<Rightarrow> duration \<Rightarrow> duration" where
  "resolveCooldownDuration getenv explicit =
     (if explicit > 0 then explicit
      else let s = getenv ''LLM_COOLDOWN_SECONDS''
           in case (if s \<noteq> '''' then Atoi s else None) of
                Some n \<Rightarrow> if n > 0 then wrap64 (n * second) else defaultCooldownDuration
              | None \<Rightarrow> defaultCooldownDuration)"

text \<open>The loop of \<open>buildProxySpecs\<close>: the key at the same position unless it is absent or
  empty.\<close>

definition buildProxySpecs :: "string list \<Rightarrow> string list \<Rightarrow> string \<Rightarrow> ProxySpec list" where
  "buildProxySpecs urls keys primaryKey =
     map (\<lambda>(i, u). \<lparr>ps_URL = u, ps_Key = (if i < length keys \<and> keys ! i \<noteq> '''' then keys ! i else primaryKey)\<rparr>)
       (List.enumerate 0 urls)"

record Client =
  kit :: kitClient
  cl_temperature :: real
  cl_maxTokens :: int
  cl_metrics :: bool
  disabled :: bool
  primaryModel :: string

text \<open>What both chain branches append after the endpoints.\<close>

definition chain_options :: "(string \<Rightarrow> string) \<Rightarrow> config \<Rightarrow> kitOption list" where
  "chain_options getenv cfg =
     [WithModelCooldown (resolveCooldownDuration getenv (cooldownDuration cfg))]
     @ (case cooldownObserver cfg of None \<Rightarrow> [] | Some obs \<Rightarrow> [kit_WithModelCooldownObserver obs])
     @ (case chainObserver cfg of None \<Rightarrow> [] | Some obs \<Rightarrow> [WithEndpointAttemptObserver obs])
     @ (if perAttemptTimeout cfg > 0 then [kit_WithPerAttemptTimeout (perAttemptTimeout cfg)] else [])"

definition New :: "'w llm_deps \<Rightarrow> llm_option list \<Rightarrow> 'w \<Rightarrow> Client \<times> 'w" where
  "New D opts w =
     (let cfg = apply_options opts;
          (kitOpts, w) =
            (if length (modelChain cfg) > 0 \<and> length (proxyURLs cfg) > 1 then
               let proxies = buildProxySpecs (proxyURLs cfg) (proxyKeys cfg) (apiKey cfg);
                   (eps, w) = kit_BuildMultiProxyEndpointsFiltered D proxies (model cfg) (modelChain cfg) (filterObserver cfg) w
               in (WithEndpoints eps # chain_options (Getenv D) cfg, w)
             else if length (modelChain cfg) > 0 then
               let (eps, w) = kit_BuildModelChainEndpointsFiltered D (apiBase cfg) (apiKey cfg) (model cfg) (modelChain cfg) (filterObserver cfg) w
               in (WithEndpoints eps # chain_options (Getenv D) cfg, w)
             else if length (fallbacks cfg) > 0 then ([WithFallbackKeys (fallbacks cfg)], w)
             else ([], w));
          kitOpts = kitOpts @ (if length (reasoningEffortModels cfg) > 0
             then [kit_WithReasoningEffortModels (reasoningEffortModels cfg)] else [])
      in (\<lparr>kit = \<lparr>kc_base = apiBase cfg, kc_key = apiKey cfg, kc_model = model cfg, kc_opts = kitOpts\<rparr>,
           cl_temperature = temperature cfg, cl_maxTokens = maxTokens cfg, cl_metrics = metrics cfg,
           disabled = False, primaryModel = model cfg\<rparr>, w))"

definition nil_kit :: kitClient where
  "nil_kit = \<lparr>kc_base = '''', kc_key = '''', kc_model = '''', kc_opts = []\<rparr>"

definition NewOptional :: "'w llm_deps \<Rightarrow> llm_option list \<Rightarrow> 'w \<Rightarrow> (Client \<times> bool) \<times> 'w" where
  "NewOptional D opts w =
     (let cfg = apply_options opts
      in if apiKey cfg = '''' then
           ((\<lparr>kit = nil_kit, cl_temperature = temperature cfg, cl_maxTokens = maxTokens cfg,
              cl_metrics = metrics cfg, disabled = True, primaryModel = ''''\<rparr>, False), w)
         else let (c, w) = New D opts w in ((c, True), w))"

subsection \<open>Completion\<close>

definition ErrUnavailable :: go_error where
  "ErrUnavailable = ErrNew ''llm: unavailable''"

text \<open>\<open>metrics.TrackCall\<close>: the events of a tracked call; a nil registry records
  nothing.\<close>

definition TrackCall :: "bool \<Rightarrow> string \<Rightarrow> string \<Rightarrow> ('w \<Rightarrow> 'a result \<times> 'w) \<Rightarrow> 'w \<Rightarrow> 'a result \<times> 'w \<times> metric list" where
  "TrackCall reg callName errName fn w =
     (let (r, w) = fn w
      in (r, w, if \<not> reg then [] else Counter callName [] # (case r of Inl _ \<Rightarrow> [Counter errName []] | Inr _ \<Rightarrow> [])))"

definition fence :: string where
  "fence = [CHR 0x60, CHR 0x60, CHR 0x60]"

definition stripFences :: "string \<Rightarrow> string" where
  "stripFences s = TrimSpace (TrimSuffix (TrimPrefix (TrimPrefix s (fence @ ''json'')) fence) fence)"

definition strip_result :: "string result \<Rightarrow> string result" where
  "strip_result r = (case r of Inl e \<Rightarrow> Inl e | Inr raw \<Rightarrow> Inr (stripFences raw))"

definition CompleteParams ::
  "'w llm_deps \<Rightarrow> Client \<Rightarrow> string \<Rightarrow> real \<Rightarrow> int \<Rightarrow> ChatOption list \<Rightarrow> 'w \<Rightarrow> string result \<times> 'w \<times> metric list" where
  "CompleteParams D c prompt temp maxTok opts w =
     (if disabled c then (Inl ErrUnavailable, w, [])
      else let (r, w, ms) = TrackCall (cl_metrics c) ''llm_calls_total'' ''llm_errors_total''
                 (kit_Complete D (kit c) '''' prompt ([WithChatTemperature temp, WithChatMaxTokens maxTok] @ opts)) w
           in (strip_result r, w, ms))"

definition Complete ::
  "'w llm_deps \<Rightarrow> Client \<Rightarrow> string \<Rightarrow> ChatOption list \<Rightarrow> 'w \<Rightarrow> string result \<times> 'w \<times> metric list" where
  "Complete D c prompt opts w =
     (if disabled c then (Inl ErrUnavailable, w, [])
      else CompleteParams D c prompt (cl_temperature c) (cl_maxTokens c) opts w)"

definition CompleteWithSystem ::
  "'w llm_deps \<Rightarrow> Client \<Rightarrow> string \<Rightarrow> string \<Rightarrow> ChatOption list \<Rightarrow> 'w \<Rightarrow> string result \<times> 'w \<times> metric list" where
  "CompleteWithSystem D c system prompt opts w =
     (if disabled c then (Inl ErrUnavailable, w, [])
      else let (r, w, ms) = TrackCall (cl_metrics c) ''llm_calls_total'' ''llm_errors_total''
                 (kit_Complete D (kit c) system prompt
                    ([WithChatTemperature (cl_temperature c), WithChatMaxTokens (cl_maxTokens c)] @ opts)) w
           in (strip_result r, w, ms))"

definition CompleteMultimodal ::
  "'w llm_deps \<Rightarrow> Client \<Rightarrow> string \<Rightarrow> ImagePart list \<Rightarrow> 'w \<Rightarrow> string result \<times> 'w \<times> metric list" where
  "CompleteMultimodal D c prompt images w =
     (if disabled c then (Inl ErrUnavailable, w, [])
      else let (r, w, ms) = TrackCall (cl_metrics c) ''llm_calls_total'' ''llm_errors_total''
                 (kit_CompleteMultimodal D (kit c) prompt
                    (map (\<lambda>img. \<lparr>ip_URL = ip_URL img, ip_MIMEType = ip_MIMEType img\<rparr>) images)) w
           in (strip_result r, w, ms))"

text \<open>\<open>time.Now().UTC().Format("2006-01-02")\<close>; an instant counts nanoseconds from the
  Unix epoch.\<close>

definition currentDate :: "'w llm_deps \<Rightarrow> 'w \<Rightarrow> string" where
  "currentDate D w = format_date (Now D w div 86400000000000)"

subsection \<open>Queries\<close>

record prompts =
  RewriteQueryPrompt :: "string \<Rightarrow> string"
  PromptBase :: "string \<Rightarrow> string \<Rightarrow> string \<Rightarrow> string \<Rightarrow> string"
  PromptDeep :: "string \<Rightarrow> string \<Rightarrow> string \<Rightarrow> string \<Rightarrow> string"
  ExpandWebQueryPrompt :: "int \<Rightarrow> string \<Rightarrow> int \<Rightarrow> string"
  ExpandQueryPrompt :: "int \<Rightarrow> string \<Rightarrow> int \<Rightarrow> string"
  type_instruction :: "QueryType \<Rightarrow> string"

definition rewriteQueryMaxLen :: nat where "rewriteQueryMaxLen = 200"

definition RewriteQuery :: "'w llm_deps \<Rightarrow> prompts \<Rightarrow> Client \<Rightarrow> string \<Rightarrow> 'w \<Rightarrow> string \<times> 'w \<times> metric list" where
  "RewriteQuery D P c query w =
     (let (r, w, ms) = CompleteParams D c (RewriteQueryPrompt P query) (3 / 10) 100 [WithReasoningEffort ''none''] w
      in (case r of
            Inl _ \<Rightarrow> query
          | Inr raw \<Rightarrow>
              if TrimSpace raw = '''' then query
              else let rewritten = TrimSpace raw
                   in if length rewritten > rewriteQueryMaxLen \<or> Contains rewritten [CHR 0x0A] then query
                      else rewritten, w, ms))"

text \<open>\<open>variants[:n]\<close> when there are more than \<open>n\<close>; a negative bound panics.\<close>

definition cut_variants :: "string list \<Rightarrow> int \<Rightarrow> string list result" where
  "cut_variants variants n =
     (if int (length variants) > n
      then (if n < 0 then Inl (GoPanic ''slice bounds out of range'') else Inr (take (nat n) variants))
      else Inr variants)"

text \<open>The common part of the two expansions.  The error quotes the reply with \<open>%q\<close>; the model has it as
  it came.\<close>

definition expand_with ::
  "'w llm_deps \<Rightarrow> string \<Rightarrow> string \<Rightarrow> Client \<Rightarrow> int \<Rightarrow> 'w \<Rightarrow> string list result \<times> 'w \<times> metric list" where
  "expand_with D what prompt c n w =
     (let (r, w, ms) = CompleteParams D c prompt (7 / 10) 250 [WithReasoningEffort ''none''] w
      in (case r of
            Inl e \<Rightarrow> Inl e
          | Inr raw \<Rightarrow>
              (case unmarshal_strings D raw of
                 Inl e \<Rightarrow> Inl (ErrWrap (what @ '': parse failed on '' @ raw) e)
               | Inr variants \<Rightarrow> cut_variants variants n), w, ms))"

definition ExpandWebSearchQueries ::
  "'w llm_deps \<Rightarrow> prompts \<Rightarrow> Client \<Rightarrow> string \<Rightarrow> int \<Rightarrow> 'w \<Rightarrow> string list result \<times> 'w \<times> metric list" where
  "ExpandWebSearchQueries D P c query n w =
     expand_with D ''expand web'' (ExpandWebQueryPrompt P n query n) c n w"

definition ExpandSearchQueries ::
  "'w llm_deps \<Rightarrow> prompts \<Rightarrow> Client \<Rightarrow> string \<Rightarrow> int \<Rightarrow> 'w \<Rightarrow> string list result \<times> 'w \<times> metric list" where
  "ExpandSearchQueries D P c query n w =
     expand_with D ''expand'' (ExpandQueryPrompt P n query n) c n w"

subsection \<open>Properties\<close>

lemma apply_options_append: "apply_options (opts @ os) = fold (\<lambda>opt c. opt c) os (apply_options opts)"
  by (simp add: apply_options_def)

lemma CompleteParams_disabled: "disabled c \<Longrightarrow> CompleteParams D c prompt t m opts w = (Inl ErrUnavailable, w, [])"
  by (simp add: CompleteParams_def)

text \<open>Without an API key the client is inert: no call reaches the kit client, changes the
  world or counts a metric; each returns \<open>ErrUnavailable\<close>, and rewriting returns the query
  itself.  With a key it is the client \<open>New\<close> builds.\<close>

theorem NewOptional_inert:
  "case NewOptional D opts w of ((c, real_client), w') \<Rightarrow>
     if apiKey (apply_options opts) = '''' then
       \<not> real_client \<and> w' = w
       \<and> Complete D c p os v = (Inl ErrUnavailable, v, [])
       \<and> CompleteParams D c p t m os v = (Inl ErrUnavailable, v, [])
       \<and> CompleteWithSystem D c sys p os v = (Inl ErrUnavailable, v, [])
       \<and> CompleteMultimodal D c p images v = (Inl ErrUnavailable, v, [])
       \<and> RewriteQuery D P c q v = (q, v, [])
       \<and> ExpandWebSearchQueries D P c q n v = (Inl ErrUnavailable, v, [])
       \<and> ExpandSearchQueries D P c q n v = (Inl ErrUnavailable, v, [])
     else real_client \<and> \<not> disabled c \<and> (c, w') = New D opts w"
proof (cases "apiKey (apply_options opts) = ''''")
  case True
  then show ?thesis
    by (simp add: NewOptional_def Let_def Complete_def CompleteParams_def CompleteWithSystem_def CompleteMultimodal_def
        RewriteQuery_def ExpandWebSearchQueries_def ExpandSearchQueries_def expand_with_def)
next
  case False
  moreover have "\<not> disabled (fst (New D opts w))" by (simp add: New_def Let_def split_def)
  ultimately show ?thesis by (auto simp: NewOptional_def split: prod.splits)
qed

text \<open>A tracked call counts one call, and one error exactly when it fails; a nil registry
  counts nothing.\<close>

lemma CompleteParams_metrics:
  "\<not> disabled c \<Longrightarrow>
   (case CompleteParams D c prompt t m opts w of (r, w', ms) \<Rightarrow>
      ms = (if cl_metrics c then Counter ''llm_calls_total'' [] # (if isl r then [Counter ''llm_errors_total'' []] else [])
            else []))"
  by (auto simp: CompleteParams_def TrackCall_def strip_result_def split: sum.splits prod.splits)

text \<open>The model chain decides how the kit client falls back: with a chain the endpoints carry
  the fallback and the fallback keys are dropped; without one the proxies are never used.\<close>

lemma New_chain_drops_keys:
  assumes "modelChain (apply_options opts) \<noteq> []"
  shows "WithFallbackKeys ks \<notin> set (kc_opts (kit (fst (New D opts w))))
    \<and> (\<exists>eps. WithEndpoints eps \<in> set (kc_opts (kit (fst (New D opts w)))))
    \<and> WithModelCooldown (resolveCooldownDuration (Getenv D) (cooldownDuration (apply_options opts)))
        \<in> set (kc_opts (kit (fst (New D opts w))))"
  using assms by (auto simp: New_def Let_def split_def chain_options_def split: option.splits if_splits)

text \<open>Without a model chain the proxy options have no effect, whatever they hold: the
  client is the one built with the API base alone.\<close>

theorem proxies_ignored_without_chain:
  assumes "modelChain (apply_options opts) = []"
  shows "New D (opts @ [WithProxyURLs urls, WithProxyKeys keys]) w = New D opts w"
  using assms by (simp add: New_def apply_options_append WithProxyURLs_def WithProxyKeys_def Let_def)

definition silent_deps :: "unit llm_deps" where
  "silent_deps = \<lparr>kit_Complete = (\<lambda>_ _ p _ w. (Inr p, w)), kit_CompleteMultimodal = (\<lambda>_ p _ w. (Inr p, w)),
     kit_BuildMultiProxyEndpointsFiltered = (\<lambda>_ _ _ _ w. ([], w)),
     kit_BuildModelChainEndpointsFiltered = (\<lambda>_ _ _ _ _ w. ([], w)),
     Getenv = (\<lambda>_. ''''), Now = (\<lambda>_. 0), unmarshal_output = (\<lambda>_. None), unmarshal_strings = (\<lambda>s. Inr [s]),
     NFC = (\<lambda>s. s), tables = ascii_tables\<rparr>"

theorem proxies_ignored_without_chain_witness:
  "New silent_deps ([WithAPIBase ''http://a'', WithAPIKey ''k''] @ [WithProxyURLs [''http://p'', ''http://q''], WithProxyKeys []]) ()
   = New silent_deps [WithAPIBase ''http://a'', WithAPIKey ''k''] ()"
  by (rule proxies_ignored_without_chain) (simp add: apply_options_def zero_config_def WithAPIBase_def WithAPIKey_def)

text \<open>Every proxy gets its own key, or the primary key when its own is missing or empty.\<close>

lemma buildProxySpecs_nth:
  "i < length urls \<Longrightarrow> buildProxySpecs urls keys k ! i =
     \<lparr>ps_URL = urls ! i, ps_Key = (if i < length keys \<and> keys ! i \<noteq> '''' then keys ! i else k)\<rparr>"
  by (simp add: buildProxySpecs_def nth_enumerate_eq)

lemma buildProxySpecs_length: "length (buildProxySpecs urls keys k) = length urls"
  by (simp add: buildProxySpecs_def)

text \<open>The cooldown is positive when it is explicit, when the environment has no usable value,
  and when the environment's seconds fit a 64-bit duration; beyond that the product wraps.\<close>

theorem resolveCooldownDuration_value:
  "resolveCooldownDuration getenv explicit =
     (if 0 < explicit then explicit
      else case Atoi (getenv ''LLM_COOLDOWN_SECONDS'') of
             Some n \<Rightarrow> if 0 < n \<and> n \<le> 9223372036 then n * 1000000000
                      else if 9223372036 < n then wrap64 (n * 1000000000) else 300000000000
           | None \<Rightarrow> 300000000000)"
proof -
  have e: "Atoi '''' = None" by (simp add: Atoi_def)
  have "wrap64 (n * 1000000000) = n * 1000000000" if "0 < n" "n \<le> 9223372036" for n
    using that by (intro wrap64_id) auto
  then show ?thesis
    using e by (auto simp: resolveCooldownDuration_def Let_def second_def minute_def defaultCooldownDuration_def
        split: option.splits)
qed

theorem cooldown_overflow:
  "resolveCooldownDuration (\<lambda>_. ''9223372037'') 0 < 0"
proof -
  have "Atoi ''9223372037'' = Some 9223372037" by (simp add: Atoi_def is_digit_byte_def)
  then show ?thesis by (simp add: resolveCooldownDuration_def second_def wrap64_alt)
qed

text \<open>Rewriting never makes a query unusable: the answer is the query itself, or at most 200
  bytes of trimmed, non-empty text on one line.\<close>

theorem RewriteQuery_usable:
  "case RewriteQuery D P c query w of (q, w', ms) \<Rightarrow>
     q = query \<or> (q \<noteq> '''' \<and> length q \<le> 200 \<and> CHR 0x0A \<in> - set q \<and> TrimSpace q = q)"
  using IndexByte_None
  by (auto simp: RewriteQuery_def rewriteQueryMaxLen_def Let_def Contains_def IndexByte_def[symmetric]
      split: sum.splits prod.splits)

text \<open>At most \<open>n\<close> variants come back; with a negative \<open>n\<close> a decoded answer always
  panics.\<close>

lemma cut_variants_spec:
  "cut_variants vs n = (if n < 0 then Inl (GoPanic ''slice bounds out of range'') else Inr (take (nat n) vs))"
  by (auto simp: cut_variants_def)

lemma ExpandWebSearchQueries_bound:
  "ExpandWebSearchQueries D P c q n w = (Inr vs, w', ms) \<Longrightarrow> int (length vs) \<le> n"
  by (auto simp: ExpandWebSearchQueries_def expand_with_def cut_variants_spec split: prod.splits sum.splits if_splits)

end
