(* ===== verification/Llm_Summarize.thy ===== *)
theory Llm_Summarize
  imports Llm_Client
begin

text \<open>
  \<open>llm/summarize.go\<close>: the source text of a prompt under a token budget, and the
  summarizing calls, each the composition of the source text, a prompt, a completion and the
  parse and verification of its answer.  Token weights are real numbers: the rounding of
  \<open>float64\<close> is not modelled.
\<close>

subsection \<open>Source text\<close>

definition LF :: string where
  "LF = [CHR 0x0A]"

definition source_header :: "nat \<Rightarrow> Result \<Rightarrow> string" where
  "source_header i r = LF @ ''['' @ Itoa (int i + 1) @ ''] '' @ Title r @ LF @ ''URL: '' @ URL r @ LF"

definition snippet_line :: "Result \<Rightarrow> string" where
  "snippet_line r = (if Content r \<noteq> '''' then ''Snippet: '' @ Content r @ LF else '''')"

text \<open>\<open>int(math.Ceil(float64(totalBudget) * weights[i]))\<close>.\<close>

definition share :: "int \<Rightarrow> real \<Rightarrow> int" where
  "share totalBudget weight = \<lceil>real_of_int totalBudget * weight\<rceil>"

text \<open>The two loops, from index \<open>i\<close> on.  The body of a source is its truncated content when
  there is fetched content and a weight for its rank, else its snippet.  \<open>None\<close> is the
  panic of \<open>TruncateToTokenBudget\<close> on a negative ratio.\<close>

fun sources_weighted ::
  "(string, string) gomap \<Rightarrow> int \<Rightarrow> real \<Rightarrow> real list \<Rightarrow> nat \<Rightarrow> Result list \<Rightarrow> string option" where
  "sources_weighted contents totalBudget charsPerToken weights i [] = Some ''''"
| "sources_weighted contents totalBudget charsPerToken weights i (r # rs) =
     (case map_of contents (URL r) of
        Some c \<Rightarrow>
          if c \<noteq> '''' \<and> i < length weights then
            (case TruncateToTokenBudget c (share totalBudget (weights ! i)) charsPerToken of
               None \<Rightarrow> None
             | Some t \<Rightarrow> map_option (\<lambda>rest. source_header i r @ ''Content: '' @ t @ LF @ rest)
                 (sources_weighted contents totalBudget charsPerToken weights (Suc i) rs))
          else map_option (\<lambda>rest. source_header i r @ snippet_line r @ rest)
                 (sources_weighted contents totalBudget charsPerToken weights (Suc i) rs)
      | None \<Rightarrow> map_option (\<lambda>rest. source_header i r @ snippet_line r @ rest)
                 (sources_weighted contents totalBudget charsPerToken weights (Suc i) rs))"

definition BuildSourcesTextWeighted ::
  "Result list \<Rightarrow> (string, string) gomap \<Rightarrow> int \<Rightarrow> real \<Rightarrow> real list \<Rightarrow> string option" where
  "BuildSourcesTextWeighted results contents totalBudget charsPerToken weights =
     sources_weighted contents totalBudget charsPerToken weights 0 results"

definition rankedWeights :: "real list" where
  "rankedWeights = [30 / 100, 25 / 100, 20 / 100, 15 / 100, 10 / 100]"

definition BuildSourcesText :: "Result list \<Rightarrow> (string, string) gomap \<Rightarrow> int \<Rightarrow> real \<Rightarrow> string option" where
  "BuildSourcesText results contents totalBudget charsPerToken =
     sources_weighted contents totalBudget charsPerToken rankedWeights 0 results"

subsection \<open>Summaries\<close>

text \<open>A panic while building the prompt leaves the call as \<open>GoPanic\<close>, before the model is
  reached.\<close>

definition with_sources ::
  "string option \<Rightarrow> 'w \<Rightarrow> (string \<Rightarrow> 'a result \<times> 'w \<times> metric list) \<Rightarrow> 'a result \<times> 'w \<times> metric list" where
  "with_sources srcs w k = (case srcs of None \<Rightarrow> (Inl (GoPanic ''slice bounds out of range''), w, []) | Some s \<Rightarrow> k s)"

text \<open>The end of every summarizing call: the error of the completion, or its parsed and
  verified answer.  A nil registry drops the metrics of the verification.\<close>

definition finish ::
  "'w llm_deps \<Rightarrow> Client \<Rightarrow> Result list \<Rightarrow> (string, string) gomap \<Rightarrow> string result \<times> 'w \<times> metric list
   \<Rightarrow> StructuredOutput result \<times> 'w \<times> metric list" where
  "finish D c results contents call =
     (let (r, w, ms) = call
      in case r of
           Inl e \<Rightarrow> (Inl e, w, ms)
         | Inr raw \<Rightarrow>
             let (out, vs) = parseStructuredOutput (unmarshal_output D) (NFC D) (tables D) raw results contents
             in (Inr out, w, ms @ (if cl_metrics c then vs else [])))"

definition SummarizeWithInstruction ::
  "'w llm_deps \<Rightarrow> prompts \<Rightarrow> Client \<Rightarrow> string \<Rightarrow> string \<Rightarrow> int \<Rightarrow> real \<Rightarrow> Result list \<Rightarrow> (string, string) gomap
   \<Rightarrow> 'w \<Rightarrow> StructuredOutput result \<times> 'w \<times> metric list" where
  "SummarizeWithInstruction D P c query instruction maxTok charsPerToken results contents w =
     with_sources (BuildSourcesText results contents maxTok charsPerToken) w (\<lambda>srcs.
       finish D c results contents (Complete D c (PromptBase P (currentDate D w) instruction query srcs) [] w))"

definition Summarize ::
  "'w llm_deps \<Rightarrow> prompts \<Rightarrow> Client \<Rightarrow> string \<Rightarrow> int \<Rightarrow> real \<Rightarrow> Result list \<Rightarrow> (string, string) gomap
   \<Rightarrow> 'w \<Rightarrow> StructuredOutput result \<times> 'w \<times> metric list" where
  "Summarize D P c query maxTok charsPerToken results contents w =
     (let instruction = type_instruction P (DetectQueryType (tables D) query)
      in SummarizeWithInstruction D P c query instruction maxTok charsPerToken results contents w)"

definition instruction_section :: "string \<Rightarrow> string" where
  "instruction_section instruction = (if instruction \<noteq> '''' then instruction @ LF @ LF else '''')"

definition SummarizeDeep ::
  "'w llm_deps \<Rightarrow> prompts \<Rightarrow> Client \<Rightarrow> string \<Rightarrow> string \<Rightarrow> int \<Rightarrow> real \<Rightarrow> Result list \<Rightarrow> (string, string) gomap
   \<Rightarrow> 'w \<Rightarrow> StructuredOutput result \<times> 'w \<times> metric list" where
  "SummarizeDeep D P c query instruction maxTok charsPerToken results contents w =
     with_sources (BuildSourcesText results contents maxTok charsPerToken) w (\<lambda>srcs.
       finish D c results contents
         (Complete D c (PromptDeep P (currentDate D w) (instruction_section instruction) query srcs) [] w))"

record SummarizeOpts =
  so_Query :: string
  so_Instruction :: string
  TotalBudget :: int
  CharsPerToken :: real
  MaxOutputTokens :: int
  DisableReasoning :: bool

definition max_out :: "Client \<Rightarrow> SummarizeOpts \<Rightarrow> int" where
  "max_out c opts = (if MaxOutputTokens opts = 0 then cl_maxTokens c else MaxOutputTokens opts)"

definition reasoning_opts :: "SummarizeOpts \<Rightarrow> ChatOption list" where
  "reasoning_opts opts = (if DisableReasoning opts then [WithReasoningEffort ''none''] else [])"

definition base_instruction :: "'w llm_deps \<Rightarrow> prompts \<Rightarrow> SummarizeOpts \<Rightarrow> string" where
  "base_instruction D P opts =
     (if so_Instruction opts \<noteq> '''' then so_Instruction opts
      else type_instruction P (DetectQueryType (tables D) (so_Query opts)))"

definition SummarizeWithOpts ::
  "'w llm_deps \<Rightarrow> prompts \<Rightarrow> Client \<Rightarrow> SummarizeOpts \<Rightarrow> Result list \<Rightarrow> (string, string) gomap
   \<Rightarrow> 'w \<Rightarrow> StructuredOutput result \<times> 'w \<times> metric list" where
  "SummarizeWithOpts D P c opts results contents w =
     with_sources (BuildSourcesText results contents (TotalBudget opts) (CharsPerToken opts)) w (\<lambda>srcs.
       finish D c results contents
         (CompleteParams D c (PromptBase P (currentDate D w) (base_instruction D P opts) (so_Query opts) srcs)
            (cl_temperature c) (max_out c opts) (reasoning_opts opts) w))"

definition SummarizeDeepWithOpts ::
  "'w llm_deps \<Rightarrow> prompts \<Rightarrow> Client \<Rightarrow> SummarizeOpts \<Rightarrow> Result list \<Rightarrow> (string, string) gomap
   \<Rightarrow> 'w \<Rightarrow> StructuredOutput result \<times> 'w \<times> metric list" where
  "SummarizeDeepWithOpts D P c opts results contents w =
     with_sources (BuildSourcesText results contents (TotalBudget opts) (CharsPerToken opts)) w (\<lambda>srcs.
       finish D c results contents
         (CompleteParams D c
            (PromptDeep P (currentDate D w) (instruction_section (so_Instruction opts)) (so_Query opts) srcs)
            (cl_temperature c) (max_out c opts) (reasoning_opts opts) w))"

definition SummarizeWithTier ::
  "'w llm_deps \<Rightarrow> prompts \<Rightarrow> Client \<Rightarrow> SummarizeOpts \<Rightarrow> Result list \<Rightarrow> (string, string) gomap \<Rightarrow> real list \<Rightarrow> bool
   \<Rightarrow> ChatOption list \<Rightarrow> 'w \<Rightarrow> StructuredOutput result \<times> 'w \<times> metric list" where
  "SummarizeWithTier D P c opts results contents weights useDeepPrompt chatOpts w =
     with_sources (BuildSourcesTextWeighted results contents (TotalBudget opts) (CharsPerToken opts) weights) w (\<lambda>srcs.
       let prompt = (if useDeepPrompt
             then PromptDeep P (currentDate D w) (instruction_section (so_Instruction opts)) (so_Query opts) srcs
             else PromptBase P (currentDate D w) (base_instruction D P opts) (so_Query opts) srcs)
       in finish D c results contents
            (CompleteParams D c prompt (cl_temperature c) (max_out c opts) (reasoning_opts opts @ chatOpts) w))"

text \<open>\<open>SummarizeToJSON\<close> with the decoder of its type parameter: the value, or the raw text
  when it does not decode.\<close>

definition SummarizeToJSON ::
  "'w llm_deps \<Rightarrow> (string \<Rightarrow> 't option) \<Rightarrow> Client \<Rightarrow> string \<Rightarrow> string \<Rightarrow> int \<Rightarrow> real \<Rightarrow> Result list
   \<Rightarrow> (string, string) gomap \<Rightarrow> 'w \<Rightarrow> ('t option \<times> string) result \<times> 'w \<times> metric list" where
  "SummarizeToJSON D decode c query instruction maxTok charsPerToken results contents w =
     with_sources (BuildSourcesText results contents maxTok charsPerToken) w (\<lambda>srcs.
       let (r, w, ms) = Complete D c (instruction @ LF @ LF @ ''Query: '' @ query @ LF @ LF @ ''Sources:'' @ LF @ srcs) [] w
       in (case r of Inl e \<Rightarrow> Inl e
           | Inr raw \<Rightarrow> (case decode raw of None \<Rightarrow> Inr (None, raw) | Some out \<Rightarrow> Inr (Some out, '''')), w, ms))"

subsection \<open>The token budget\<close>

lemma truncate_within:
  assumes "0 \<le> cpt"
  shows "\<exists>t. TruncateToTokenBudget s m cpt = Some t \<and> prefix t s \<and> real (length t) \<le> max 0 (real_of_int m * cpt)"
proof (cases "m \<le> 0 \<or> s = ''''")
  case True
  then show ?thesis by (simp add: TruncateToTokenBudget_def)
next
  case False
  let ?x = "real_of_int m * cpt"
  have x: "0 \<le> ?x" using False assms by simp
  show ?thesis
  proof (cases "int (length s) \<le> \<lfloor>?x\<rfloor>")
    case True
    then have "real (length s) \<le> ?x" by linarith
    with True False x show ?thesis by (auto simp: TruncateToTokenBudget_def Let_def)
  next
    case c: False
    let ?n = "back_to_start s (nat \<lfloor>?x\<rfloor>)"
    have "real ?n \<le> ?x" using back_to_start_le[of s "nat \<lfloor>?x\<rfloor>"] x by linarith
    with c False x show ?thesis by (auto simp: TruncateToTokenBudget_def Let_def take_is_prefix)
  qed
qed

text \<open>The bodies of the sources: \<open>Some t\<close> is a \<open>Content\<close> line, \<open>None\<close> the
  snippet.\<close>

definition source_block :: "nat \<Rightarrow> Result \<Rightarrow> string option \<Rightarrow> string" where
  "source_block i r b = source_header i r
     @ (case b of None \<Rightarrow> snippet_line r | Some t \<Rightarrow> ''Content: '' @ t @ LF)"

fun blocks :: "nat \<Rightarrow> Result list \<Rightarrow> string option list \<Rightarrow> string" where
  "blocks i (r # rs) (b # bs) = source_block i r b @ blocks (Suc i) rs bs"
| "blocks i _ _ = ''''"

definition shown :: "string option list \<Rightarrow> nat" where
  "shown bs = (\<Sum>b \<leftarrow> bs. case b of None \<Rightarrow> 0 | Some t \<Rightarrow> length t)"

definition shows_of :: "(string, string) gomap \<Rightarrow> Result \<Rightarrow> string option \<Rightarrow> bool" where
  "shows_of contents r b = (case b of None \<Rightarrow> True | Some t \<Rightarrow> prefix t (content_of contents (URL r)))"

lemma share_bounds:
  assumes "0 \<le> B" "0 \<le> w"
  shows "0 \<le> real_of_int (share B w)" "real_of_int (share B w) \<le> real_of_int B * w + 1"
proof -
  have "0 \<le> real_of_int B * w" using assms by simp
  then show "0 \<le> real_of_int (share B w)" "real_of_int (share B w) \<le> real_of_int B * w + 1"
    unfolding share_def by linarith+
qed

text \<open>The allowance of the sources from rank \<open>i\<close> on.\<close>

definition allowance :: "int \<Rightarrow> real \<Rightarrow> real list \<Rightarrow> nat \<Rightarrow> real" where
  "allowance B cpt weights i = (real_of_int B * sum_list (drop i weights) + real (length (drop i weights))) * cpt"

lemma allowance_step: "i < length weights \<Longrightarrow>
  allowance B cpt weights i = (real_of_int B * weights ! i + 1) * cpt + allowance B cpt weights (Suc i)"
  by (simp add: allowance_def Cons_nth_drop_Suc[symmetric] algebra_simps)

lemma allowance_mono:
  assumes "0 \<le> cpt" "0 \<le> B" "list_all (\<lambda>x. 0 \<le> x) weights"
  shows "allowance B cpt weights (Suc i) \<le> allowance B cpt weights i"
proof -
  have "sum_list (drop (Suc i) weights) \<le> sum_list (drop i weights)"
    "length (drop (Suc i) weights) \<le> length (drop i weights)"
    using assms(3) by (cases "i < length weights"; simp add: Cons_nth_drop_Suc[symmetric] list_all_length)+
  then show ?thesis unfolding allowance_def
    using assms(1,2) by (intro mult_right_mono add_mono mult_left_mono) auto
qed

lemma sources_weighted_blocks:
  assumes "0 \<le> cpt" "0 \<le> B" "list_all (\<lambda>x. 0 \<le> x) weights"
  shows "\<exists>bs. sources_weighted contents B cpt weights i rs = Some (blocks i rs bs)
    \<and> list_all2 (shows_of contents) rs bs \<and> real (shown bs) \<le> allowance B cpt weights i"
proof (induction rs arbitrary: i)
  case Nil
  have "list_all (\<lambda>x. 0 \<le> x) (drop i weights)" using assms(3) by (meson in_set_dropD list_all_iff)
  then have "0 \<le> sum_list (drop i weights)" by (intro sum_list_nonneg) (simp add: list_all_iff)
  then show ?case using assms by (auto simp: shown_def allowance_def)
next
  case (Cons r rs)
  from Cons.IH[of "Suc i"] obtain bs where IH: "sources_weighted contents B cpt weights (Suc i) rs = Some (blocks (Suc i) rs bs)"
    "list_all2 (shows_of contents) rs bs" "real (shown bs) \<le> allowance B cpt weights (Suc i)" by blast
  show ?case
  proof (cases "\<exists>c. map_of contents (URL r) = Some c \<and> c \<noteq> '''' \<and> i < length weights")
    case True
    then obtain c where c: "map_of contents (URL r) = Some c" "c \<noteq> ''''" "i < length weights" by blast
    let ?w = "weights ! i"
    have w: "0 \<le> ?w" using assms(3) c(3) by (simp add: list_all_length)
    from truncate_within[OF assms(1), of c "share B ?w"] obtain t where
      t: "TruncateToTokenBudget c (share B ?w) cpt = Some t" "prefix t c"
      "real (length t) \<le> max 0 (real_of_int (share B ?w) * cpt)" by blast
    then have "real (length t) \<le> (real_of_int B * ?w + 1) * cpt"
      using share_bounds[OF assms(2) w] assms(1) mult_right_mono[of "real_of_int (share B ?w)" "real_of_int B * ?w + 1" cpt] by simp
    then have "real (shown (Some t # bs)) \<le> allowance B cpt weights i"
      using IH(3) allowance_step[OF c(3)] by (simp add: shown_def)
    moreover have "sources_weighted contents B cpt weights i (r # rs) = Some (blocks i (r # rs) (Some t # bs))"
      using c t IH(1) by (simp add: source_block_def)
    moreover have "shows_of contents r (Some t)" using c(1) t(2) by (simp add: shows_of_def content_of_def)
    ultimately show ?thesis using IH(2) by (intro exI[of _ "Some t # bs"]) auto
  next
    case False
    then have "sources_weighted contents B cpt weights i (r # rs) = Some (blocks i (r # rs) (None # bs))"
      using IH(1) by (auto simp: source_block_def split: option.splits)
    moreover have "real (shown (None # bs)) \<le> allowance B cpt weights i"
      using IH(3) allowance_mono[OF assms, of i] by (simp add: shown_def)
    moreover have "shows_of contents r None" by (simp add: shows_of_def)
    ultimately show ?thesis using IH(2) by (intro exI[of _ "None # bs"]) auto
  qed
qed



subsection \<open>Summaries carry verified facts only as verified\<close>

lemma fact_checks_annotate:
  "fact_checks nfc U results contents (annotate nfc U results contents f) = fact_checks nfc U results contents f"
proof -
  obtain a b where "annotate nfc U results contents f = f\<lparr>Status := a, HeldReason := b\<rparr>"
    unfolding annotate_def
    by (cases "find (\<lambda>c. \<not> snd c) (fact_checks nfc U results contents f)") auto
  then show ?thesis by (simp add: fact_checks_def)
qed

lemma annotate_status:
  "Status (annotate nfc U results contents f) =
     (if list_all snd (fact_checks nfc U results contents f) then ''verified'' else ''held'')"
proof (cases "find (\<lambda>c. \<not> snd c) (fact_checks nfc U results contents f)")
  case None
  then have "list_all snd (fact_checks nfc U results contents f)" unfolding find_None_iff list_all_iff by blast
  with None show ?thesis by (simp add: annotate_def)
next
  case (Some c)
  then have "c \<in> set (fact_checks nfc U results contents f)" "\<not> snd c" by (auto simp: find_Some_iff)
  then have "\<not> list_all snd (fact_checks nfc U results contents f)" by (auto simp: list_all_iff)
  with Some show ?thesis by (simp add: annotate_def)
qed

definition marked :: "'w llm_deps \<Rightarrow> Result list \<Rightarrow> (string, string) gomap \<Rightarrow> FactItem \<Rightarrow> bool" where
  "marked D results contents f \<longleftrightarrow> Status f =
     (if list_all snd (fact_checks (NFC D) (tables D) results contents f) then ''verified'' else ''held'')"

definition checked :: "'w llm_deps \<Rightarrow> Result list \<Rightarrow> (string, string) gomap \<Rightarrow> StructuredOutput result \<Rightarrow> bool" where
  "checked D results contents r =
     (case r of Inl _ \<Rightarrow> True
      | Inr out \<Rightarrow> list_all (marked D results contents) (Facts out))"

lemma finish_checked: "checked D results contents (fst (finish D c results contents call))"
proof -
  have "list_all (marked D results contents) (fst (verifyFacts (NFC D) (tables D) fs results contents))" for fs
    by (auto simp: verifyFacts_spec_aux list_all_iff marked_def annotate_status fact_checks_annotate)
  then show ?thesis
    by (auto simp: finish_def parseStructuredOutput_def checked_def Let_def split_def split: sum.splits option.splits)
qed

lemma with_sources_checked:
  "(\<And>s. checked D results contents (fst (k s))) \<Longrightarrow> checked D results contents (fst (with_sources srcs w k))"
  by (auto simp: with_sources_def checked_def split: option.splits)

text \<open>C22: Whatever the model answers, every fact of a summary is marked, verified exactly when it
  passes every check; all the summarizing calls share this.\<close>

theorem summaries_checked:
  "list_all (\<lambda>call. checked D results contents (fst call))
     [Summarize D P c query m cpt results contents w,
      SummarizeWithInstruction D P c query instr m cpt results contents w,
      SummarizeDeep D P c query instr m cpt results contents w,
      SummarizeWithOpts D P c opts results contents w,
      SummarizeDeepWithOpts D P c opts results contents w,
      SummarizeWithTier D P c opts results contents weights deep chatOpts w]"
  by (simp add: Summarize_def SummarizeWithInstruction_def SummarizeDeep_def SummarizeWithOpts_def
      SummarizeDeepWithOpts_def SummarizeWithTier_def with_sources_checked finish_checked Let_def)

text \<open>The tiered call with the ranked weights and no further chat options is the call with
  options, for either prompt.\<close>

theorem tier_refines_opts:
  "SummarizeWithTier D P c opts results contents rankedWeights deep [] w =
     (if deep then SummarizeDeepWithOpts D P c opts results contents w
      else SummarizeWithOpts D P c opts results contents w)"
  by (simp add: SummarizeWithTier_def SummarizeDeepWithOpts_def SummarizeWithOpts_def
      BuildSourcesTextWeighted_def BuildSourcesText_def)

end
