(* ===== verification/Extract.thy ===== *)
theory Extract
  imports Go_Regexp Ws_Parse
begin

text \<open>
  Package \<open>extract\<close>: article text from HTML by three tiers (trafilatura, CSS selectors,
  regular expressions) with an optional model as last resort.  The HTML tokenizer, the
  trafilatura library, the DOM of goquery and the markdown converter are parameters; the regular
  expressions are run by the matcher of \<open>Go_Regexp\<close>.
\<close>

datatype Format = FormatText | FormatMarkdown | FormatHTML

record ExtractResult =
  er_Title :: string
  er_Content :: string
  er_Format :: Format

record Extractor =
  maxContentLen :: int
  format :: Format
  llmFallback :: "(string \<Rightarrow> string result) option"
  minExtractChars :: int

definition DefaultMinExtractChars :: int where "DefaultMinExtractChars = 200"
definition largeBodyThreshold :: nat where "largeBodyThreshold = 500 * 1024"

type_synonym ext_option = "Extractor \<Rightarrow> Extractor"

definition WithMaxContentLen :: "int \<Rightarrow> ext_option" where "WithMaxContentLen n e = e\<lparr>maxContentLen := n\<rparr>"
definition WithFormat :: "Format \<Rightarrow> ext_option" where "WithFormat f e = e\<lparr>format := f\<rparr>"
definition WithLLMFallback :: "(string \<Rightarrow> string result) option \<Rightarrow> ext_option" where
  "WithLLMFallback fn e = e\<lparr>llmFallback := fn\<rparr>"
definition WithMinExtractChars :: "int \<Rightarrow> ext_option" where "WithMinExtractChars n e = e\<lparr>minExtractChars := n\<rparr>"

definition extract_New :: "ext_option list \<Rightarrow> Extractor" where
  "extract_New opts = fold (\<lambda>opt e. opt e) opts
     \<lparr>maxContentLen = 0, format = FormatText, llmFallback = None, minExtractChars = DefaultMinExtractChars\<rparr>"

text \<open>The first \<open>maxContentLen\<close> bytes and three dots.\<close>

definition ext_truncate :: "Extractor \<Rightarrow> string \<Rightarrow> string" where
  "ext_truncate e s =
     (if maxContentLen e > 0 \<and> int (length s) > maxContentLen e
      then take (nat (maxContentLen e)) s @ ''...'' else s)"

subsection \<open>Scripts and styles\<close>

datatype token_type = StartTagToken | EndTagToken | OtherToken

record token =
  tt :: token_type
  tag :: string
  raw :: string

fun strip_tokens :: "bool \<Rightarrow> token list \<Rightarrow> string" where
  "strip_tokens skip [] = ''''"
| "strip_tokens skip (t # ts) =
     (if tt t = StartTagToken \<and> tag t \<in> {''script'', ''style''} then strip_tokens True ts
      else if tt t = EndTagToken \<and> tag t \<in> {''script'', ''style''} then strip_tokens False ts
      else if skip then strip_tokens skip ts else raw t @ strip_tokens skip ts)"

record 'n trafResult =
  tr_Title :: string
  tr_ContentText :: string
  tr_ContentNode :: "'n option"

record ('u, 'n) ext_deps =
  tokenize_html :: "string \<Rightarrow> token list"
  trafilatura :: "string \<Rightarrow> 'u option \<Rightarrow> 'n trafResult result"
  html_Render :: "'n \<Rightarrow> string result"
  ConvertString :: "string \<Rightarrow> string result"
  goquery :: "'n dom"
  Remove :: "string \<Rightarrow> 'n \<Rightarrow> 'n"
  KeepAttrs :: "(string \<Rightarrow> bool) \<Rightarrow> 'n \<Rightarrow> 'n"
  Html :: "'n \<Rightarrow> string result"

definition StripScriptStyle :: "('u, 'n) ext_deps \<Rightarrow> string \<Rightarrow> string" where
  "StripScriptStyle D body = (if length body = 0 then body else strip_tokens False (tokenize_html D body))"

subsection \<open>Trafilatura\<close>

definition renderContentNode :: "('u, 'n) ext_deps \<Rightarrow> 'n trafResult \<Rightarrow> string" where
  "renderContentNode D result =
     (case tr_ContentNode result of
        None \<Rightarrow> ''''
      | Some n \<Rightarrow> (case html_Render D n of Inl _ \<Rightarrow> '''' | Inr s \<Rightarrow> TrimSpace s))"

definition renderContentNodeAsMarkdown :: "('u, 'n) ext_deps \<Rightarrow> 'n trafResult \<Rightarrow> string" where
  "renderContentNodeAsMarkdown D result =
     (let raw = renderContentNode D result
      in if raw = '''' then ''''
         else case ConvertString D raw of
                Inl _ \<Rightarrow> ''''
              | Inr md \<Rightarrow> if TrimSpace md = '''' then '''' else TrimSpace md)"

definition formatTrafilatura :: "('u, 'n) ext_deps \<Rightarrow> Extractor \<Rightarrow> 'n trafResult \<Rightarrow> string \<Rightarrow> string" where
  "formatTrafilatura D e result text =
     (case format e of
        FormatHTML \<Rightarrow> let s = renderContentNode D result in if s \<noteq> '''' then s else TrimSpace text
      | FormatMarkdown \<Rightarrow> let s = renderContentNodeAsMarkdown D result in if s \<noteq> '''' then s else TrimSpace text
      | FormatText \<Rightarrow> let s = renderContentNodeAsMarkdown D result in if s \<noteq> '''' then s else TrimSpace text)"

definition extractTrafilatura :: "('u, 'n) ext_deps \<Rightarrow> Extractor \<Rightarrow> string \<Rightarrow> 'u option \<Rightarrow> ExtractResult result" where
  "extractTrafilatura D e body pageURL =
     (case trafilatura D body pageURL of
        Inl err \<Rightarrow> Inl err
      | Inr r \<Rightarrow> Inr \<lparr>er_Title = tr_Title r, er_Content = ext_truncate e (formatTrafilatura D e r (tr_ContentText r)),
                     er_Format = format e\<rparr>)"

subsection \<open>Selectors\<close>

text \<open>\<open>\s\<close> of package \<open>regexp\<close>.\<close>

definition re_space :: "char \<Rightarrow> bool" where
  "re_space c \<longleftrightarrow> byte c \<in> {9, 10, 12, 13, 32}"

definition reWhitespace :: rx where
  "reWhitespace = RPlus (RCls re_space)"

definition cleanLines :: "string \<Rightarrow> string" where
  "cleanLines s = Join (filter (\<lambda>l. l \<noteq> '''') (map TrimSpace (Split s [CHR 0x0A]))) [CHR 0x0A]"

definition plain_text :: "string \<Rightarrow> string" where
  "plain_text s = cleanLines (rx_replace_all reWhitespace (TrimSpace s) '' '')"

definition removeSelectors :: string where
  "removeSelectors = Join [''script'', ''style'', ''noscript'', ''iframe'', ''svg'', ''header'', ''footer'',
     ''nav'', ''aside'', ''.advertisement'', ''.ad'', ''.sidebar'', ''.comments'', ''.cookie-banner'', ''.popup'',
     ''.modal'', ''.newsletter-signup'', ''.social-share'', ''.share-buttons'', ''[role=navigation]'',
     ''[role=banner]'', ''[role=contentinfo]'', ''[aria-hidden=true]'', ''[hidden]''] '', ''"

definition contentSelectors :: string where
  "contentSelectors = ''article, main, .content, .post-content, .article-content, #content''"

definition allowedAttrs :: "string \<Rightarrow> bool" where
  "allowedAttrs a \<longleftrightarrow> a \<in> {''href'', ''src'', ''alt'', ''title'', ''lang'', ''colspan'', ''rowspan''}"

text \<open>The title element, or the first \<open>og:title\<close> with a content.\<close>

definition goquery_title :: "'n dom \<Rightarrow> 'n \<Rightarrow> string" where
  "goquery_title Q doc =
     (let t = sel_text Q (First (Find Q ''title'' doc))
      in if t \<noteq> '''' then t
         else fold (\<lambda>n t. if t = '''' then (case Attr Q ''content'' n of Some c \<Rightarrow> c | None \<Rightarrow> '''') else t)
                (Find Q (''meta[property='' @ [CHR 0x22] @ ''og:title'' @ [CHR 0x22] @ '']'') doc) '''')"

definition extractGoquery :: "('u, 'n) ext_deps \<Rightarrow> Extractor \<Rightarrow> string \<Rightarrow> ExtractResult result" where
  "extractGoquery D e body =
     (case NewDocument (goquery D) body of
        Inl err \<Rightarrow> Inl err
      | Inr doc \<Rightarrow>
          let Q = goquery D;
              title = goquery_title Q doc;
              doc = Remove D removeSelectors doc;
              main = First (Find Q contentSelectors doc);
              sel = (if main = [] then Find Q ''body'' doc else main);
              content = (case format e of
                  FormatHTML \<Rightarrow>
                    (case sel of [] \<Rightarrow> '''' | n # _ \<Rightarrow>
                       (case Html D (KeepAttrs D allowedAttrs n) of Inl _ \<Rightarrow> '''' | Inr h \<Rightarrow> TrimSpace h))
                | FormatMarkdown \<Rightarrow>
                    (let rawHTML = (case sel of [] \<Rightarrow> '''' | n # _ \<Rightarrow> (case Html D n of Inl _ \<Rightarrow> '''' | Inr h \<Rightarrow> h))
                     in case ConvertString D rawHTML of Inl _ \<Rightarrow> '''' | Inr md \<Rightarrow> TrimSpace md)
                | FormatText \<Rightarrow> plain_text (sel_text Q sel))
          in Inr \<lparr>er_Title = title, er_Content = ext_truncate e content, er_Format = format e\<rparr>)"

subsection \<open>Regular expressions\<close>

definition not_gt :: rx where "not_gt = RCls (\<lambda>c. c \<noteq> CHR ''>'')"
definition any_byte :: rx where "any_byte = RCls (\<lambda>_. True)"
definition quote_mark :: rx where "quote_mark = RCls (\<lambda>c. c = CHR 0x22 \<or> c = CHR 0x27)"
definition not_quote :: rx where "not_quote = RCls (\<lambda>c. c \<noteq> CHR 0x22 \<and> c \<noteq> CHR 0x27)"

text \<open>\<open>(?is)<tag[^>]*>.*?</tag>\<close>\<close>

definition re_element :: "string \<Rightarrow> rx" where
  "re_element name = RSeq (RLitI (CHR ''<'' # name)) (RSeq (RStar not_gt) (RSeq (RLit ''>'')
     (RSeq (RLazy any_byte) (RLitI (''</'' @ name @ ''>'')))))"

definition reHTMLTags :: rx where
  "reHTMLTags = RSeq (RLit ''<'') (RSeq (RPlus not_gt) (RLit ''>''))"

definition boilerplateRegexes :: "rx list" where
  "boilerplateRegexes = map re_element
     [''script'', ''style'', ''noscript'', ''header'', ''footer'', ''nav'', ''aside'', ''iframe'']"

definition title_match :: "string \<Rightarrow> string option" where
  "title_match s = rx_submatch (RSeq (RLitI ''<title'') (RSeq (RStar not_gt) (RLit ''>'')))
     (RPlus (RCls (\<lambda>c. c \<noteq> CHR ''<''))) (RLitI ''</title>'') None s"

definition og_match :: "string \<Rightarrow> string option" where
  "og_match s = rx_submatch
     (RSeq (RLitI ''<meta'') (RSeq (RStar not_gt) (RSeq (RLitI ''property='') (RSeq quote_mark
       (RSeq (RLitI ''og:title'') (RSeq quote_mark (RSeq (RStar not_gt) (RSeq (RLitI ''content='') quote_mark))))))))
     (RPlus not_quote) quote_mark None s"

definition extractRegex :: "Extractor \<Rightarrow> string \<Rightarrow> ExtractResult result" where
  "extractRegex e body =
     (let title = (case title_match body of Some m \<Rightarrow> TrimSpace m | None \<Rightarrow> '''');
          title = (if title = '''' then (case og_match body of Some m \<Rightarrow> TrimSpace m | None \<Rightarrow> '''') else title);
          raw = fold (\<lambda>re s. rx_replace_all re s '''') boilerplateRegexes body;
          content = plain_text (rx_replace_all reHTMLTags raw '''')
      in Inr \<lparr>er_Title = title, er_Content = ext_truncate e content, er_Format = FormatText\<rparr>)"

subsection \<open>The chain\<close>

text \<open>A tier's result is taken when it has content, and enough of it if a model can be asked
  instead.\<close>

definition acceptable :: "Extractor \<Rightarrow> ExtractResult result \<Rightarrow> ExtractResult option" where
  "acceptable e r =
     (case r of
        Inl _ \<Rightarrow> None
      | Inr x \<Rightarrow> if er_Content x \<noteq> '''' \<and> (int (length (er_Content x)) \<ge> minExtractChars e \<or> llmFallback e = None)
                then Some x else None)"

definition Extract :: "('u, 'n) ext_deps \<Rightarrow> Extractor \<Rightarrow> string \<Rightarrow> 'u option \<Rightarrow> ExtractResult result" where
  "Extract D e body pageURL =
     (let body = (if length body > largeBodyThreshold then StripScriptStyle D body else body)
      in case acceptable e (extractTrafilatura D e body pageURL) of
           Some r \<Rightarrow> Inr r
         | None \<Rightarrow>
             (case acceptable e (extractGoquery D e body) of
                Some r \<Rightarrow> Inr r
              | None \<Rightarrow>
                  (case extractRegex e body of
                     Inl err \<Rightarrow> Inl err
                   | Inr result \<Rightarrow>
                       (case llmFallback e of
                          Some llm \<Rightarrow>
                            if int (length (er_Content result)) < minExtractChars e then
                              (case llm body of
                                 Inr c \<Rightarrow> if c \<noteq> '''' then Inr (result\<lparr>er_Content := ext_truncate e c\<rparr>) else Inr result
                               | Inl _ \<Rightarrow> Inr result)
                            else Inr result
                        | None \<Rightarrow> Inr result))))"

subsection \<open>Properties\<close>

lemma ext_truncate_length: "0 < maxContentLen e \<Longrightarrow> int (length (ext_truncate e s)) \<le> maxContentLen e + 3"
  by (auto simp: ext_truncate_def)

lemma ext_truncate_empty [simp]: "ext_truncate e s = '''' \<longleftrightarrow> s = ''''"
  by (auto simp: ext_truncate_def)

lemma extractTrafilatura_bounded:
  "0 < maxContentLen e \<Longrightarrow> extractTrafilatura D e body u = Inr r \<Longrightarrow> int (length (er_Content r)) \<le> maxContentLen e + 3"
  by (auto simp: extractTrafilatura_def ext_truncate_length split: sum.splits)

lemma extractGoquery_bounded:
  "0 < maxContentLen e \<Longrightarrow> extractGoquery D e body = Inr r \<Longrightarrow> int (length (er_Content r)) \<le> maxContentLen e + 3"
  by (auto simp: extractGoquery_def Let_def ext_truncate_length split: sum.splits)

lemma extractRegex_bounded:
  "0 < maxContentLen e \<Longrightarrow> extractRegex e body = Inr r \<Longrightarrow> int (length (er_Content r)) \<le> maxContentLen e + 3"
  by (auto simp: extractRegex_def Let_def ext_truncate_length)

lemma acceptable_Some: "acceptable e r = Some x \<longleftrightarrow> r = Inr x \<and> er_Content x \<noteq> ''''
    \<and> (minExtractChars e \<le> int (length (er_Content x)) \<or> llmFallback e = None)"
  by (auto simp: acceptable_def split: sum.splits if_splits)

lemma extractRegex_ok: "\<exists>r. extractRegex e body = Inr r"
  by (simp add: extractRegex_def Let_def)

text \<open>C38: Extraction never fails and respects the length limit, whichever tier answers and whatever
  the libraries and the model do.\<close>

theorem Extract_total:
  "\<exists>r. Extract D e body u = Inr r
    \<and> (if 0 < maxContentLen e then int (length (er_Content r)) \<le> maxContentLen e + 3 else True)"
proof -
  let ?ok = "\<lambda>r. if 0 < maxContentLen e then int (length (er_Content r)) \<le> maxContentLen e + 3 else True"
  let ?b = "if length body > largeBodyThreshold then StripScriptStyle D body else body"
  obtain r where r: "extractRegex e ?b = Inr r" using extractRegex_ok by blast
  have t1: "?ok x" if "acceptable e (extractTrafilatura D e ?b u) = Some x" for x
    using that extractTrafilatura_bounded by (auto simp: acceptable_Some)
  have t2: "?ok x" if "acceptable e (extractGoquery D e ?b) = Some x" for x
    using that extractGoquery_bounded by (auto simp: acceptable_Some)
  have t3: "?ok r" "?ok (r\<lparr>er_Content := ext_truncate e c\<rparr>)" for c
    using extractRegex_bounded[OF _ r] ext_truncate_length[of e c] by auto
  have "Extract D e body u \<in> Inr ` {x. ?ok x}"
    unfolding Extract_def Let_def r using t1 t2 t3 by (auto split: option.splits sum.splits)
  then show ?thesis by auto
qed

lemma Split_line: "CHR 0x0A \<notin> set s \<Longrightarrow> Split s [CHR 0x0A] = [s]"
  using IndexByte_None[of s "CHR 0x0A"] by (simp add: Split.simps IndexByte_def)

lemma collapsed_line: "CHR 0x0A \<notin> set (collapse re_space '' '' s)"
proof -
  have "re_space (CHR 0x0A)" by (simp add: re_space_def)
  then show ?thesis using collapse_set[of "CHR 0x0A" re_space "'' ''" s] by auto
qed

lemma plain_text_alt: "plain_text s = TrimSpace (collapse re_space '' '' (TrimSpace s))"
  by (simp add: plain_text_def cleanLines_def reWhitespace_def rx_replace_plus_cls Split_line collapsed_line)

text \<open>Text content is one line: the white space is collapsed before the lines are cleaned, so
  no line break is left for \<open>cleanLines\<close> to keep.\<close>

theorem plain_text_single_line: "CHR 0x0A \<in> - set (plain_text s)"
  using set_mono_sublist[OF TrimSpace_sublist[of "collapse re_space '' '' (TrimSpace s)"]] collapsed_line
  by (auto simp: plain_text_alt)

text \<open>The default format is named plain text, but for the first tier it is markdown.\<close>

theorem text_format_is_markdown:
  "map_sum id er_Content (extractTrafilatura D (e\<lparr>format := FormatText\<rparr>) body u)
   = map_sum id er_Content (extractTrafilatura D (e\<lparr>format := FormatMarkdown\<rparr>) body u)"
  by (simp add: extractTrafilatura_def formatTrafilatura_def ext_truncate_def split: sum.splits)

text \<open>The model is asked when it is configured and no tier has enough text, and then it gets
  the page as it was fetched: scripts and styles are stripped from large pages only.\<close>

lemma fallback_gets_page:
  assumes "length body \<le> largeBodyThreshold" "llmFallback e = Some llm"
    "acceptable e (extractTrafilatura D e body u) = None" "acceptable e (extractGoquery D e body) = None"
    "extractRegex e body = Inr r" "int (length (er_Content r)) < minExtractChars e" "llm body = Inr c" "c \<noteq> ''''"
  shows "Extract D e body u = Inr (r\<lparr>er_Content := ext_truncate e c\<rparr>)"
  using assms by (simp add: Extract_def)

subsection \<open>Stripping scripts and styles\<close>

fun skip_after :: "bool \<Rightarrow> token list \<Rightarrow> bool" where
  "skip_after skip [] = skip"
| "skip_after skip (t # ts) =
     (if tt t = StartTagToken \<and> tag t \<in> {''script'', ''style''} then skip_after True ts
      else if tt t = EndTagToken \<and> tag t \<in> {''script'', ''style''} then skip_after False ts
      else skip_after skip ts)"

lemma strip_tokens_append: "strip_tokens skip (xs @ ys) = strip_tokens skip xs @ strip_tokens (skip_after skip xs) ys"
  by (induction skip xs rule: strip_tokens.induct) auto

lemma strip_tokens_inside:
  "list_all (\<lambda>t. \<not> (tt t = EndTagToken \<and> tag t \<in> {''script'', ''style''})) ts
   \<Longrightarrow> strip_tokens True ts = '''' \<and> skip_after True ts"
  by (induction ts) auto

text \<open>The text of a script or style element is removed with its tags, and nothing else.\<close>

lemma strip_element:
  assumes "tt a = StartTagToken" "tag a \<in> {''script'', ''style''}" "tt b = EndTagToken" "tag b \<in> {''script'', ''style''}"
    "list_all (\<lambda>t. \<not> (tt t = EndTagToken \<and> tag t \<in> {''script'', ''style''})) ts" "\<not> skip_after False pre"
  shows "strip_tokens False (pre @ a # ts @ b # post) = strip_tokens False pre @ strip_tokens False post"
  using assms strip_tokens_inside[OF assms(5)] by (auto simp: strip_tokens_append)

end
