(* ===== verification/Pipeline.thy ===== *)
theory Pipeline
  imports Parallel_Fetch Llm_Summarize Extract
begin

text \<open>
  Package \<open>pipeline\<close>: sources are searched concurrently, the pages of their unique URLs
  fetched, extracted, chunked and filtered, and the model summarizes what is left.  The search
  fan-out is a step relation; its arrivals in order are the argument \<open>ds\<close> of the
  sequential functions.  The fetch function, the extractor, the chunker and the filter are the
  interfaces the pipeline is configured with; \<open>None\<close> of a chunker or filter is a panic.
\<close>

subsection \<open>Results and output\<close>

fun unique_from :: "string list \<Rightarrow> Result list \<Rightarrow> string list" where
  "unique_from seen [] = []"
| "unique_from seen (r # rs) =
     (if URL r = '''' then unique_from seen rs
      else if URL r \<in> set seen then unique_from seen rs
      else URL r # unique_from (URL r # seen) rs)"

definition uniqueURLs :: "Result list \<Rightarrow> string list" where
  "uniqueURLs results = unique_from [] results"

record SourceItem =
  si_Index :: int
  si_Title :: string
  si_URL :: string
  si_Snippet :: string

record SearchOutput =
  out_Query :: string
  out_Answer :: string
  out_Facts :: "FactItem list"
  out_Sources :: "SourceItem list"
  LLMSkipped :: bool
  DegradeReason :: string
  CoveredAspects :: "string list"
  IteratedQueries :: "string list"

record OutputOpts =
  MaxAnswerChars :: int
  MaxSources :: int
  IncludeSnippets :: bool

definition DefaultOutputOpts :: OutputOpts where
  "DefaultOutputOpts = \<lparr>MaxAnswerChars = 3000, MaxSources = 8, IncludeSnippets = False\<rparr>"

text \<open>\<open>FormatOutput\<close> takes the output by value, but the slice of sources is shared with
  the caller: the second component is the caller's slice after the call.\<close>

definition FormatOutput :: "SearchOutput \<Rightarrow> OutputOpts \<Rightarrow> SearchOutput \<times> SourceItem list" where
  "FormatOutput out opts =
     (let answer = (if MaxAnswerChars opts > 0 \<and> int (length (out_Answer out)) > MaxAnswerChars opts
            then take (nat (MaxAnswerChars opts)) (out_Answer out) @ ''...'' else out_Answer out);
          shared = (if \<not> IncludeSnippets opts then map (\<lambda>s. s\<lparr>si_Snippet := ''''\<rparr>) (out_Sources out)
            else out_Sources out);
          kept = (if MaxSources opts > 0 \<and> int (length shared) > MaxSources opts
            then take (nat (MaxSources opts)) shared else shared)
      in (out\<lparr>out_Answer := answer, out_Sources := kept\<rparr>, shared))"

definition source_items :: "Result list \<Rightarrow> SourceItem list" where
  "source_items results =
     map (\<lambda>(i, r). \<lparr>si_Index = int i + 1, si_Title = Title r, si_URL = URL r, si_Snippet = Content r\<rparr>)
       (List.enumerate 0 results)"

definition BuildSearchOutput :: "string \<Rightarrow> StructuredOutput \<Rightarrow> Result list \<Rightarrow> SearchOutput" where
  "BuildSearchOutput query llmOut results =
     \<lparr>out_Query = query, out_Answer = Answer llmOut, out_Facts = Facts llmOut, out_Sources = source_items results,
      LLMSkipped = False, DegradeReason = '''', CoveredAspects = [], IteratedQueries = []\<rparr>"

definition empty_output :: "string \<Rightarrow> SearchOutput" where
  "empty_output query = \<lparr>out_Query = query, out_Answer = '''', out_Facts = [], out_Sources = [],
     LLMSkipped = False, DegradeReason = '''', CoveredAspects = [], IteratedQueries = []\<rparr>"

subsection \<open>Configuration\<close>

record 'u Pipeline =
  p_sources :: "(string \<times> Result list result) list"
  fetchFn :: "(string \<Rightarrow> string result) option"
  extractor :: "(string \<Rightarrow> 'u option \<Rightarrow> ExtractResult result) option"
  chunker :: "(string \<Rightarrow> string list option) option"
  chunk_filter :: "(string list \<Rightarrow> string \<Rightarrow> string list option) option"
  p_llm :: "Client option"
  p_metrics :: bool
  maxConc :: int
  p_maxTokens :: int
  charsPerToken :: real
  perSourceTimeout :: duration
  earlyReturnAt :: int

type_synonym 'u pl_option = "'u Pipeline \<Rightarrow> 'u Pipeline"

definition WithSources :: "(string \<times> Result list result) list \<Rightarrow> 'u pl_option" where
  "WithSources srcs p = p\<lparr>p_sources := p_sources p @ srcs\<rparr>"
definition WithFetchFunc :: "(string \<Rightarrow> string result) option \<Rightarrow> 'u pl_option" where
  "WithFetchFunc fn p = p\<lparr>fetchFn := fn\<rparr>"
definition WithExtractor :: "(string \<Rightarrow> 'u option \<Rightarrow> ExtractResult result) option \<Rightarrow> 'u pl_option" where
  "WithExtractor s p = p\<lparr>extractor := s\<rparr>"
definition WithChunker :: "(string \<Rightarrow> string list option) option \<Rightarrow> 'u pl_option" where
  "WithChunker c p = p\<lparr>chunker := c\<rparr>"
definition WithFilter :: "(string list \<Rightarrow> string \<Rightarrow> string list option) option \<Rightarrow> 'u pl_option" where
  "WithFilter f p = p\<lparr>chunk_filter := f\<rparr>"
definition WithLLMClient :: "Client option \<Rightarrow> 'u pl_option" where "WithLLMClient c p = p\<lparr>p_llm := c\<rparr>"
definition WithPipelineConcurrency :: "int \<Rightarrow> 'u pl_option" where "WithPipelineConcurrency n p = p\<lparr>maxConc := n\<rparr>"
definition WithMaxTokenBudget :: "int \<Rightarrow> 'u pl_option" where "WithMaxTokenBudget n p = p\<lparr>p_maxTokens := n\<rparr>"
definition WithCharsPerToken :: "real \<Rightarrow> 'u pl_option" where "WithCharsPerToken f p = p\<lparr>charsPerToken := f\<rparr>"
definition pl_WithMetrics :: "bool \<Rightarrow> 'u pl_option" where "pl_WithMetrics m p = p\<lparr>p_metrics := m\<rparr>"
definition WithPerSourceTimeout :: "duration \<Rightarrow> 'u pl_option" where
  "WithPerSourceTimeout d p = p\<lparr>perSourceTimeout := d\<rparr>"
definition WithEarlyReturnAt :: "int \<Rightarrow> 'u pl_option" where "WithEarlyReturnAt n p = p\<lparr>earlyReturnAt := n\<rparr>"

definition DefaultCharsPerToken :: real where "DefaultCharsPerToken = 7 / 2"

definition NewPipeline :: "'u pl_option list \<Rightarrow> 'u Pipeline" where
  "NewPipeline opts = fold (\<lambda>opt p. opt p) opts
     \<lparr>p_sources = [], fetchFn = None, extractor = None, chunker = None, chunk_filter = None, p_llm = None,
      p_metrics = False, maxConc = 10, p_maxTokens = 4096, charsPerToken = DefaultCharsPerToken,
      perSourceTimeout = 0, earlyReturnAt = 0\<rparr>"

subsection \<open>Searching the sources\<close>

record pipelineSourceResult =
  psr_name :: string
  psr_results :: "Result list"
  psr_err :: "go_error option"
  psr_dur :: duration

record pcoll =
  pc_all :: "Result list"
  pc_cancelled :: bool
  pc_events :: "metric list"

definition recordPipelineSourceResult :: "bool \<Rightarrow> string \<Rightarrow> string \<Rightarrow> metric list" where
  "recordPipelineSourceResult m source outcome =
     (if \<not> m then [] else [Counter ''source_result_total'' [(''source'', source), (''outcome'', outcome)]])"

text \<open>One iteration of the receiving loop.\<close>

definition pcollect_step :: "bool \<Rightarrow> int \<Rightarrow> pipelineSourceResult \<Rightarrow> pcoll \<Rightarrow> pcoll" where
  "pcollect_step m earlyAt r c =
     (let ev = pc_events c @ (if m then [ObserveSeconds ''search_source_duration_seconds'' [(''source'', psr_name r)] (psr_dur r)] else [])
      in case psr_err r of
           Some _ \<Rightarrow> c\<lparr>pc_events := ev @ recordPipelineSourceResult m (psr_name r) ''fail''\<rparr>
         | None \<Rightarrow>
             let all = pc_all c @ psr_results r
             in c\<lparr>pc_events := ev @ recordPipelineSourceResult m (psr_name r) ''ok'', pc_all := all,
                  pc_cancelled := (pc_cancelled c \<or> int (length all) \<ge> earlyAt)\<rparr>)"

definition collectPipelineResults :: "bool \<Rightarrow> int \<Rightarrow> pipelineSourceResult list \<Rightarrow> pcoll" where
  "collectPipelineResults m earlyAt ds =
     fold (pcollect_step m earlyAt) ds \<lparr>pc_all = [], pc_cancelled = False, pc_events = []\<rparr>"

definition early_at :: "'u Pipeline \<Rightarrow> int" where
  "early_at p = (if earlyReturnAt p = 0 then 10 else earlyReturnAt p)"

definition per_source :: "'u Pipeline \<Rightarrow> duration" where
  "per_source p = (if perSourceTimeout p = 0 then 6000000000 else perSourceTimeout p)"

definition searchSources :: "'u Pipeline \<Rightarrow> pipelineSourceResult list \<Rightarrow> Result list \<times> metric list" where
  "searchSources p ds =
     (if length (p_sources p) = 0 then ([], [])
      else let c = collectPipelineResults (p_metrics p) (early_at p) ds in (pc_all c, pc_events c))"

text \<open>What a source goroutine may send: the outcome of its search, or the error of its context,
  which is over after the per-source timeout, or once enough results are collected or the
  caller's context ends.\<close>

definition delivery :: "bool \<Rightarrow> string \<times> Result list result \<Rightarrow> bool \<Rightarrow> pipelineSourceResult \<Rightarrow> bool" where
  "delivery parentDone src cancelled r \<longleftrightarrow> psr_name r = fst src
     \<and> (case snd src of
          Inr res \<Rightarrow> psr_err r = None \<and> psr_results r = res
        | Inl e \<Rightarrow> psr_err r = Some e)
     \<or> psr_name r = fst src \<and> psr_results r = [] \<and> psr_err r = Some DeadlineExceeded
     \<or> psr_name r = fst src \<and> psr_results r = [] \<and> psr_err r = Some Canceled \<and> (cancelled \<or> parentDone)"

record psearch =
  ps_pending :: "(string \<times> Result list result) list"
  ps_coll :: pcoll

inductive psearch_step :: "bool \<Rightarrow> bool \<Rightarrow> int \<Rightarrow> psearch \<Rightarrow> psearch \<Rightarrow> bool" for parentDone m earlyAt where
  deliver: "ps_pending s = xs @ src # ys \<Longrightarrow> delivery parentDone src (pc_cancelled (ps_coll s)) r \<Longrightarrow>
    psearch_step parentDone m earlyAt s
      (s\<lparr>ps_pending := xs @ ys, ps_coll := pcollect_step m earlyAt r (ps_coll s)\<rparr>)"

inductive_cases psearch_stepE: "psearch_step parentDone m earlyAt s t"

definition psearch_init :: "(string \<times> Result list result) list \<Rightarrow> psearch" where
  "psearch_init srcs = \<lparr>ps_pending = srcs, ps_coll = collectPipelineResults False 0 []\<rparr>"

subsection \<open>Fetching and running\<close>

text \<open>\<open>buildFetchFn\<close>: fetch, extract, chunk, filter and join; \<open>url.Parse\<close> is a
  parameter whose error is ignored.\<close>

definition buildFetchFn ::
  "(string \<Rightarrow> 'u option) \<Rightarrow> (string \<Rightarrow> string result) \<Rightarrow> (string \<Rightarrow> 'u option \<Rightarrow> ExtractResult result) \<Rightarrow> 'u Pipeline
   \<Rightarrow> string \<Rightarrow> string \<Rightarrow> fetch_outcome" where
  "buildFetchFn url_Parse fetch ext p query rawURL =
     (case fetch rawURL of
        Inl e \<Rightarrow> Returned '''' (Some e)
      | Inr body \<Rightarrow>
          (case ext body (url_Parse rawURL) of
             Inl e \<Rightarrow> Returned '''' (Some e)
           | Inr result \<Rightarrow>
               (case chunker p of
                  None \<Rightarrow> Returned (er_Content result) None
                | Some c \<Rightarrow>
                    (case c (er_Content result) of
                       None \<Rightarrow> Panicked ''slice bounds out of range''
                     | Some chunks \<Rightarrow>
                         if length chunks = 0 then Returned '''' None
                         else (case (case chunk_filter p of None \<Rightarrow> Some chunks | Some f \<Rightarrow> f chunks query) of
                                 None \<Rightarrow> Panicked ''slice bounds out of range''
                               | Some cs \<Rightarrow> Returned (Join cs (LF @ LF)) None)))))"

definition add_content :: "FetchResult \<Rightarrow> (string, string) gomap \<Rightarrow> (string, string) gomap" where
  "add_content r m = (if fr_Err r = None \<and> fr_Content r \<noteq> '''' then AList.update (fr_URL r) (fr_Content r) m else m)"

definition page_contents ::
  "(string \<Rightarrow> 'u option) \<Rightarrow> 'u Pipeline \<Rightarrow> string \<Rightarrow> string list \<Rightarrow> (string, string) gomap" where
  "page_contents url_Parse p query urls =
     (case (fetchFn p, extractor p) of
        (Some fetch, Some ext) \<Rightarrow>
          if length urls > 0 then fold add_content (ParallelFetch urls (buildFetchFn url_Parse fetch ext p query)) [] else []
      | _ \<Rightarrow> [])"

definition Run ::
  "'w llm_deps \<Rightarrow> prompts \<Rightarrow> (string \<Rightarrow> 'u option) \<Rightarrow> 'u Pipeline \<Rightarrow> string \<Rightarrow> pipelineSourceResult list \<Rightarrow> 'w
   \<Rightarrow> SearchOutput result \<times> 'w \<times> metric list" where
  "Run D P url_Parse p query ds w =
     (let (srcResults, ev) = searchSources p ds
      in if length srcResults = 0 then (Inr (empty_output query), w, ev)
         else let contents = page_contents url_Parse p query (uniqueURLs srcResults)
              in case p_llm p of
                   Some c \<Rightarrow>
                     let (r, w, ms) = Summarize D P c query (p_maxTokens p) (charsPerToken p) srcResults contents w
                     in (case r of Inl e \<Rightarrow> Inl e | Inr out \<Rightarrow> Inr (BuildSearchOutput query out srcResults), w, ev @ ms)
                 | None \<Rightarrow> (Inr (BuildSearchOutput query \<lparr>Answer = '''', Facts = []\<rparr> srcResults), w, ev))"

subsection \<open>The search fan-out\<close>

definition delivered_by :: "bool \<Rightarrow> (string \<times> Result list result) list \<Rightarrow> pipelineSourceResult list \<Rightarrow> bool" where
  "delivered_by parentDone srcs ds \<longleftrightarrow>
     (\<exists>arrived. mset arrived = mset srcs \<and> list_all2 (\<lambda>src d. \<exists>c. delivery parentDone src c d) arrived ds)"

definition psearch_inv :: "bool \<Rightarrow> bool \<Rightarrow> int \<Rightarrow> (string \<times> Result list result) list \<Rightarrow> psearch \<Rightarrow> bool" where
  "psearch_inv parentDone m earlyAt srcs s \<longleftrightarrow>
     (\<exists>arrived ds. ps_coll s = collectPipelineResults m earlyAt ds \<and> mset arrived + mset (ps_pending s) = mset srcs
        \<and> list_all2 (\<lambda>src d. \<exists>c. delivery parentDone src c d) arrived ds)"

lemma pcollect_snoc: "collectPipelineResults m earlyAt (ds @ [r]) = pcollect_step m earlyAt r (collectPipelineResults m earlyAt ds)"
  by (simp add: collectPipelineResults_def)

lemma psearch_inv_init: "psearch_inv parentDone m earlyAt srcs (psearch_init srcs)"
  unfolding psearch_inv_def
  by (intro exI[of _ "[]"]) (simp add: psearch_init_def collectPipelineResults_def)

lemma psearch_inv_step:
  assumes "psearch_inv parentDone m earlyAt srcs s" "psearch_step parentDone m earlyAt s t"
  shows "psearch_inv parentDone m earlyAt srcs t"
  using assms(2)
proof (cases rule: psearch_step.cases)
  case (deliver xs src ys r)
  from assms(1) obtain arrived ds where I: "ps_coll s = collectPipelineResults m earlyAt ds"
    "mset arrived + mset (ps_pending s) = mset srcs" "list_all2 (\<lambda>src d. \<exists>c. delivery parentDone src c d) arrived ds"
    by (auto simp: psearch_inv_def)
  then have "list_all2 (\<lambda>src d. \<exists>c. delivery parentDone src c d) (arrived @ [src]) (ds @ [r])"
    using deliver(3) by (auto intro: list_all2_appendI)
  with I deliver show ?thesis unfolding psearch_inv_def
    by (intro exI[of _ "arrived @ [src]"] exI[of _ "ds @ [r]"]) (simp add: pcollect_snoc)
qed

lemma timeout_delivery: "delivery parentDone src c \<lparr>psr_name = fst src, psr_results = [], psr_err = Some DeadlineExceeded, psr_dur = 0\<rparr>"
  by (simp add: delivery_def)

interpretation psearch: work_system "psearch_step parentDone m earlyAt" "psearch_inv parentDone m earlyAt srcs"
    "\<lambda>s. ps_pending s = []" "\<lambda>s. length (ps_pending s)"
  for parentDone m earlyAt srcs
proof
  fix s t
  assume "psearch_inv parentDone m earlyAt srcs s" "psearch_step parentDone m earlyAt s t"
  then show "psearch_inv parentDone m earlyAt srcs t" by (rule psearch_inv_step)
next
  fix s t
  assume "psearch_step parentDone m earlyAt s t"
  then show "Suc (length (ps_pending t)) = length (ps_pending s)" by (auto elim: psearch_stepE)
next
  fix s :: psearch
  show "(ps_pending s = []) = (length (ps_pending s) = 0)" by simp
  assume "ps_pending s \<noteq> []"
  then obtain src ys where "ps_pending s = [] @ src # ys" by (cases "ps_pending s") auto
  from psearch_step.deliver[OF this timeout_delivery] show "\<exists>t. psearch_step parentDone m earlyAt s t" by blast
qed

text \<open>The results of the collector, and its counters, from the arrivals.\<close>

lemma pcollect_all:
  "pc_all (collectPipelineResults m earlyAt ds) = concat (map psr_results (filter (\<lambda>d. psr_err d = None) ds))"
proof (induction ds rule: rev_induct)
  case (snoc r ds)
  then show ?case by (cases "psr_err r") (simp_all add: pcollect_snoc pcollect_step_def Let_def)
qed (simp add: collectPipelineResults_def)

definition outcome_counter :: "pipelineSourceResult \<Rightarrow> metric" where
  "outcome_counter d = Counter ''source_result_total''
     [(''source'', psr_name d), (''outcome'', if psr_err d = None then ''ok'' else ''fail'')]"

lemma pcollect_counters:
  "filter (\<lambda>e. case e of Counter _ _ \<Rightarrow> True | _ \<Rightarrow> False) (pc_events (collectPipelineResults m earlyAt ds))
   = (if m then map outcome_counter ds else [])"
proof (induction ds rule: rev_induct)
  case (snoc r ds)
  then show ?case
    by (cases "psr_err r"; cases m)
      (simp_all add: pcollect_snoc pcollect_step_def recordPipelineSourceResult_def outcome_counter_def Let_def)
qed (simp add: collectPipelineResults_def)

text \<open>However the sources interleave, time out or are cancelled, the fan-out ends after one
  arrival per source; the results are those of the arrivals without an error, in order, and each
  source is counted once as ok or fail.\<close>

theorem pipeline_search_complete:
  assumes "(psearch_step parentDone m earlyAt ^^ n) (psearch_init srcs) s"
  shows "(ps_pending s = [] \<longleftrightarrow> n = length srcs) \<and> (ps_pending s = [] \<longleftrightarrow> \<not> (\<exists>t. psearch_step parentDone m earlyAt s t))
    \<and> (if ps_pending s = []
       then \<exists>ds. delivered_by parentDone srcs ds
         \<and> pc_all (ps_coll s) = concat (map psr_results (filter (\<lambda>d. psr_err d = None) ds))
         \<and> filter (\<lambda>e. case e of Counter _ _ \<Rightarrow> True | _ \<Rightarrow> False) (pc_events (ps_coll s))
             = (if m then map outcome_counter ds else [])
       else True)"
proof -
  have I: "psearch_inv parentDone m earlyAt srcs s"
    by (rule psearch.reach_inv[OF relpowp_imp_rtranclp[OF assms] psearch_inv_init])
  have "\<exists>ds. delivered_by parentDone srcs ds
       \<and> pc_all (ps_coll s) = concat (map psr_results (filter (\<lambda>d. psr_err d = None) ds))
       \<and> filter (\<lambda>e. case e of Counter _ _ \<Rightarrow> True | _ \<Rightarrow> False) (pc_events (ps_coll s))
           = (if m then map outcome_counter ds else [])" if "ps_pending s = []"
  proof -
    from I that obtain arrived ds where ds: "ps_coll s = collectPipelineResults m earlyAt ds" "mset arrived = mset srcs"
      "list_all2 (\<lambda>src d. \<exists>c. delivery parentDone src c d) arrived ds" by (auto simp: psearch_inv_def)
    then show ?thesis using pcollect_all[of m earlyAt ds] pcollect_counters[of m earlyAt ds]
      unfolding delivered_by_def by auto
  qed
  then show ?thesis
    using psearch.final_after[OF assms psearch_inv_init] psearch.stuck_iff_final[OF I] by (simp add: psearch_init_def)
qed

theorem pipeline_search_complete_witness:
  "\<exists>s :: psearch. ps_pending s = [] \<and> (\<exists>ds. delivered_by False [(''a'', Inr []), (''b'', Inl ErrTransient)] ds
     \<and> pc_all (ps_coll s) = concat (map psr_results (filter (\<lambda>d. psr_err d = None) ds)))"
proof -
  obtain s where s: "(psearch_step False True 10 ^^ 2) (psearch_init [(''a'', Inr []), (''b'', Inl ErrTransient)]) s"
    "ps_pending s = []"
    using psearch.completes[where parentDone = False and m = True and earlyAt = 10
        and srcs = "[(''a'', Inr []), (''b'', Inl ErrTransient)]", OF psearch_inv_init]
    by (auto simp: psearch_init_def numeral_2_eq_2)
  from pipeline_search_complete[OF s(1)] s(2) show ?thesis by (intro exI[of _ s]) auto
qed

subsection \<open>URLs and pages\<close>

lemma unique_from_spec:
  "distinct (unique_from seen rs) \<and> set (unique_from seen rs) = URL ` set rs - {''''} - set seen"
  by (induction seen rs rule: unique_from.induct) auto

text \<open>Each non-empty URL of the results is fetched exactly once.\<close>

theorem uniqueURLs_spec:
  "distinct (map fr_URL (ParallelFetch (uniqueURLs results) f))
   \<and> set (map fr_URL (ParallelFetch (uniqueURLs results) f)) = URL ` set results - {''''}"
proof -
  have "map fr_URL (ParallelFetch urls f) = urls" for urls
    by (auto simp: ParallelFetch_def fetch_result_def comp_def map_idI split: fetch_outcome.splits)
  then show ?thesis using unique_from_spec[of "[]" results] by (simp add: uniqueURLs_def)
qed

lemma fetch_result_URL [simp]: "fr_URL (fetch_result u oc) = u"
  by (simp add: fetch_result_def split: fetch_outcome.splits)

lemma fold_add_content_other: "u \<notin> fr_URL ` set rs \<Longrightarrow> map_of (fold add_content rs m) u = map_of m u"
  by (induction rs arbitrary: m) (auto simp: add_content_def update_conv)

lemma fold_add_content:
  "distinct (map fr_URL rs) \<Longrightarrow> r \<in> set rs \<Longrightarrow> map_of m (fr_URL r) = None \<Longrightarrow>
   map_of (fold add_content rs m) (fr_URL r) = (if fr_Err r = None \<and> fr_Content r \<noteq> '''' then Some (fr_Content r) else None)"
proof (induction rs arbitrary: m)
  case (Cons x rs)
  show ?case
  proof (cases "x = r")
    case True
    with Cons.prems have "fr_URL r \<notin> fr_URL ` set rs" by auto
    then have "map_of (fold add_content rs (add_content r m)) (fr_URL r) = map_of (add_content r m) (fr_URL r)"
      by (rule fold_add_content_other)
    moreover have "map_of (add_content r m) (fr_URL r)
        = (if fr_Err r = None \<and> fr_Content r \<noteq> '''' then Some (fr_Content r) else None)"
      using Cons.prems(3) by (simp add: add_content_def update_conv)
    ultimately show ?thesis using True by simp
  next
    case False
    then have ne: "fr_URL x \<noteq> fr_URL r" using Cons.prems by auto
    then have "map_of (add_content x m) (fr_URL r) = None" using Cons.prems(3) by (simp add: add_content_def update_conv)
    with Cons False show ?thesis by simp
  qed
qed simp

text \<open>What is kept of a page: the text its fetch returned without an error, if not empty.\<close>

lemma page_contents_lookup:
  assumes "distinct urls" "u \<in> set urls" "fetchFn p = Some fetch" "extractor p = Some ext"
  shows "map_of (page_contents up p query urls) u =
    (case buildFetchFn up fetch ext p query u of
       Returned c None \<Rightarrow> if c \<noteq> '''' then Some c else None
     | _ \<Rightarrow> None)"
proof -
  let ?oc = "buildFetchFn up fetch ext p query"
  have "distinct (map fr_URL (ParallelFetch urls ?oc))" using assms(1) by (simp add: ParallelFetch_def comp_def)
  moreover have "fetch_result u (?oc u) \<in> set (ParallelFetch urls ?oc)" using assms(2) by (simp add: ParallelFetch_def)
  ultimately have "map_of (fold add_content (ParallelFetch urls ?oc) []) u =
      (if fr_Err (fetch_result u (?oc u)) = None \<and> fr_Content (fetch_result u (?oc u)) \<noteq> ''''
       then Some (fr_Content (fetch_result u (?oc u))) else None)"
    using fold_add_content[of "ParallelFetch urls ?oc" "fetch_result u (?oc u)" "[]"] by simp
  moreover have "urls \<noteq> []" using assms(2) by auto
  ultimately show ?thesis using assms(3,4)
    by (auto simp: page_contents_def fetch_result_def split: fetch_outcome.splits option.splits)
qed

subsection \<open>The whole pipeline\<close>

lemma source_items_nth:
  "i < length results \<Longrightarrow> source_items results ! i =
     \<lparr>si_Index = int i + 1, si_Title = Title (results ! i), si_URL = URL (results ! i), si_Snippet = Content (results ! i)\<rparr>"
  by (simp add: source_items_def nth_enumerate_eq)

lemma source_items_length [simp]: "length (source_items results) = length results"
  by (simp add: source_items_def)

lemma Summarize_checked: "checked D results contents (fst (Summarize D P c query m cpt results contents w))"
  by (simp add: Summarize_def SummarizeWithInstruction_def with_sources_checked finish_checked Let_def)


text \<open>C2: Every fact the pipeline reports as verified is quoted from the source it cites: the
  source listed under a cited number, whose page text or snippet contains the quote.\<close>

theorem Run_verified_facts:
  assumes "Run D P up p query ds w = (Inr out, w', ms)" "f \<in> set (out_Facts out)" "Status f = ''verified''"
  shows "\<exists>i < length (out_Sources out). int i + 1 \<in> set (Sources f) \<and> si_Index (out_Sources out ! i) = int i + 1
    \<and> sublist (normalizeFactText (NFC D) (tables D) (Quote f))
        (normalizeFactText (NFC D) (tables D)
          (case map_of (page_contents up p query (uniqueURLs (fst (searchSources p ds)))) (si_URL (out_Sources out ! i)) of
             None \<Rightarrow> si_Snippet (out_Sources out ! i)
           | Some page \<Rightarrow> if page = '''' then si_Snippet (out_Sources out ! i) else page))"
proof -
  let ?rs = "fst (searchSources p ds)"
  let ?pages = "page_contents up p query (uniqueURLs ?rs)"
  obtain c where c: "p_llm p = Some c" and ne: "?rs \<noteq> []"
    using assms(1,2) by (cases "p_llm p"; cases "?rs = []") (auto simp: Run_def Let_def split_def BuildSearchOutput_def empty_output_def)
  obtain so where so: "fst (Summarize D P c query (p_maxTokens p) (charsPerToken p) ?rs ?pages w) = Inr so"
    and out: "out = BuildSearchOutput query so ?rs"
    using assms(1) c ne by (auto simp: Run_def Let_def split_def split: sum.splits)
  from Summarize_checked[of D ?rs ?pages P c query "p_maxTokens p" "charsPerToken p" w] so
  have "marked D ?rs ?pages f" using assms(2) out by (auto simp: checked_def BuildSearchOutput_def list_all_iff)
  with assms(3) have "list_all snd (fact_checks (NFC D) (tables D) ?rs ?pages f)"
    by (auto simp: marked_def split: if_splits)
  then obtain i where i: "i < length ?rs" "int i + 1 \<in> set (Sources f)"
    "sublist (normalizeFactText (NFC D) (tables D) (Quote f))
       (normalizeFactText (NFC D) (tables D) (source_text ?pages (?rs ! i)))"
    by (auto simp: fact_checks_def Let_def)
  have t: "source_text ?pages (?rs ! i) = (case map_of ?pages (URL (?rs ! i)) of
      None \<Rightarrow> Content (?rs ! i) | Some page \<Rightarrow> if page = '''' then Content (?rs ! i) else page)"
    by (simp add: source_text_def content_of_def split: option.splits)
  have o: "out_Sources out = source_items ?rs" using out by (simp add: BuildSearchOutput_def)
  show ?thesis unfolding o
    by (rule exI[of _ i], unfold source_items_nth[OF i(1)] SourceItem.select_convs) (use i(1,2) i(3)[unfolded t] in simp)
qed

definition demo_deps :: "unit llm_deps" where
  "demo_deps = silent_deps\<lparr>unmarshal_output := \<lambda>_. Some \<lparr>Answer = ''heavy'', Facts = [weight_fact]\<rparr>\<rparr>"

definition demo_prompts :: prompts where
  "demo_prompts = \<lparr>RewriteQueryPrompt = (\<lambda>q. q), PromptBase = (\<lambda>d i q s. s), PromptDeep = (\<lambda>d i q s. s),
     ExpandWebQueryPrompt = (\<lambda>n q m. q), ExpandQueryPrompt = (\<lambda>n q m. q), type_instruction = (\<lambda>_. '''')\<rparr>"

definition demo_client :: Client where
  "demo_client = \<lparr>kit = nil_kit, cl_temperature = 0, cl_maxTokens = 10, cl_metrics = False, disabled = False, primaryModel = ''''\<rparr>"

definition demo_pipeline :: "unit Pipeline" where
  "demo_pipeline = NewPipeline [WithSources [(''s'', Inr [weight_source])], WithLLMClient (Some demo_client)]"

definition demo_arrivals :: "pipelineSourceResult list" where
  "demo_arrivals = [\<lparr>psr_name = ''s'', psr_results = [weight_source], psr_err = None, psr_dur = 1\<rparr>]"

definition demo_output :: SearchOutput where
  "demo_output = BuildSearchOutput ''mass'' \<lparr>Answer = ''heavy'', Facts = [weight_fact\<lparr>Status := ''verified'', HeldReason := ''''\<rparr>]\<rparr> [weight_source]"

lemma demo_run: "Run demo_deps demo_prompts (\<lambda>_. None) demo_pipeline ''mass'' demo_arrivals () = (Inr demo_output, (), [])"
proof -
  have s: "searchSources demo_pipeline demo_arrivals = ([weight_source], [])"
    by (simp add: searchSources_def demo_pipeline_def NewPipeline_def WithSources_def WithLLMClient_def demo_arrivals_def
        collectPipelineResults_def pcollect_step_def recordPipelineSourceResult_def early_at_def)
  have p: "page_contents (\<lambda>_. None) demo_pipeline q urls = []" for q urls
    by (simp add: page_contents_def demo_pipeline_def NewPipeline_def WithSources_def WithLLMClient_def)
  have l: "p_llm demo_pipeline = Some demo_client" "p_maxTokens demo_pipeline = 4096"
    by (simp_all add: demo_pipeline_def NewPipeline_def WithSources_def WithLLMClient_def)
  have v: "fst (parseStructuredOutput (unmarshal_output demo_deps) (NFC demo_deps) (tables demo_deps) raw [weight_source] [])
      = \<lparr>Answer = ''heavy'', Facts = [weight_fact\<lparr>Status := ''verified'', HeldReason := ''''\<rparr>]\<rparr>" for raw
    by (simp add: parseStructuredOutput_def demo_deps_def silent_deps_def weight_verified split_def)
  have k: "kit_Complete demo_deps kc sys prompt opts w = (Inr prompt, w)" for kc sys prompt opts w
    by (simp add: demo_deps_def silent_deps_def)
  show ?thesis unfolding Run_def s p l
    by (simp add: s p l Summarize_def SummarizeWithInstruction_def with_sources_def BuildSourcesText_def Complete_def
        CompleteParams_def TrackCall_def demo_client_def demo_output_def finish_def v k strip_result_def split_def Let_def)
qed

theorem Run_verified_facts_witness:
  "\<exists>i < length (out_Sources demo_output). int i + 1 \<in> set (Sources weight_fact) \<and> si_Index (out_Sources demo_output ! i) = int i + 1"
  using Run_verified_facts[OF demo_run, of "weight_fact\<lparr>Status := ''verified'', HeldReason := ''''\<rparr>"]
  by (auto simp: demo_output_def BuildSearchOutput_def)

subsection \<open>Output limits\<close>

text \<open>The formatted output respects its limits and keeps the query, the facts and the degrade
  flags.\<close>

theorem FormatOutput_limits:
  "case FormatOutput out opts of (r, shared) \<Rightarrow>
     (if 0 < MaxAnswerChars opts then int (length (out_Answer r)) \<le> MaxAnswerChars opts + 3 else out_Answer r = out_Answer out)
     \<and> (if 0 < MaxSources opts then int (length (out_Sources r)) \<le> MaxSources opts else length (out_Sources r) = length (out_Sources out))
     \<and> map si_Index (out_Sources r) = take (length (out_Sources r)) (map si_Index (out_Sources out))
     \<and> (IncludeSnippets opts \<or> list_all (\<lambda>s. si_Snippet s = '''') (out_Sources r))
     \<and> out_Query r = out_Query out \<and> out_Facts r = out_Facts out
     \<and> LLMSkipped r = LLMSkipped out \<and> DegradeReason r = DegradeReason out"
proof -
  have m: "map si_Index (map (\<lambda>s. s\<lparr>si_Snippet := ''''\<rparr>) xs) = map si_Index xs" for xs :: "SourceItem list"
    by simp
  show ?thesis by (auto simp: FormatOutput_def Let_def list_all_iff take_map comp_def dest: in_set_takeD)
qed

text \<open>Formatting without snippets also erases them in the output the caller still holds, since
  the slice of sources is shared.\<close>

theorem FormatOutput_mutates_caller:
  "snd (FormatOutput (BuildSearchOutput q so results) DefaultOutputOpts)
   = map (\<lambda>s. s\<lparr>si_Snippet := ''''\<rparr>) (source_items results)"
  by (simp add: FormatOutput_def DefaultOutputOpts_def BuildSearchOutput_def Let_def)

subsection \<open>With the components of the engine\<close>

lemma Chunk_total: "0 \<le> sz \<Longrightarrow> Chunk (NewCharacterChunker sz ov) s \<noteq> None"
  by (auto simp: Chunk_def NewCharacterChunker_def Let_def)

lemma BM25_Filter_total: "0 \<le> topK f \<Longrightarrow> BM25_Filter U srt f chunks query \<noteq> None"
  by (auto simp: BM25_Filter_def Let_def)

text \<open>With the extractor, the chunker and the filter of the engine no page makes its goroutine
  panic, whatever is fetched.\<close>

lemma pages_never_panic:
  assumes "0 \<le> sz" "0 \<le> topK f" "chunker p = Some (Chunk (NewCharacterChunker sz ov))"
    "chunk_filter p = Some (BM25_Filter U srt f)"
  shows "buildFetchFn up fetch (Extract D e) p query url \<noteq> Panicked v"
  using assms(3,4)
  by (auto simp: buildFetchFn_def split: sum.splits option.splits
      dest: Chunk_total[OF assms(1), THEN notE] BM25_Filter_total[OF assms(2), THEN notE])

end
