(* ===== verification/Sources_Client.thy ===== *)
theory Sources_Client
  imports Http_Client Search_Runners Pipeline
begin

text \<open>
  The clients of package \<open>sources\<close>: the JSON client of \<open>sources/apiclient.go\<close> with the
  authentication of \<open>sources/auth.go\<close>, and the client of another search service in
  \<open>sources/gosearch\<close> (\<open>client.go\<close>, \<open>discover.go\<close>, \<open>parse.go\<close>): JSON-RPC requests whose
  answers come as an event stream, and a flag that remembers whether the service was reachable.
\<close>

subsection \<open>The JSON client\<close>

datatype AuthMethod = BearerAuth string | NoAuth

definition Apply :: "AuthMethod \<Rightarrow> http_request \<Rightarrow> http_request" where
  "Apply m req =
     (case m of
        BearerAuth token \<Rightarrow> req\<lparr>Headers := AList.update ''Authorization'' (''Bearer '' @ token) (Headers req)\<rparr>
      | NoAuth \<Rightarrow> req)"

record 'w APIClient =
  ac_base :: string
  ac_http :: "'w http_client"
  ac_auth :: AuthMethod
  ac_limiter :: "'w wait option"

datatype 'w APIOption = WithAPIClient "'w http_client" | WithAuth AuthMethod | WithRateLimit "'w wait option"

primrec api_opt :: "'w APIOption \<Rightarrow> 'w APIClient \<Rightarrow> 'w APIClient" where
  "api_opt (WithAPIClient c) a = a\<lparr>ac_http := c\<rparr>"
| "api_opt (WithAuth m) a = a\<lparr>ac_auth := m\<rparr>"
| "api_opt (WithRateLimit l) a = a\<lparr>ac_limiter := l\<rparr>"

text \<open>\<open>fresh\<close> is the default client, with its timeout of thirty seconds.\<close>

definition NewAPIClient :: "'w http_client \<Rightarrow> string \<Rightarrow> 'w APIOption list \<Rightarrow> 'w APIClient" where
  "NewAPIClient fresh base opts =
     fold api_opt opts \<lparr>ac_base = base, ac_http = fresh, ac_auth = NoAuth, ac_limiter = None\<rparr>"

definition maxErrorBodyBytes :: nat where
  "maxErrorBodyBytes = 512"

text \<open>What \<open>do\<close> makes of an answer; the decoder reads the body itself.\<close>

definition api_decode :: "(http_response \<Rightarrow> 'd result) \<Rightarrow> http_response \<Rightarrow> 'd result" where
  "api_decode dec r =
     (if StatusCode r < 200 \<or> StatusCode r \<ge> 300
      then Inl (ErrNew (''sources: HTTP '' @ Itoa (StatusCode r) @ '': ''
        @ TrimSpace (take maxErrorBodyBytes (BodyBytes r))))
      else case dec r of
        Inl e \<Rightarrow> Inl (ErrWrap ''sources: decode response: '' e)
      | Inr d \<Rightarrow> Inr d)"

definition api_send :: "(http_response \<Rightarrow> 'd result) \<Rightarrow> 'w APIClient \<Rightarrow> http_request \<Rightarrow> 'w \<Rightarrow> 'd result \<times> 'w" where
  "api_send dec a req w =
     (case Client_Do (ac_http a) req w of
        (Inl e, w1) \<Rightarrow> (Inl (ErrWrap ''sources: request: '' e), w1)
      | (Inr r, w1) \<Rightarrow> (api_decode dec r, w1))"

definition api_do :: "(http_response \<Rightarrow> 'd result) \<Rightarrow> 'w APIClient \<Rightarrow> http_request \<Rightarrow> 'w \<Rightarrow> 'd result \<times> 'w" where
  "api_do dec a req w =
     (let req = Apply (ac_auth a) req
      in case ac_limiter a of
           None \<Rightarrow> api_send dec a req w
         | Some wait \<Rightarrow>
             (case wait w of
                (Some e, w1) \<Rightarrow> (Inl (ErrWrap ''sources: rate limit: '' e), w1)
              | (None, w1) \<Rightarrow> api_send dec a req w1))"

definition api_Get ::
  "(http_response \<Rightarrow> 'd result) \<Rightarrow> 'w APIClient \<Rightarrow> string \<Rightarrow> url_values \<Rightarrow> 'w \<Rightarrow> 'd result \<times> 'w" where
  "api_Get dec a path params w =
     (let target = ac_base a @ path @ (if params \<noteq> [] then ''?'' @ values_Encode params else '''')
      in case NewRequest (ac_http a) target of
           Some e \<Rightarrow> (Inl (ErrWrap ''sources: build request: '' e), w)
         | None \<Rightarrow> api_do dec a (get target []) w)"

text \<open>\<open>body\<close> is what marshalling the request body gives.\<close>

definition api_Post ::
  "(http_response \<Rightarrow> 'd result) \<Rightarrow> 'w APIClient \<Rightarrow> string \<Rightarrow> string result \<Rightarrow> 'w \<Rightarrow> 'd result \<times> 'w" where
  "api_Post dec a path body w =
     (case body of
        Inl e \<Rightarrow> (Inl (ErrWrap ''sources: marshal body: '' e), w)
      | Inr data \<Rightarrow>
          (case NewRequest (ac_http a) (ac_base a @ path) of
             Some e \<Rightarrow> (Inl (ErrWrap ''sources: build request: '' e), w)
           | None \<Rightarrow>
               api_do dec a \<lparr>Method = ''POST'', Url = ac_base a @ path,
                 Headers = [(''Content-Type'', ''application/json'')], Body = Some data\<rparr> w))"

text \<open>Whatever an option list sets, each request that is sent carries the client's credential.\<close>

definition authorized :: "AuthMethod \<Rightarrow> http_request \<Rightarrow> bool" where
  "authorized m req \<longleftrightarrow>
     (case m of BearerAuth t \<Rightarrow> header_value ''Authorization'' (Headers req) = ''Bearer '' @ t | NoAuth \<Rightarrow> True)"

lemma Apply_authorized: "authorized m (Apply m req)"
  by (cases m) (simp_all add: authorized_def Apply_def header_value_def update_conv')

text \<open>The client sees only requests the credential was put on: replacing it by one that refuses
  all others changes nothing.\<close>

definition guarded :: "AuthMethod \<Rightarrow> 'w http_client \<Rightarrow> 'w http_client" where
  "guarded m C = C\<lparr>Client_Do := \<lambda>req w. if authorized m req then Client_Do C req w else (Inl Canceled, w)\<rparr>"

lemma api_do_guarded: "api_do dec (a\<lparr>ac_http := guarded (ac_auth a) (ac_http a)\<rparr>) req w = api_do dec a req w"
  by (simp add: api_do_def api_send_def guarded_def Apply_authorized Let_def split: option.splits prod.splits)

lemma guarded_NewRequest [simp]: "NewRequest (guarded m C) = NewRequest C"
  by (simp add: guarded_def)

text \<open>C30: A client configured with a bearer token sends no request without it: every request that
  reaches the HTTP client, for \<open>Get\<close> and \<open>Post\<close>, with or without a rate limiter, carries the
  credential, so a server that answers only such requests makes no difference.\<close>

theorem api_requests_authorized:
  "api_Get dec (a\<lparr>ac_http := guarded (ac_auth a) (ac_http a)\<rparr>) path params w = api_Get dec a path params w
   \<and> api_Post dec (a\<lparr>ac_http := guarded (ac_auth a) (ac_http a)\<rparr>) path body w = api_Post dec a path body w"
  by (simp add: api_Get_def api_Post_def api_do_guarded Let_def split: option.splits sum.splits)

text \<open>An error answer is quoted up to 512 bytes.\<close>

lemma api_error_bounded:
  assumes "StatusCode r < 200 \<or> StatusCode r \<ge> 300"
  shows "\<exists>t. api_decode dec r = Inl (ErrNew (''sources: HTTP '' @ Itoa (StatusCode r) @ '': '' @ t)) \<and> length t \<le> 512"
  using assms TrimSpace_length[of "take 512 (BodyBytes r)"]
  by (auto simp: api_decode_def maxErrorBodyBytes_def)

subsection \<open>Event streams\<close>

definition maxResponseBytes :: nat where
  "maxResponseBytes = 2 * 1024 * 1024"

text \<open>\<open>bufio.Scanner\<close> with \<open>ScanLines\<close>: the parts between line feeds, the last one only when it
  is not empty, without one trailing carriage return.\<close>

definition raw_lines :: "string \<Rightarrow> string list" where
  "raw_lines s = (let ls = Split s [CHR 0x0A] in if last ls = '''' then butlast ls else ls)"

definition dropCR :: "string \<Rightarrow> string" where
  "dropCR l = (if l \<noteq> [] \<and> last l = CHR 0x0D then butlast l else l)"

definition CutPrefix :: "string \<Rightarrow> string \<Rightarrow> string option" where
  "CutPrefix s pre = (if HasPrefix s pre then Some (drop (length pre) s) else None)"

text \<open>The loop keeps the last payload.\<close>

definition last_data :: "string list \<Rightarrow> string" where
  "last_data ls = fold (\<lambda>l d. case CutPrefix l ''data: '' of Some x \<Rightarrow> x | None \<Rightarrow> d) ls ''''"

text \<open>A line that fills the scanner's buffer stops it, before an error of the body is seen.\<close>

definition extractSSEData :: "http_response \<Rightarrow> string result" where
  "extractSSEData r =
     (if list_ex (\<lambda>l. length l \<ge> maxResponseBytes) (raw_lines (BodyBytes r))
      then Inl (ErrWrap ''read SSE stream: '' (ErrNew ''bufio.Scanner: token too long''))
      else case BodyErr r of
        Some e \<Rightarrow> Inl (ErrWrap ''read SSE stream: '' e)
      | None \<Rightarrow>
          let d = last_data (map dropCR (raw_lines (BodyBytes r)))
          in if d = '''' then Inl (ErrNew ''no data in SSE response'') else Inr d)"

subsection \<open>The gosearch client\<close>

record gs_Result =
  gs_URL :: string
  gs_Title :: string
  gs_Description :: string
  gs_Score :: real

record 'w gs_Client =
  gs_baseURL :: string
  gs_http :: "'w http_client"
  gs_ok :: bool

fun trim_slashes :: "string \<Rightarrow> string" where
  "trim_slashes s = rev (dropWhile (\<lambda>c. c = CHR ''/'') (rev s))"

text \<open>\<open>httpClient\<close> is nil or a client; \<open>fresh\<close> the default one.  A disabled client keeps nil,
  which is never used.\<close>

definition gs_NewClient :: "'w http_client \<Rightarrow> string \<Rightarrow> 'w http_client option \<Rightarrow> 'w gs_Client" where
  "gs_NewClient fresh baseURL httpClient =
     \<lparr>gs_baseURL = trim_slashes baseURL, gs_http = (case httpClient of Some c \<Rightarrow> c | None \<Rightarrow> fresh), gs_ok = False\<rparr>"

definition Available :: "'w gs_Client \<Rightarrow> bool" where
  "Available c \<longleftrightarrow> gs_baseURL c \<noteq> '''' \<and> gs_ok c"

definition CheckHealth :: "'w gs_Client \<Rightarrow> 'w \<Rightarrow> bool \<times> 'w gs_Client \<times> 'w" where
  "CheckHealth c w =
     (if gs_baseURL c = '''' then (False, c, w)
      else
        let (resp, w1) = send '''' '''' (gs_http c) (get (gs_baseURL c @ ''/health'') []) w;
            reachable = (case resp of Inl _ \<Rightarrow> False | Inr r \<Rightarrow> StatusCode r = 200)
        in (reachable, c\<lparr>gs_ok := reachable\<rparr>, w1))"

datatype rpc_arg = ArgString string | ArgBool bool

record rpcRequest =
  rpc_name :: string
  rpc_arguments :: "(string, rpc_arg) gomap"

text \<open>A decoded JSON-RPC answer: its error, or the texts of its contents.\<close>

record rpcResponse =
  rpc_Error :: "(int \<times> string) option"
  rpc_Content :: "string list"

record gs_codec =
  gc_marshal :: "rpcRequest \<Rightarrow> string result"
  gc_rpc :: "string \<Rightarrow> rpcResponse result"
  gc_results :: "string \<Rightarrow> gs_Result list result"
  gc_output :: "string \<Rightarrow> SourceItem list result"

text \<open>The common part of the two answers' parsing: the first content, decoded.\<close>

definition rpc_text :: "gs_codec \<Rightarrow> (string \<Rightarrow> 'd result) \<Rightarrow> string \<Rightarrow> 'd result" where
  "rpc_text K dec data =
     (case gc_rpc K data of
        Inl e \<Rightarrow> Inl (ErrWrap ''parse rpc response: '' e)
      | Inr r \<Rightarrow>
          (case rpc_Error r of
             Some (code, msg) \<Rightarrow> Inl (ErrNew (''rpc error '' @ Itoa code @ '': '' @ msg))
           | None \<Rightarrow>
               (case rpc_Content r of
                  [] \<Rightarrow> Inl (ErrNew ''empty content in rpc response'')
                | t # _ \<Rightarrow>
                    (case dec t of
                       Inl e \<Rightarrow> Inl (ErrWrap ''parse search output: '' e)
                     | Inr d \<Rightarrow> Inr d))))"

definition parseRPCResponse :: "gs_codec \<Rightarrow> string \<Rightarrow> gs_Result list result" where
  "parseRPCResponse K = rpc_text K (gc_results K)"

definition discover_item :: "SourceItem \<Rightarrow> gs_Result option" where
  "discover_item s =
     (if si_URL s = '''' then None
      else Some \<lparr>gs_URL = si_URL s, gs_Title = si_Title s, gs_Description = si_Snippet s, gs_Score = 0\<rparr>)"

definition parseDiscoverResponse :: "gs_codec \<Rightarrow> string \<Rightarrow> gs_Result list result" where
  "parseDiscoverResponse K data =
     (case rpc_text K (gc_output K) data of Inl e \<Rightarrow> Inl e | Inr ss \<Rightarrow> Inr (List.map_filter discover_item ss))"

text \<open>A tool call: the request of \<open>SearchWithOpts\<close> and \<open>Discover\<close>, whose error texts differ in a
  prefix.  The flag is lowered by a failed transport and by a bad status, by nothing else.\<close>

definition call_tool ::
  "string \<Rightarrow> gs_codec \<Rightarrow> (string \<Rightarrow> gs_Result list result) \<Rightarrow> rpcRequest \<Rightarrow> 'w gs_Client \<Rightarrow> 'w
   \<Rightarrow> gs_Result list result \<times> 'w gs_Client \<times> 'w" where
  "call_tool pfx K parse rpc c w =
     (case gc_marshal K rpc of
        Inl e \<Rightarrow> (Inl (ErrWrap (pfx @ ''marshal rpc request: '') e), c, w)
      | Inr body \<Rightarrow>
          (case NewRequest (gs_http c) (gs_baseURL c @ ''/mcp'') of
             Some e \<Rightarrow> (Inl (ErrWrap (pfx @ ''build request: '') e), c, w)
           | None \<Rightarrow>
               let req = \<lparr>Method = ''POST'', Url = gs_baseURL c @ ''/mcp'',
                     Headers = [(''Content-Type'', ''application/json''),
                                (''Accept'', ''application/json, text/event-stream'')], Body = Some body\<rparr>
               in (case Client_Do (gs_http c) req w of
                     (Inl e, w1) \<Rightarrow> (Inl (ErrWrap (pfx @ ''go-search request: '') e), c\<lparr>gs_ok := False\<rparr>, w1)
                   | (Inr r, w1) \<Rightarrow>
                       if StatusCode r \<noteq> 200
                       then (Inl (ErrNew (pfx @ ''go-search returned status '' @ Itoa (StatusCode r))), c\<lparr>gs_ok := False\<rparr>, w1)
                       else (case extractSSEData r of
                               Inl e \<Rightarrow> Inl (ErrWrap (pfx @ ''parse SSE response: '') e)
                             | Inr d \<Rightarrow> parse d, c, w1))))"

record gs_SearchOpts =
  gso_Source :: string
  gso_IncludeMedia :: bool

definition SearchWithOpts ::
  "gs_codec \<Rightarrow> 'w gs_Client \<Rightarrow> string \<Rightarrow> string \<Rightarrow> gs_SearchOpts \<Rightarrow> 'w \<Rightarrow> gs_Result list result \<times> 'w gs_Client \<times> 'w" where
  "SearchWithOpts K c query timeRange opts w =
     (if gs_baseURL c = '''' then (Inl (ErrNew ''go-search client not configured''), c, w)
      else
        let args = [(''query'', ArgString query)]
              @ (if timeRange \<noteq> '''' then [(''time_range'', ArgString timeRange)] else [])
              @ (if gso_Source opts \<noteq> '''' then [(''source'', ArgString (gso_Source opts))] else [])
              @ (if gso_IncludeMedia opts then [(''include_media'', ArgBool True)] else [])
        in call_tool '''' K (parseRPCResponse K) \<lparr>rpc_name = ''raw_web_search'', rpc_arguments = args\<rparr> c w)"

definition gs_Search ::
  "gs_codec \<Rightarrow> 'w gs_Client \<Rightarrow> string \<Rightarrow> string \<Rightarrow> bool list \<Rightarrow> 'w \<Rightarrow> gs_Result list result \<times> 'w gs_Client \<times> 'w" where
  "gs_Search K c query timeRange includeMedia w =
     SearchWithOpts K c query timeRange
       \<lparr>gso_Source = '''', gso_IncludeMedia = includeMedia \<noteq> [] \<and> hd includeMedia\<rparr> w"

record DiscoverOpts =
  do_Source :: string
  do_Depth :: string

definition Discover ::
  "gs_codec \<Rightarrow> 'w gs_Client \<Rightarrow> string \<Rightarrow> DiscoverOpts \<Rightarrow> 'w \<Rightarrow> gs_Result list result \<times> 'w gs_Client \<times> 'w" where
  "Discover K c query opts w =
     (if gs_baseURL c = '''' then (Inl (ErrNew ''go-search client not configured''), c, w)
      else
        let args = [(''query'', ArgString query)]
              @ (if do_Source opts \<noteq> '''' then [(''source'', ArgString (do_Source opts))] else [])
              @ (if do_Depth opts \<noteq> '''' then [(''depth'', ArgString (do_Depth opts))] else [])
        in call_tool ''discover: '' K (parseDiscoverResponse K) \<lparr>rpc_name = ''research'', rpc_arguments = args\<rparr> c w)"

subsection \<open>What the gosearch client guarantees\<close>

lemma last_data_snoc:
  "last_data (ls @ [l]) = (case CutPrefix l ''data: '' of Some x \<Rightarrow> x | None \<Rightarrow> last_data ls)"
  by (simp add: last_data_def split: option.split)

lemma last_data_found:
  assumes "\<forall>l \<in> set post. CutPrefix l ''data: '' = None"
  shows "last_data (pre @ [''data: '' @ d] @ post) = d"
  using assms
proof (induction post rule: rev_induct)
  case Nil
  then show ?case by (simp add: last_data_snoc CutPrefix_def HasPrefix_iff)
next
  case (snoc l post)
  have "last_data (pre @ [''data: '' @ d] @ post @ [l]) = last_data (pre @ [''data: '' @ d] @ post)"
    using last_data_snoc[of "pre @ [''data: '' @ d] @ post" l] snoc.prems by simp
  with snoc show ?case by simp
qed

lemma raw_lines_Join:
  assumes "ls \<noteq> []" "\<forall>l \<in> set ls. CHR 0x0A \<notin> set l"
  shows "raw_lines (Join ls [CHR 0x0A]) = (if last ls = '''' then butlast ls else ls)"
  by (simp add: raw_lines_def Split_Join_char[OF assms] Let_def)

lemma sse_payload_aux:
  assumes "\<forall>l \<in> set (pre @ post). CHR 0x0A \<notin> set l \<and> length l < maxResponseBytes"
    and "\<forall>l \<in> set post. CutPrefix l ''data: '' = None"
    and "d \<noteq> ''''" "CHR 0x0A \<notin> set d" "CHR 0x0D \<notin> set d" "length d + 6 < maxResponseBytes"
  shows "extractSSEData \<lparr>StatusCode = 200, Header = h,
      BodyBytes = Join (pre @ [''data: '' @ d] @ post) [CHR 0x0A], BodyErr = None\<rparr> = Inr d"
proof -
  let ?ls = "pre @ [''data: '' @ d] @ post"
  let ?raw = "raw_lines (Join ?ls [CHR 0x0A])"
  obtain post' where raw: "?raw = pre @ [''data: '' @ d] @ post'" and sub: "set post' \<subseteq> set post"
  proof (cases "last ?ls = ''''")
    case True
    then have "post \<noteq> []" by auto
    moreover have "?raw = butlast ?ls" using True assms(1,4) by (subst raw_lines_Join) auto
    ultimately have "?raw = pre @ [''data: '' @ d] @ butlast post" by (simp add: butlast_append)
    then show ?thesis using that in_set_butlastD[of _ post] by blast
  next
    case False
    then have "?raw = ?ls" using assms(1,4) by (subst raw_lines_Join) auto
    then show ?thesis using that by blast
  qed
  have short: "\<not> list_ex (\<lambda>l. length l \<ge> maxResponseBytes) ?raw"
  proof -
    have "\<forall>l \<in> set (pre @ post'). length l < maxResponseBytes" using assms(1) sub by auto
    then show ?thesis using assms(6) unfolding raw list_ex_iff by (auto simp: not_le)
  qed
  have "CutPrefix (dropCR l) ''data: '' = None" if "CutPrefix l ''data: '' = None" for l
    using that prefix_order.trans[OF _ prefixeq_butlast, of "''data: ''" l]
    by (auto simp: CutPrefix_def dropCR_def HasPrefix_iff split: if_splits)
  then have "\<forall>l \<in> set (map dropCR post'). CutPrefix l ''data: '' = None" using assms(2) sub by auto
  moreover have "last d \<noteq> CHR 0x0D" using assms(3,5) last_in_set by metis
  then have "dropCR (''data: '' @ d) = ''data: '' @ d" using assms(3) by (simp add: dropCR_def)
  ultimately have "last_data (map dropCR ?raw) = d"
    unfolding raw using last_data_found[of "map dropCR post'" "map dropCR pre" d] by simp
  with short assms(3) show ?thesis by (simp add: extractSSEData_def Let_def)
qed

text \<open>C31: Whatever other lines an event stream has, the payload of its last data line is recovered
  byte for byte, as long as no line reaches two megabytes: events before it, fields and blank
  lines around it and the line ends of the stream do not matter.\<close>

theorem sse_payload_recovered:
  assumes "\<forall>l \<in> set (pre @ post). CHR 0x0A \<notin> set l \<and> length l < maxResponseBytes"
    and "\<forall>l \<in> set post. CutPrefix l ''data: '' = None"
    and "d \<noteq> ''''" "CHR 0x0A \<notin> set d" "CHR 0x0D \<notin> set d" "length d + 6 < maxResponseBytes"
  shows "extractSSEData \<lparr>StatusCode = 200, Header = h,
      BodyBytes = Join (pre @ [''data: '' @ d] @ post) [CHR 0x0A], BodyErr = None\<rparr> = Inr d"
  by (rule sse_payload_aux[OF assms])

theorem sse_payload_recovered_witness:
  "extractSSEData \<lparr>StatusCode = 200, Header = [],
      BodyBytes = Join ([''event: message''] @ [''data: '' @ ''{}''] @ ['''', '''']) [CHR 0x0A], BodyErr = None\<rparr> = Inr ''{}''"
  by (rule sse_payload_recovered) (simp_all add: maxResponseBytes_def CutPrefix_def HasPrefix_iff)

text \<open>A payload that the stream splits over several data lines is not joined: only its last
  line is kept.\<close>

lemma sse_multiline_lost:
  "extractSSEData \<lparr>StatusCode = 200, Header = [],
      BodyBytes = Join [''data: {'', ''data: }'', ''''] [CHR 0x0A], BodyErr = None\<rparr> = Inr ''}''"
  using sse_payload_aux[of "[''data: {'']" "['''']" "''}''" "[]"]
  by (simp add: maxResponseBytes_def CutPrefix_def HasPrefix_iff)

text \<open>Availability.  The calls on a client in sequence:\<close>

datatype gs_call = CallHealth | CallSearch string string gs_SearchOpts | CallDiscover string DiscoverOpts

primrec gs_exec :: "gs_codec \<Rightarrow> gs_call \<Rightarrow> 'w gs_Client \<times> 'w \<Rightarrow> 'w gs_Client \<times> 'w" where
  "gs_exec K CallHealth s = snd (CheckHealth (fst s) (snd s))"
| "gs_exec K (CallSearch q t opts) s = snd (SearchWithOpts K (fst s) q t opts (snd s))"
| "gs_exec K (CallDiscover q opts) s = snd (Discover K (fst s) q opts (snd s))"

definition gs_run :: "gs_codec \<Rightarrow> gs_call list \<Rightarrow> 'w gs_Client \<times> 'w \<Rightarrow> 'w gs_Client \<times> 'w" where
  "gs_run K calls s = fold (gs_exec K) calls s"

lemma call_tool_flag:
  "call_tool pfx K parse rpc c w = (r, c', w') \<Longrightarrow> gs_baseURL c' = gs_baseURL c \<and> (gs_ok c' \<longrightarrow> gs_ok c)"
  by (auto simp: call_tool_def Let_def split: sum.splits option.splits prod.splits if_splits)

lemma tool_keeps_flag:
  "call \<noteq> CallHealth \<Longrightarrow> Available (fst (gs_exec K call s)) \<Longrightarrow> Available (fst s)"
proof (cases call)
  case (CallSearch q t opts)
  assume "Available (fst (gs_exec K call s))"
  then show ?thesis unfolding CallSearch
    by (cases "SearchWithOpts K (fst s) q t opts (snd s)")
      (auto simp: SearchWithOpts_def Available_def Let_def split: if_splits dest!: call_tool_flag)
next
  case (CallDiscover q opts)
  assume "Available (fst (gs_exec K call s))"
  then show ?thesis unfolding CallDiscover
    by (cases "Discover K (fst s) q opts (snd s)")
      (auto simp: Discover_def Available_def Let_def split: if_splits dest!: call_tool_flag)
qed simp

lemma health_sets_flag: "Available (fst (gs_exec K CallHealth s)) \<Longrightarrow> fst (CheckHealth (fst s) (snd s))"
  by (auto simp: CheckHealth_def Available_def Let_def split_def split: if_splits)


definition lab_gs :: gs_codec where
  "lab_gs = \<lparr>gc_marshal = (\<lambda>_. Inr ''{}''), gc_rpc = (\<lambda>_. Inl Canceled), gc_results = (\<lambda>_. Inl Canceled),
     gc_output = (\<lambda>_. Inl Canceled)\<rparr>"

definition healthy_client :: "unit http_client" where
  "healthy_client = \<lparr>NewRequest = (\<lambda>_. None),
     Client_Do = (\<lambda>_ w. (Inr \<lparr>StatusCode = 200, Header = [], BodyBytes = '''', BodyErr = None\<rparr>, w))\<rparr>"


end
