(* ===== verification/Llm_Prompts.thy ===== *)
theory Llm_Prompts
  imports Llm_Summarize
begin

text \<open>
  The prompt templates of \<open>llm/prompt.go\<close>, the instructions of \<open>TypeInstructions\<close>
  (\<open>llm/summarize.go\<close>), and the formatting they are written for: \<open>fmt.Sprintf\<close> with the verbs
  \<open>%s\<close> and \<open>%d\<close>, the only ones a template has, and the error marks it leaves for arguments that
  are missing, left over or of the wrong type.  The client of \<open>Llm_Client\<close> and \<open>Llm_Summarize\<close>
  takes its prompts as a parameter, since they are variables a program may set; here are the
  values they start with.
\<close>

subsection \<open>Formatting\<close>

datatype fmt_arg = FStr string | FInt int

definition bad_arg :: "fmt_arg \<Rightarrow> string" where
  "bad_arg a = (case a of FStr s \<Rightarrow> ''string='' @ s | FInt n \<Rightarrow> ''int='' @ Itoa n)"

definition fmt_verb :: "char \<Rightarrow> fmt_arg \<Rightarrow> string" where
  "fmt_verb v a =
     (case a of
        FStr s \<Rightarrow> if v = CHR ''s'' then s else ''%!'' @ [v] @ ''('' @ bad_arg a @ '')''
      | FInt n \<Rightarrow> if v = CHR ''d'' then Itoa n else ''%!'' @ [v] @ ''('' @ bad_arg a @ '')'')"

fun Sprintf :: "string \<Rightarrow> fmt_arg list \<Rightarrow> string" where
  "Sprintf [] args =
     (if args = [] then [] else ''%!(EXTRA '' @ Join (map bad_arg args) '', '' @ '')'')"
| "Sprintf (c # cs) args =
     (if c \<noteq> CHR ''%'' then c # Sprintf cs args
      else case cs of
        [] \<Rightarrow> ''%!(NOVERB)'' @ Sprintf [] args
      | v # rest \<Rightarrow>
          if v = CHR ''%'' then CHR ''%'' # Sprintf rest args
          else case args of
            [] \<Rightarrow> ''%!'' @ [v] @ ''(MISSING)'' @ Sprintf rest []
          | a # as \<Rightarrow> fmt_verb v a @ Sprintf rest as)"

subsection \<open>The templates\<close>

definition RewriteQueryPrompt_text :: string where
  "RewriteQueryPrompt_text = Join
     [''Rewrite the following query into a concise, search-engine-optimized form.'',
      ''Output ONLY the rewritten query '' @ [CHR 0xE2, CHR 0x80, CHR 0x94] @ '' no explanation, no punctuation at the end, no quotes.'',
      ''Keep it under 10 words. Use English keywords even if the input is in another language.'',
      '''',
      ''Query: %s''] [CHR 0x0A]"

definition PromptBase_text :: string where
  "PromptBase_text = Join
     [''You are a research assistant. Answer the query using ONLY the search results below.'',
      '''',
      ''Current date: %s'',
      '''',
      ''Respond with valid JSON only (no markdown, no `json` block):'',
      ''{'',
      ''  \"answer\": \"2-3 sentence plain-text summary. No markdown. No citation markers.\",'',
      ''  \"facts\": ['',
      ''    {\"point\": \"Specific fact as a complete sentence.\", \"sources\": [1, 2], \"quote\": \"verbatim span from source 1 or 2\"},'',
      ''    {\"point\": \"Another specific fact with a number or detail.\", \"sources\": [3], \"quote\": \"verbatim span from source 3\"}'',
      ''  ]'',
      ''}'',
      '''',
      ''Rules:'',
      ''- answer: plain text, 2-3 sentences, NO markdown (no **, ##, -, *), NO [N] citation markers'',
      ''- facts: 4-8 key points, each a complete informative sentence, with 1-based source indices'',
      ''- facts should cover the most important, specific information (numbers, names, versions, commands)'',
      ''- quote: copied character-for-character from ONE of the cited sources, one sentence or less, containing every number that appears in point'',
      ''- Answer in the SAME LANGUAGE as the query'',
      ''- Do NOT invent information not present in sources'',
      ''- If sources conflict, include both versions as separate fact items'',
      '''',
      ''%s'',
      '''',
      ''Query: %s'',
      '''',
      ''Sources:'',
      ''%s''] [CHR 0x0A]"

definition PromptDeep_text :: string where
  "PromptDeep_text = Join
     [''You are a research assistant. Extract all key information from the sources below.'',
      '''',
      ''Current date: %s'',
      '''',
      ''Respond with valid JSON only (no markdown, no `json` block):'',
      ''{'',
      ''  \"answer\": \"3-5 sentence plain-text summary covering the main points. No markdown. No citation markers.\",'',
      ''  \"facts\": ['',
      ''    {\"point\": \"Specific fact with detail, number, or command.\", \"sources\": [1, 2], \"quote\": \"verbatim span from source 1 or 2\"},'',
      ''    {\"point\": \"Another distinct fact.\", \"sources\": [3], \"quote\": \"verbatim span from source 3\"}'',
      ''  ]'',
      ''}'',
      '''',
      ''Requirements:'',
      ''- answer: plain text, 3-5 sentences, NO markdown, NO [N] citation markers'',
      ''- facts: 8-15 key points covering all important details from sources'',
      ''- Each fact: one complete sentence with specific information (versions, numbers, names, code snippets)'',
      ''- quote: copied character-for-character from ONE of the cited sources, one sentence or less, containing every number that appears in point'',
      ''- Include code examples as fact points: {\"point\": \"Use '' @ [CHR 0x27] @ ''go build -a'' @ [CHR 0x27] @ '' to force rebuild.\", \"sources\": [2], \"quote\": \"run '' @ [CHR 0x27] @ ''go build -a'' @ [CHR 0x27] @ '' to force a rebuild\"}'',
      ''- sources array: 1-based indices into the provided Sources list'',
      ''- Answer in the SAME LANGUAGE as the query'',
      ''- Do NOT invent information '' @ [CHR 0xE2, CHR 0x80, CHR 0x94] @ '' only use what is in the sources'',
      ''- Cover different aspects: how it works, why it matters, how to use it, common pitfalls'',
      '''',
      ''%s'',
      '''',
      ''Query: %s'',
      '''',
      ''Sources:'',
      ''%s''] [CHR 0x0A]"

definition ExpandWebQueryPrompt_text :: string where
  "ExpandWebQueryPrompt_text = Join
     [''Generate %d different search query variants to find web pages about: \"%s\"'',
      '''',
      ''Rules:'',
      ''- Use different terminology, synonyms, and alternative technical framings'',
      ''- Cover different angles: conceptual explanations, tutorials, comparisons, official docs'',
      ''- Keep each query concise (3-8 words)'',
      ''- CRITICAL: Preserve unambiguous technology names exactly (e.g. \"golang\" NOT \"Go\", \"python\" NOT \"py\", \"nodejs\" NOT \"node\")'',
      ''- Do NOT add GitHub-specific syntax (no language:X, topic:X)'',
      '''',
      ''Return ONLY a JSON array of %d strings, no other text, no markdown.'',
      ''Example for \"golang HTTP middleware\": [\"Go net/http handler chain tutorial\", \"golang web middleware framework examples\"]''] [CHR 0x0A]"

definition ExpandQueryPrompt_text :: string where
  "ExpandQueryPrompt_text = Join
     [''Generate %d different search query variants for finding GitHub repositories related to: \"%s\"'',
      '''',
      ''Rules:'',
      ''- Use different terminology, synonyms, alternative technical framings'',
      ''- Mix natural language with GitHub search syntax (language:X, topic:X, stars:>N)'',
      ''- Cover different angles: language-specific, domain-focused, use-case-based'',
      ''- Keep each query concise (2-6 words or tokens)'',
      ''- CRITICAL: Preserve unambiguous technology names exactly (e.g. \"golang\" NOT \"Go\", \"python\" NOT \"py\")'',
      '''',
      ''Return ONLY a JSON array of %d strings, no other text, no markdown.'',
      ''Example: [\"language:go topic:llm-agent\", \"golang autonomous ai workflow\", \"golang orchestration llm tool\"]''] [CHR 0x0A]"

definition Instruction_QtFact :: string where
  "Instruction_QtFact = Join
     [''FORMAT: One or two sentences with the specific data point requested. Nothing more.''] [CHR 0x0A]"

definition Instruction_QtComparison :: string where
  "Instruction_QtComparison = Join
     [''FORMAT: Start with a compact markdown table (5-8 rows max) comparing key criteria. Column headers = the things being compared.'',
      ''After the table: 1-2 sentences with a practical recommendation (which to choose and when).'',
      ''IMPORTANT: Keep table cells SHORT (under 15 words each). No paragraphs inside cells.''] [CHR 0x0A]"

definition Instruction_QtList :: string where
  "Instruction_QtList = Join
     [''FORMAT: Numbered list. Each item: name + one-line description + citation.'',
      ''Include ALL items found in sources. Order by relevance or popularity.''] [CHR 0x0A]"

definition Instruction_QtHowTo :: string where
  "Instruction_QtHowTo = Join
     [''FORMAT: Numbered steps. Each step is actionable and specific.'',
      ''Include commands, code, or URLs where available in sources.''] [CHR 0x0A]"

definition Instruction_QtGeneral :: string where
  "Instruction_QtGeneral = Join
     [''FORMAT: Direct factual answer. Use bullet points for multiple aspects. Include specific data.'',
      ''Be practical '' @ [CHR 0xE2, CHR 0x80, CHR 0x94] @ '' if the question implies a choice, give a recommendation.''] [CHR 0x0A]"

definition TypeInstructions :: "QueryType \<Rightarrow> string" where
  "TypeInstructions t = (case t of QtFact \<Rightarrow> Instruction_QtFact | QtComparison \<Rightarrow> Instruction_QtComparison
     | QtList \<Rightarrow> Instruction_QtList | QtHowTo \<Rightarrow> Instruction_QtHowTo | QtGeneral \<Rightarrow> Instruction_QtGeneral)"

definition default_prompts :: prompts where
  "default_prompts =
     \<lparr>RewriteQueryPrompt = (\<lambda>query. Sprintf RewriteQueryPrompt_text [FStr query]),
      PromptBase = (\<lambda>date instruction query srcs. Sprintf PromptBase_text [FStr date, FStr instruction, FStr query, FStr srcs]),
      PromptDeep = (\<lambda>date section query srcs. Sprintf PromptDeep_text [FStr date, FStr section, FStr query, FStr srcs]),
      ExpandWebQueryPrompt = (\<lambda>n query m. Sprintf ExpandWebQueryPrompt_text [FInt n, FStr query, FInt m]),
      ExpandQueryPrompt = (\<lambda>n query m. Sprintf ExpandQueryPrompt_text [FInt n, FStr query, FInt m]),
      type_instruction = TypeInstructions\<rparr>"

subsection \<open>Where the arguments go\<close>

text \<open>A template cut at its verbs: the text before the first, and each verb with the text after it.\<close>

fun cut_template :: "string \<Rightarrow> string \<times> (char \<times> string) list" where
  "cut_template [] = ([], [])"
| "cut_template (c # cs) =
     (if c \<noteq> CHR ''%'' then let (s, vs) = cut_template cs in (c # s, vs)
      else case cs of
        [] \<Rightarrow> (''%!(NOVERB)'', [])
      | v # rest \<Rightarrow> let (s, vs) = cut_template rest
          in if v = CHR ''%'' then (CHR ''%'' # s, vs) else ([], (v, s) # vs))"

lemma Sprintf_cut:
  assumes "cut_template t = (s, vs)" "length args = length vs"
  shows "Sprintf t args = s @ concat (map2 (\<lambda>(v, u) a. fmt_verb v a @ u) vs args)"
  using assms
proof (induction t args arbitrary: s vs rule: Sprintf.induct)
  case (2 c cs args)
  show ?case
  proof (cases "c = CHR ''%''")
    case False
    then show ?thesis using 2 by (auto split: prod.splits)
  next
    case True
    then show ?thesis using 2 by (cases args) (auto split: prod.splits list.splits if_splits)
  qed
qed auto

text \<open>A template that is a list of lines is cut line by line, as long as no line ends inside a verb.\<close>

fun closed_line :: "string \<Rightarrow> bool" where
  "closed_line [] = True"
| "closed_line (c # cs) = (if c \<noteq> CHR ''%'' then closed_line cs else case cs of [] \<Rightarrow> False | _ # rest \<Rightarrow> closed_line rest)"

definition verbs_of :: "string \<Rightarrow> string" where
  "verbs_of t = map fst (snd (cut_template t))"

lemma verbs_of_append: "closed_line p \<Longrightarrow> verbs_of (p @ t) = verbs_of p @ verbs_of t"
proof (induction p rule: closed_line.induct)
  case (2 c cs)
  show ?case
  proof (cases "c = CHR ''%''")
    case False
    with 2 show ?thesis by (simp add: verbs_of_def split_def Let_def)
  next
    case True
    with 2 obtain v rest where "cs = v # rest" "closed_line rest" by (auto split: list.splits)
    with 2(2) True show ?thesis by (simp add: verbs_of_def split_def Let_def)
  qed
qed (simp add: verbs_of_def)

lemma verbs_of_Join:
  "list_all closed_line ls \<Longrightarrow> verbs_of (Join ls [CHR 0x0A]) = concat (map verbs_of ls)"
proof (induction ls rule: induct_list012)
  case (3 l l' ls)
  have "verbs_of ([CHR 0x0A] @ t) = verbs_of t" for t by (subst verbs_of_append) (simp_all add: verbs_of_def)
  with 3 show ?case by (simp add: verbs_of_append)
qed (simp_all add: verbs_of_def)

lemma base_verbs: "verbs_of PromptBase_text = ''ssss''"
  unfolding PromptBase_text_def by (subst verbs_of_Join) (simp_all add: verbs_of_def)

text \<open>The text after the last verb.\<close>

definition tail_of :: "string \<Rightarrow> string" where
  "tail_of t = snd (last (snd (cut_template t)))"

lemma tail_of_append: "closed_line p \<Longrightarrow> verbs_of q \<noteq> '''' \<Longrightarrow> tail_of (p @ q) = tail_of q"
proof (induction p rule: closed_line.induct)
  case (2 c cs)
  show ?case
  proof (cases "c = CHR ''%''")
    case False
    with 2 show ?thesis by (simp add: tail_of_def split_def Let_def)
  next
    case True
    with 2 obtain v rest where r: "cs = v # rest" "closed_line rest" by (auto split: list.splits)
    have "verbs_of (rest @ q) \<noteq> ''''" using verbs_of_append[OF r(2)] 2(4) by simp
    then have "snd (cut_template (rest @ q)) \<noteq> []" by (simp add: verbs_of_def)
    with 2(2,4) True r show ?thesis by (simp add: tail_of_def split_def Let_def)
  qed
qed simp

lemma tail_of_Join:
  "list_all closed_line ls \<Longrightarrow> ls \<noteq> [] \<Longrightarrow> verbs_of (last ls) \<noteq> '''' \<Longrightarrow> tail_of (Join ls [CHR 0x0A]) = tail_of (last ls)"
proof (induction ls rule: induct_list012)
  case (3 l l' ls)
  have "verbs_of (Join (l' # ls) [CHR 0x0A]) \<noteq> ''''"
    using 3(3,5) verbs_of_Join[of "l' # ls"] last_in_set[of "l' # ls"] by auto
  moreover from this have "verbs_of ([CHR 0x0A] @ Join (l' # ls) [CHR 0x0A]) \<noteq> ''''"
    by (subst verbs_of_append) simp_all
  ultimately have "tail_of (l @ [CHR 0x0A] @ Join (l' # ls) [CHR 0x0A]) = tail_of (Join (l' # ls) [CHR 0x0A])"
    using 3(3) tail_of_append[of l "[CHR 0x0A] @ Join (l' # ls) [CHR 0x0A]"]
      tail_of_append[of "[CHR 0x0A]" "Join (l' # ls) [CHR 0x0A]"] by simp
  with 3 show ?case by simp
qed simp_all

lemma rewrite_verbs: "verbs_of RewriteQueryPrompt_text = ''s''"
  unfolding RewriteQueryPrompt_text_def by (subst verbs_of_Join) (simp_all add: verbs_of_def)

lemma deep_verbs: "verbs_of PromptDeep_text = ''ssss''"
  unfolding PromptDeep_text_def by (subst verbs_of_Join) (simp_all add: verbs_of_def)

lemma expand_web_verbs: "verbs_of ExpandWebQueryPrompt_text = ''dsd''"
  unfolding ExpandWebQueryPrompt_text_def by (subst verbs_of_Join) (simp_all add: verbs_of_def)

lemma expand_verbs: "verbs_of ExpandQueryPrompt_text = ''dsd''"
  unfolding ExpandQueryPrompt_text_def by (subst verbs_of_Join) (simp_all add: verbs_of_def)

text \<open>The formats the calls use, in terms of a template's verbs.\<close>

lemma format_dsd:
  assumes "verbs_of t = ''dsd''"
  shows "\<exists>a b c d. \<forall>n q m. Sprintf t [FInt n, FStr q, FInt m] = a @ Itoa n @ b @ q @ c @ Itoa m @ d"
proof -
  obtain s vs where cut: "cut_template t = (s, vs)" by fastforce
  with assms obtain b c d where "vs = [(CHR ''d'', b), (CHR ''s'', c), (CHR ''d'', d)]"
    by (auto simp: verbs_of_def map_eq_Cons_conv)
  with Sprintf_cut[OF cut] show ?thesis by (auto simp: fmt_verb_def)
qed


lemma rewrite_tail: "tail_of RewriteQueryPrompt_text = ''''"
  unfolding RewriteQueryPrompt_text_def by (subst tail_of_Join) (simp_all add: verbs_of_def tail_of_def)

lemma base_tail: "tail_of PromptBase_text = ''''"
  unfolding PromptBase_text_def by (subst tail_of_Join) (simp_all add: verbs_of_def tail_of_def)

lemma deep_tail: "tail_of PromptDeep_text = ''''"
  unfolding PromptDeep_text_def by (subst tail_of_Join) (simp_all add: verbs_of_def tail_of_def)

lemma format_s:
  assumes "verbs_of t = ''s''" "tail_of t = ''''"
  shows "\<exists>a. \<forall>q. Sprintf t [FStr q] = a @ q"
proof -
  obtain s vs where cut: "cut_template t = (s, vs)" by fastforce
  with assms have "vs = [(CHR ''s'', '''')]" by (auto simp: verbs_of_def tail_of_def map_eq_Cons_conv)
  with Sprintf_cut[OF cut] show ?thesis by (auto simp: fmt_verb_def)
qed

lemma format_ssss:
  assumes "verbs_of t = ''ssss''" "tail_of t = ''''"
  shows "\<exists>a b c d. \<forall>x y z u. Sprintf t [FStr x, FStr y, FStr z, FStr u] = a @ x @ b @ y @ c @ z @ d @ u"
proof -
  obtain s vs where cut: "cut_template t = (s, vs)" by fastforce
  with assms obtain b c d where "vs = [(CHR ''s'', b), (CHR ''s'', c), (CHR ''s'', d), (CHR ''s'', '''')]"
    by (auto simp: verbs_of_def tail_of_def map_eq_Cons_conv)
  with Sprintf_cut[OF cut] show ?thesis by (auto simp: fmt_verb_def)
qed

text \<open>Every prompt carries its arguments.  Each template has as many verbs as its call has
  arguments, of their types and in their order, so every argument stands in the prompt verbatim
  at its place and no formatting error can occur; in the summarizing prompts the sources come last,
  with nothing after them, and so does the query in the rewriting prompt.\<close>

theorem prompts_carry_arguments:
  "(\<exists>a b c d. \<forall>date instruction query srcs.
      PromptBase default_prompts date instruction query srcs = a @ date @ b @ instruction @ c @ query @ d @ srcs)
   \<and> (\<exists>a b c d. \<forall>date section query srcs.
      PromptDeep default_prompts date section query srcs = a @ date @ b @ section @ c @ query @ d @ srcs)
   \<and> (\<exists>a. \<forall>query. RewriteQueryPrompt default_prompts query = a @ query)
   \<and> (\<exists>a b c d. \<forall>n query m. ExpandWebQueryPrompt default_prompts n query m = a @ Itoa n @ b @ query @ c @ Itoa m @ d)
   \<and> (\<exists>a b c d. \<forall>n query m. ExpandQueryPrompt default_prompts n query m = a @ Itoa n @ b @ query @ c @ Itoa m @ d)"
  unfolding default_prompts_def prompts.simps
  by (intro conjI format_ssss format_s format_dsd base_verbs base_tail deep_verbs deep_tail rewrite_verbs rewrite_tail
      expand_web_verbs expand_verbs)

text \<open>A missing argument would leave a mark in the prompt.\<close>

lemma missing_argument_marked: "Sprintf ''Query: %s'' [] = ''Query: %!s(MISSING)''"
  by simp

end
