(* ===== verification/Spec2Isabelle.thy ===== *)
theory Spec2Isabelle
  imports Text_Query Search_Ox Search_Runners Ws_Direct Search_Run Fetch_Concurrent Engine_Setup Fetch_Setup Sources_Client Llm_Prompts
begin

text \<open>
  \<^bold>\<open>A verification development for \<open>go-engine\<close>\<close>

  The repository is a Go library for search-and-answer services.  A query goes to several search
  engines at once (\<open>search\<close>, \<open>websearch\<close>, \<open>imagesearch\<close>, \<open>sources\<close>), the answers are fused and
  deduplicated, the pages behind them are fetched (\<open>fetch\<close>), reduced to text (\<open>extract\<close>, \<open>text\<close>), and
  a language model summarizes them (\<open>llm\<close>); every fact it proposes is checked against the sources
  before it is reported (\<open>llm/factverify.go\<close>).  \<open>pipeline\<close> composes these parts.

  \<^bold>\<open>How Go is represented.\<close>  Strings and byte slices are lists of bytes (\<^typ>\<open>string\<close>), runes are
  naturals (\<open>Go_Strings\<close>, \<open>Go_Runes\<close>, \<open>Go_Trim\<close>); \<open>int\<close> is \<^typ>\<open>int\<close>, wrapped to 64 bits where the
  code can overflow (\<open>Go_Int\<close>); \<open>float64\<close> is \<^typ>\<open>real\<close>; times and durations are integers of
  nanoseconds; a map is an association list, and where the order of a walk matters it is a
  parameter.  Errors are values of \<^typ>\<open>go_error\<close> with \<open>errors.Is\<close> and \<open>errors.As\<close> (\<open>Go_Errors\<close>), a
  fallible call returns \<^typ>\<open>'a result\<close>, a panic is \<open>GoPanic\<close> or \<^const>\<open>None\<close>.  What is outside the
  repository (clocks, contexts, HTTP clients, HTML and JSON decoders, the kit client of the model,
  the Unicode tables) is a parameter, usually a record of functions over a world \<open>'w\<close> that each
  call threads on.  Log lines are left out; counters are lists of events.  \<open>Go_Net\<close>, \<open>Go_Regexp\<close> and
  \<open>Http_Client\<close> hold what is used of \<open>net/url\<close>, \<open>time\<close>, \<open>regexp\<close>, \<open>net/http\<close> and \<open>base64\<close>.
  \<open>Prelude\<close> has the shared lemmas and the collections of rewrite rules.

  \<^bold>\<open>Goroutines.\<close>  A function that starts goroutines and waits for them is an \<open>inductive\<close> step
  relation.  Two locales (\<open>Work_System\<close>) derive from an invariant and a count of the remaining work
  that no interleaving gets stuck: in a \<open>bounded_system\<close> a step does at least one unit of work, so
  there is no infinite run; in a \<open>work_system\<close>, which is a \<open>bounded_system\<close>, exactly one, so the number
  of steps of each run is known.  The latter is interpreted on the fan-out of \<open>search\<close>, with
  arbitrary and with its real sources, the parallel fetch, the pipeline search and the collection
  under a mutex (\<open>Mutex_Collect\<close>) that \<open>websearch\<close> and \<open>imagesearch\<close> share; the former on concurrent
  calls of one fetcher and on the escalation tier.  Where goroutines share objects that lock
  themselves, a step is one locked method, metric call or network exchange, and it reads a world of
  its own: nothing is assumed of what happens outside between two steps.

  \<^bold>\<open>The theories and the code they model.\<close>
  \<^item> \<open>Block_Cache\<close> (\<open>fetch/blockcache.go\<close>), \<open>Fetch_Signals\<close> (\<open>fetch/blocksignals.go\<close>, \<open>hosts.go\<close>), \<open>Retry\<close>
    (the retry loop and tracker of the vendored \<open>go-stealth\<close>, \<open>fetch/retry.go\<close>), \<open>Fetcher\<close>
    (\<open>fetch/fetcher.go\<close>, \<open>oxbrowser.go\<close>, \<open>gobrowser.go\<close>, \<open>byparr.go\<close>, \<open>helpers.go\<close>), \<open>Fetch_Metrics\<close>
    (\<open>fetch/metrics.go\<close>, package \<open>metrics\<close>), \<open>Fetch_Setup\<close> (\<open>New\<close> with all options, redirects),
    \<open>Fetch_Concurrent\<close> (calls of \<open>FetchBodyWithHeaders\<close> that run at the same time).  Shown: the
    cache invariant over all histories, and that it survives every fetch; how long marks last; which
    answers are block signals; that concurrent calls end, that the counters account for every one of
    them and that the shared cache is the result of some history; that the schedule without overlap is
    the sequential model; that every stealth client is built with its guards; that the plain client
    stops after ten requests.
  \<^item> \<open>Ws_Results\<close> (\<open>websearch/fusion.go\<close>, \<open>filter.go\<close>, \<open>dedup.go\<close>, \<open>format.go\<close>): fusion returns each address
    once in score order, deduplication keeps a dominating set.
  \<^item> \<open>Ws_Http\<close>, \<open>Ws_Parse\<close>, \<open>Ws_Engines\<close>, \<open>Engine_Setup\<close> (the engines of \<open>websearch\<close> over a browser: requests,
    rate-limit tests, parsers, searches, combinators, constructors, and the copies kept in \<open>search\<close>),
    \<open>Dual_Browser\<close> (\<open>search/dual_browser.go\<close>), \<open>Reddit_OAuth\<close> (\<open>reddit_token.go\<close>, \<open>SearchOAuth\<close>), \<open>Ws_Apis\<close>
    (Yandex, SearXNG, StackOverflow, arXiv, Brave API), \<open>Ws_Direct\<close> (\<open>websearch/direct.go\<close>).  The locale
    \<open>provider\<close> is the contract of an engine, \<open>browser_setup\<close> that of its constructor, and \<open>built_engine\<close>
    joins them; each has one interpretation per engine.  Shown: usable results, round trips of addresses and tokens,
    termination of the Yandex poll loop, complete collection of the fan-out.
  \<^item> \<open>Quotas\<close> (the budgets, under interleaving), \<open>Search_Runners\<close> (\<open>search/direct_runners.go\<close> and the sources),
    \<open>Search_Collect\<close>, \<open>Search_Fanout\<close>, \<open>Search_Ox\<close> (\<open>search/direct.go\<close>): what a whole search reports, for
    every interleaving of its sources, which engines it marks, and the escalation tier.  \<open>Search_Jobs\<close>
    puts the runners into the fan-out (the job table, the pacer, the dual browser) and \<open>Search_Run\<close> adds
    the goroutines of the escalation: every run is one of the schedules of \<open>SearchDirect\<close>, and a refusal
    is followed from the browser's status code over \<open>ErrRateLimited\<close> and the mark to the next search,
    which leaves the engine out.
  \<^item> \<open>Image_Search\<close> (package \<open>imagesearch\<close>): five engines under the locale \<open>image_engine\<close>, fusion and the
    parallel search.
  \<^item> \<open>Sources_Client\<close> (\<open>sources/apiclient.go\<close>, \<open>auth.go\<close>, package \<open>gosearch\<close>): credentials on every request,
    event streams, the availability flag over sequences of calls.
  \<^item> \<open>Text_Chunk\<close>, \<open>Text_Query\<close> (package \<open>text\<close>), \<open>Extract\<close> (package \<open>extract\<close>): chunks cover the text,
    extraction is total and bounded.
  \<^item> \<open>Fact_Numbers\<close>, \<open>Llm_Facts\<close> (\<open>llm/factverify.go\<close>), \<open>Llm_Client\<close> (\<open>llm/client.go\<close>, \<open>query.go\<close>), \<open>Llm_Summarize\<close>
    (\<open>llm/summarize.go\<close>), \<open>Llm_Prompts\<close> (\<open>llm/prompt.go\<close>): a verified fact has its quote and its numbers in
    a source it cites; the optimized number rule equals its reference; budgets; every prompt carries
    its arguments.
  \<^item> \<open>Parallel_Fetch\<close>, \<open>Pipeline\<close> (package \<open>pipeline\<close>): the concurrent fetch refines the sequential one, within
    its bound; a run reports only facts that hold of the sources it lists.

  \<^bold>\<open>Bounds.\<close>  Nothing runs on fuel.  Loops are structural or have a measure; the Yandex poll loop,
  which ends only because time passes, is a \<open>partial_function\<close> in \<^typ>\<open>'a option\<close> that is proved to
  return after at most 21 requests, from a law on the ticker stated in the theorem.

  \<^bold>\<open>Not modelled.\<close>  Logging; the sizes of the connection pools; cancellation in the middle of a
  library call (a context is asked where the code asks it); the rounding of \<open>float64\<close>; the vendored
  libraries other than the parts named above; type aliases and the exported names that only forward
  to another package.
\<close>

section \<open>A browser assembled from a fetcher\<close>

text \<open>C18: A service passes the two clients of a fetcher to the search engines as one browser.  With a
  proxy client, under whatever options the fetcher was built, no request through that browser runs
  into a nil pointer as long as the clients themselves do not panic; and without a direct client the
  browser is the proxy client alone, although what the fetcher hands out is then a nil pointer inside
  a non-nil interface.\<close>

theorem assembled_browser_safe:
  assumes "BrowserClient (su_fetcher (NewFetcher U N opts)) = Some ua"
    and "\<And>x rq w. \<not> is_panic (fst (Do (mk x) rq w))"
  shows "let f = su_fetcher (NewFetcher U N opts);
             br = newDualBrowser (to_iface mk (BrowserClient f)) (to_iface mk (DirectClient f))
         in \<not> is_panic (fst (iface_Do br rq w))
            \<and> (if directFirst f then isNilInterface br = False else br = Iface (mk ua))"
proof -
  let ?f = "su_fetcher (NewFetcher U N opts)"
  have none: "DirectClient ?f = None" if "\<not> directFirst ?f"
    using that direct_client_needs_mode[of U N opts] by (auto simp: DirectClient_def split: client.split)
  have "isNilInterface (newDualBrowser (to_iface mk (BrowserClient ?f)) (to_iface mk (DirectClient ?f))) = False"
    using assms(1) by (simp add: newDualBrowser_def to_iface_def isNilInterface_def split: option.split)
  with dual_over_fetcher[of ?f ua mk rq w, OF assms] none show ?thesis by (auto simp: Let_def)
qed

definition lab_builder :: "stealth_option list \<Rightarrow> string option" where
  "lab_builder os = (if StealthProxyPool \<in> set os then Some ''ua'' else None)"

theorem assembled_browser_safe_witness:
  "let f = su_fetcher (NewFetcher ascii_tables lab_builder [TierOption (WithProxyPool True)]);
       mk = (\<lambda>ua. still_browser (Inr (ua, [], 200)));
       br = newDualBrowser (to_iface mk (BrowserClient f)) (to_iface mk (DirectClient f))
   in \<not> is_panic (fst (iface_Do br (get ''u'' []) ()))
      \<and> (if directFirst f then isNilInterface br = False else br = Iface (mk ''ua''))"
  unfolding Let_def
  by (rule assembled_browser_safe[unfolded Let_def])
    (simp_all add: BrowserClient_def NewFetcher_def lab_builder_def proxy_options_def empty_fetcher_def Let_def
      still_browser_def is_panic_def)

end
